(* ===== verification/Prelude.thy ===== *)
theory Prelude
  imports Complex_Main
begin

text \<open>
  The prelude of the development: results that are either an error or a value, with
  the \<open>?\<close> operator of the source as \<open>rbind\<close>; the machine integer widths the
  source uses, with the checked operations of the standard library; and the generic
  facts on lists and loops that the components share.

  Machine integers are HOL integers with their width written out: every checked
  operation and every \<open>try_from\<close> of the source names its width and tests the range.
\<close>

named_theorems res_simps \<open>rewriting of results\<close>
named_theorems width_simps \<open>unfolding of the integer widths\<close>

section \<open>Results\<close>

definition rbind :: "'e + 'a \<Rightarrow> ('a \<Rightarrow> 'e + 'b) \<Rightarrow> 'e + 'b" where
  "rbind m f = (case m of Inl e \<Rightarrow> Inl e | Inr x \<Rightarrow> f x)"

definition ok_or :: "'a option \<Rightarrow> 'e \<Rightarrow> 'e + 'a" where
  "ok_or x e = (case x of None \<Rightarrow> Inl e | Some y \<Rightarrow> Inr y)"

text \<open>\<open>Option::unwrap_or\<close>.\<close>

definition unwrap_or :: "'a \<Rightarrow> 'a option \<Rightarrow> 'a" where
  "unwrap_or d x = (case x of None \<Rightarrow> d | Some y \<Rightarrow> y)"

lemma unwrap_or_simps [simp]: "unwrap_or d None = d" "unwrap_or d (Some y) = y"
  by (simp_all add: unwrap_or_def)

lemma rbind_simps [simp, code]:
  "rbind (Inl e) f = Inl e"
  "rbind (Inr x) f = f x"
  by (simp_all add: rbind_def)

lemma ok_or_simps [simp, code]:
  "ok_or None e = Inl e"
  "ok_or (Some y) e = Inr y"
  by (simp_all add: ok_or_def)

lemma rbind_Inr [res_simps]: "rbind m f = Inr y \<longleftrightarrow> (\<exists>x. m = Inr x \<and> f x = Inr y)"
  by (cases m) auto

lemma rbind_Inl [res_simps]:
  "rbind m f = Inl e \<longleftrightarrow> m = Inl e \<or> (\<exists>x. m = Inr x \<and> f x = Inl e)"
  by (cases m) auto

lemma ok_or_Inr [res_simps]: "ok_or x e = Inr y \<longleftrightarrow> x = Some y"
  by (cases x) auto

lemma ok_or_Inl [res_simps]: "ok_or x e = Inl e' \<longleftrightarrow> x = None \<and> e' = e"
  by (cases x) auto

lemma rbind_assoc: "rbind (rbind m f) g = rbind m (\<lambda>x. rbind (f x) g)"
  by (cases m) auto

lemma rbind_cong [fundef_cong]:
  "m = m' \<Longrightarrow> (\<And>x. m' = Inr x \<Longrightarrow> f x = f' x) \<Longrightarrow> rbind m f = rbind m' f'"
  by (cases m') auto

lemma rbindE [elim?]:
  assumes "rbind m f = Inr y"
  obtains x where "m = Inr x" and "f x = Inr y"
  using assms by (auto simp: res_simps)

text \<open>A loop that threads a state through the elements of a list and stops at the first error.\<close>

fun fold_res :: "('a \<Rightarrow> 's \<Rightarrow> 'e + 's) \<Rightarrow> 'a list \<Rightarrow> 's \<Rightarrow> 'e + 's" where
  "fold_res f [] s = Inr s"
| "fold_res f (x # xs) s = rbind (f x s) (fold_res f xs)"

lemma fold_res_append: "fold_res f (xs @ ys) s = rbind (fold_res f xs s) (fold_res f ys)"
proof (induction xs arbitrary: s)
  case (Cons x xs)
  then show ?case by (cases "f x s") auto
qed simp

lemma fold_res_invariant:
  assumes "fold_res f xs s = Inr t" and "P s"
    and step: "\<And>x s s'. x \<in> set xs \<Longrightarrow> P s \<Longrightarrow> f x s = Inr s' \<Longrightarrow> P s'"
  shows "P t"
  using assms
proof (induction xs arbitrary: s)
  case (Cons x xs)
  then obtain s' where "f x s = Inr s'" and "fold_res f xs s' = Inr t"
    by (auto simp: res_simps)
  with Cons.prems Cons.IH [of s'] show ?case by auto
qed simp

lemma fold_res_Inl_elem:
  "fold_res f xs s = Inl e \<Longrightarrow> \<exists>x s. x \<in> set xs \<and> f x s = Inl e"
proof (induction xs arbitrary: s)
  case (Cons x xs)
  then consider "f x s = Inl e" | s' where "fold_res f xs s' = Inl e"
    by (auto simp: res_simps)
  then show ?case using Cons.IH by cases fastforce+
qed simp

section \<open>Machine integers\<close>

datatype width = U32 | U64 | U128 | Usize | I32 | I64 | I128

fun w_min :: "width \<Rightarrow> int" where
  "w_min I32 = - (2 ^ 31)"
| "w_min I64 = - (2 ^ 63)"
| "w_min I128 = - (2 ^ 127)"
| "w_min _ = 0"

fun w_max :: "width \<Rightarrow> int" where
  "w_max U32 = 2 ^ 32 - 1"
| "w_max U64 = 2 ^ 64 - 1"
| "w_max U128 = 2 ^ 128 - 1"
| "w_max Usize = 2 ^ 64 - 1"
| "w_max I32 = 2 ^ 31 - 1"
| "w_max I64 = 2 ^ 63 - 1"
| "w_max I128 = 2 ^ 127 - 1"

definition fits :: "width \<Rightarrow> int \<Rightarrow> bool" where
  "fits w x \<longleftrightarrow> w_min w \<le> x \<and> x \<le> w_max w"

lemma fits_widths [width_simps]:
  "fits U32 x \<longleftrightarrow> 0 \<le> x \<and> x \<le> 4294967295"
  "fits U64 x \<longleftrightarrow> 0 \<le> x \<and> x \<le> 18446744073709551615"
  "fits Usize x \<longleftrightarrow> 0 \<le> x \<and> x \<le> 18446744073709551615"
  "fits U128 x \<longleftrightarrow> 0 \<le> x \<and> x \<le> 340282366920938463463374607431768211455"
  "fits I32 x \<longleftrightarrow> - 2147483648 \<le> x \<and> x \<le> 2147483647"
  "fits I64 x \<longleftrightarrow> - 9223372036854775808 \<le> x \<and> x \<le> 9223372036854775807"
  "fits I128 x \<longleftrightarrow> - 170141183460469231731687303715884105728 \<le> x
     \<and> x \<le> 170141183460469231731687303715884105727"
  by (simp_all add: fits_def)

text \<open>\<open>T::try_from\<close> and \<open>checked_add\<close>, \<open>checked_sub\<close>, \<open>checked_mul\<close>, \<open>checked_neg\<close>.\<close>

definition try_into :: "width \<Rightarrow> int \<Rightarrow> int option" where
  "try_into w x = (if fits w x then Some x else None)"

definition checked_add :: "width \<Rightarrow> int \<Rightarrow> int \<Rightarrow> int option" where
  "checked_add w a b = try_into w (a + b)"

definition checked_sub :: "width \<Rightarrow> int \<Rightarrow> int \<Rightarrow> int option" where
  "checked_sub w a b = try_into w (a - b)"

definition checked_mul :: "width \<Rightarrow> int \<Rightarrow> int \<Rightarrow> int option" where
  "checked_mul w a b = try_into w (a * b)"

definition checked_neg :: "width \<Rightarrow> int \<Rightarrow> int option" where
  "checked_neg w a = try_into w (- a)"

lemma try_into_Some [res_simps]: "try_into w x = Some y \<longleftrightarrow> fits w x \<and> y = x"
  by (auto simp: try_into_def)

lemma try_into_None [res_simps]: "try_into w x = None \<longleftrightarrow> \<not> fits w x"
  by (auto simp: try_into_def)

lemma try_into_fits [simp]: "fits w x \<Longrightarrow> try_into w x = Some x"
  by (simp add: try_into_def)

lemmas checked_defs = checked_add_def checked_sub_def checked_mul_def checked_neg_def

text \<open>
  What the proofs need of a width: the values that fit form an interval around zero.
  A sum of non-negative terms, taken with a check at every term, then fails only if
  the whole sum does not fit.
\<close>

locale int_range =
  fixes ok :: "int \<Rightarrow> bool"
  assumes ok_zero: "ok 0"
    and ok_between: "ok a \<Longrightarrow> ok b \<Longrightarrow> a \<le> x \<Longrightarrow> x \<le> b \<Longrightarrow> ok x"
begin

fun checked_total :: "int list \<Rightarrow> int \<Rightarrow> int option" where
  "checked_total [] acc = Some acc"
| "checked_total (x # xs) acc = (if ok (acc + x) then checked_total xs (acc + x) else None)"

lemma checked_total_exact: "checked_total xs acc = Some t \<Longrightarrow> t = acc + sum_list xs"
  by (induction xs arbitrary: acc) (fastforce split: if_splits)+

lemma checked_total_ok: "checked_total xs acc = Some t \<Longrightarrow> ok acc \<Longrightarrow> ok t"
  by (induction xs arbitrary: acc) (auto split: if_splits)

lemma ok_prefix:
  assumes "ok t" and "0 \<le> x" and "x \<le> t"
  shows "ok x"
  using ok_between [OF ok_zero assms(1)] assms(2,3) by blast

lemma checked_total_complete:
  assumes "0 \<le> acc" and "\<forall>x \<in> set xs. 0 \<le> x" and "ok (acc + sum_list xs)"
  shows "checked_total xs acc = Some (acc + sum_list xs)"
  using assms
proof (induction xs arbitrary: acc)
  case (Cons x xs)
  have "0 \<le> sum_list xs"
    using Cons.prems(2) by (simp add: sum_list_nonneg)
  then have "ok (acc + x)"
    using Cons.prems by (intro ok_prefix [OF Cons.prems(3)]) auto
  moreover have "checked_total xs (acc + x) = Some (acc + x + sum_list xs)"
    using Cons.prems by (intro Cons.IH) (auto simp: add.assoc)
  ultimately show ?case by (simp add: add.assoc)
qed simp

end

interpretation wr: int_range "fits w" for w
  by unfold_locales (cases w; simp add: fits_def)+

section \<open>Lists\<close>

lemma distinct_map_filter: "distinct (map f xs) \<Longrightarrow> distinct (map f (filter P xs))"
  by (induction xs) auto

text \<open>The first index of an element, as \<open>Iterator::position\<close> returns it.\<close>

fun position_of :: "('a \<Rightarrow> bool) \<Rightarrow> 'a list \<Rightarrow> nat option" where
  "position_of P [] = None"
| "position_of P (x # xs) = (if P x then Some 0 else map_option Suc (position_of P xs))"

lemma position_of_None: "position_of P xs = None \<longleftrightarrow> (\<forall>x \<in> set xs. \<not> P x)"
  by (induction xs) auto

lemma position_of_Some:
  "position_of P xs = Some i \<Longrightarrow> i < length xs \<and> P (xs ! i) \<and> (\<forall>j < i. \<not> P (xs ! j))"
proof (induction xs arbitrary: i)
  case (Cons x xs)
  show ?case
  proof (cases "P x")
    case False
    with Cons.prems obtain k where "position_of P xs = Some k" and "i = Suc k" by auto
    with Cons.IH [of k] False show ?thesis by (auto simp: less_Suc_eq_0_disj)
  qed (use Cons.prems in auto)
qed simp

text \<open>\<open>Vec::remove\<close>.\<close>

definition remove_at :: "nat \<Rightarrow> 'a list \<Rightarrow> 'a list" where
  "remove_at i xs = take i xs @ drop (Suc i) xs"

text \<open>A slice \<open>xs.get(a..b)\<close>: \<open>None\<close> when the range is out of bounds.\<close>

definition slice :: "nat \<Rightarrow> nat \<Rightarrow> 'a list \<Rightarrow> 'a list option" where
  "slice a b xs = (if a \<le> b \<and> b \<le> length xs then Some (take (b - a) (drop a xs)) else None)"

lemma slice_Some:
  "slice a b xs = Some ys \<Longrightarrow> a \<le> b \<and> b \<le> length xs \<and> length ys = b - a \<and>
     take b xs = take a xs @ ys"
proof -
  assume s: "slice a b xs = Some ys"
  then have le: "a \<le> b" "b \<le> length xs" and ys: "ys = take (b - a) (drop a xs)"
    by (auto simp: slice_def split: if_splits)
  have "take b xs = take a xs @ take (b - a) (drop a xs)"
    using le by (metis le_add_diff_inverse take_add)
  with le ys show ?thesis by simp
qed

end
