(* ===== verification/Float64.thy ===== *)
theory Float64
  imports Prelude "HOL-Library.Log_Nat"
begin

text \<open>
  The one floating-point computation of the ledger, the drawdown ratio, and the rounding
  it needs: half-to-even rounding to an integer, and IEEE 754 binary64 rounding of a
  rational to 53 significant bits. A finite \<open>f64\<close> is the rational it denotes; the two
  zeros are one value. The exponent range is not bounded: the values rounded here are
  zero or lie between \<open>2 powi -64\<close> and \<open>2 powi 65\<close>, where binary64 is normal.
\<close>

section \<open>Rounding half to even\<close>

definition round_half_even :: "rat \<Rightarrow> int" where
  "round_half_even x =
     (let f = \<lfloor>x\<rfloor>; r = x - of_int f in
      if r < 1 / 2 then f else if 1 / 2 < r then f + 1 else if even f then f else f + 1)"

lemma round_half_even_bounds:
  "of_int (round_half_even x) - 1 / 2 \<le> x" "x \<le> of_int (round_half_even x) + 1 / 2"
  unfolding round_half_even_def Let_def
  by (cases "x - of_int \<lfloor>x\<rfloor> < 1 / 2"; cases "1 / 2 < x - of_int \<lfloor>x\<rfloor>"; simp;
      use of_int_floor_le [of x] floor_correct [of x] in linarith)+

lemma round_half_even_tie:
  assumes "\<bar>of_int (round_half_even x) - x\<bar> = 1 / 2"
  shows "even (round_half_even x)"
proof -
  define r where "r = x - of_int \<lfloor>x\<rfloor>"
  have r: "0 \<le> r" "r < 1" and x: "x = of_int \<lfloor>x\<rfloor> + r"
    using floor_correct [of x] by (simp_all add: r_def)
  have def: "round_half_even x = (if r < 1 / 2 then \<lfloor>x\<rfloor> else if 1 / 2 < r then \<lfloor>x\<rfloor> + 1
      else if even \<lfloor>x\<rfloor> then \<lfloor>x\<rfloor> else \<lfloor>x\<rfloor> + 1)"
    by (simp add: round_half_even_def r_def)
  have "\<not> r < 1 / 2"
  proof
    assume "r < 1 / 2"
    then have "round_half_even x = \<lfloor>x\<rfloor>" by (simp add: def)
    with assms r x \<open>r < 1 / 2\<close> show False by linarith
  qed
  moreover have "\<not> 1 / 2 < r"
  proof
    assume "1 / 2 < r"
    then have "round_half_even x = \<lfloor>x\<rfloor> + 1" by (simp add: def)
    then have "of_int (round_half_even x) = (of_int \<lfloor>x\<rfloor> + 1 :: rat)" by simp
    with assms r x \<open>1 / 2 < r\<close> show False by linarith
  qed
  ultimately show ?thesis by (simp add: def)
qed

lemma round_half_even_of_int [simp]: "round_half_even (of_int n) = n"
  by (simp add: round_half_even_def)

lemma round_half_even_numeral [simp]:
  "round_half_even 0 = 0" "round_half_even 1 = 1" "round_half_even (numeral k) = numeral k"
  "round_half_even (- numeral k) = - numeral k" "round_half_even (- 1) = - 1"
  using round_half_even_of_int [of 0] round_half_even_of_int [of 1]
    round_half_even_of_int [of "numeral k"] round_half_even_of_int [of "- numeral k"]
    round_half_even_of_int [of "- 1"] by simp_all

lemma round_half_even_mono: "x \<le> y \<Longrightarrow> round_half_even x \<le> round_half_even y"
proof -
  assume le: "x \<le> y"
  show ?thesis
  proof (cases "\<lfloor>x\<rfloor> = \<lfloor>y\<rfloor>")
    case True
    with le show ?thesis by (auto simp: round_half_even_def Let_def)
  next
    case False
    then have "\<lfloor>x\<rfloor> + 1 \<le> \<lfloor>y\<rfloor>"
      using floor_mono [OF le] by linarith
    then show ?thesis by (auto simp: round_half_even_def Let_def)
  qed
qed

lemma round_half_even_minus: "round_half_even (- x) = - round_half_even x"
proof (cases "x = of_int \<lfloor>x\<rfloor>")
  case True
  then show ?thesis by (metis of_int_minus round_half_even_of_int)
next
  case False
  then have "of_int \<lfloor>x\<rfloor> < x" using of_int_floor_le [of x] by linarith
  then have fl: "\<lfloor>- x\<rfloor> = - \<lfloor>x\<rfloor> - 1"
    using floor_correct [of x] by (intro floor_unique) auto
  show ?thesis by (auto simp: round_half_even_def Let_def fl)
qed

text \<open>Evaluating a quotient of numerals.\<close>

lemma floor_numeral_quotient [simp]:
  "\<lfloor>(numeral a :: rat) / numeral b\<rfloor> = numeral a div numeral b"
  "\<lfloor>(1 :: rat) / numeral b\<rfloor> = 1 div numeral b"
  "\<lfloor>- (numeral a :: rat) / numeral b\<rfloor> = - numeral a div numeral b"
  using floor_divide_of_int_eq [where 'a = rat, of "numeral a" "numeral b"]
    floor_divide_of_int_eq [where 'a = rat, of 1 "numeral b"]
    floor_divide_of_int_eq [where 'a = rat, of "- numeral a" "numeral b"]
  by simp_all

section \<open>Binary64\<close>

definition f64_exp :: "rat \<Rightarrow> int" where
  "f64_exp x =
     (let (n, d) = quotient_of \<bar>x\<bar>;
          k = int (floorlog 2 (nat n)) - int (floorlog 2 (nat d))
      in if 2 powi k \<le> \<bar>x\<bar> then k else k - 1)"

text \<open>The exponent counts binary digits; the evaluator halves an integer to count them.\<close>

function bit_count :: "int \<Rightarrow> int" where
  "bit_count n = (if n \<le> 0 then 0 else 1 + bit_count (n div 2))"
  by pat_completeness auto

termination by (relation "measure nat") auto

declare bit_count.simps [simp del]

lemma bit_count_floorlog: "bit_count n = int (floorlog 2 (nat n))"
proof (induction n rule: bit_count.induct)
  case (1 n)
  have "nat n div 2 = nat (n div 2)" if "0 < n" using that by (simp add: nat_div_distrib)
  with 1 show ?case
    by (subst bit_count.simps, subst compute_floorlog) (auto simp: not_le)
qed

lemma f64_exp_bits [code]:
  "f64_exp x =
     (let (n, d) = quotient_of \<bar>x\<bar>; k = bit_count n - bit_count d
      in if 2 powi k \<le> \<bar>x\<bar> then k else k - 1)"
  by (simp add: f64_exp_def bit_count_floorlog)
definition f64_rnd :: "rat \<Rightarrow> rat" where
  "f64_rnd x =
     (if x = 0 then 0
      else let u = 2 powi (f64_exp x - 52) in of_int (round_half_even (x / u)) * u)"

text \<open>\<open>as f64\<close> of an integer, \<open>-\<close> and \<open>/\<close> on \<open>f64\<close>.\<close>

definition f64_of_int :: "int \<Rightarrow> rat" where
  "f64_of_int n = f64_rnd (of_int n)"

definition f64_sub :: "rat \<Rightarrow> rat \<Rightarrow> rat" where
  "f64_sub a b = f64_rnd (a - b)"

definition f64_div :: "rat \<Rightarrow> rat \<Rightarrow> rat" where
  "f64_div a b = f64_rnd (a / b)"

lemma floorlog_2_bounds: "0 < n \<Longrightarrow> 2 ^ (floorlog 2 n - 1) \<le> n \<and> n < 2 ^ floorlog 2 n \<and> 0 < floorlog 2 n"
  using floorlog_bounds [of n 2] by (auto simp: floorlog_def)

lemma of_int_pow2_le: "0 < n \<Longrightarrow> 2 ^ k \<le> nat n \<Longrightarrow> (2::rat) ^ k \<le> of_int n"
proof -
  assume "0 < n" "2 ^ k \<le> nat n"
  then have "(of_nat (2 ^ k) :: rat) \<le> of_nat (nat n)" by (simp only: of_nat_le_iff)
  with \<open>0 < n\<close> show ?thesis by simp
qed

lemma of_int_pow2_less: "0 < n \<Longrightarrow> nat n < 2 ^ k \<Longrightarrow> (of_int n :: rat) < 2 ^ k"
proof -
  assume "0 < n" "nat n < 2 ^ k"
  then have "(of_nat (nat n) :: rat) < of_nat (2 ^ k)" by (simp only: of_nat_less_iff)
  with \<open>0 < n\<close> show ?thesis by simp
qed

lemma f64_exp_bounds:
  assumes "x \<noteq> 0"
  shows "2 powi f64_exp x \<le> \<bar>x\<bar>" and "\<bar>x\<bar> < 2 powi (f64_exp x + 1)"
proof -
  obtain n d where q: "quotient_of \<bar>x\<bar> = (n, d)" by fastforce
  then have d0: "0 < d" and x: "\<bar>x\<bar> = of_int n / of_int d"
    by (auto simp: quotient_of_denom_pos quotient_of_div)
  with assms have "0 < of_int n / (of_int d :: rat)" by simp
  with d0 have n0: "0 < n" by (simp add: zero_less_divide_iff)
  define a where "a = floorlog 2 (nat n)"
  define b where "b = floorlog 2 (nat d)"
  have A: "2 ^ (a - 1) \<le> nat n" "nat n < 2 ^ a" "0 < a"
    and B: "2 ^ (b - 1) \<le> nat d" "nat d < 2 ^ b" "0 < b"
    using floorlog_2_bounds [of "nat n"] floorlog_2_bounds [of "nat d"] n0 d0
    by (auto simp: a_def b_def)
  have n1: "(2::rat) ^ (a - 1) \<le> of_int n" and n2: "(of_int n :: rat) < 2 ^ a"
    using A n0 by (simp_all add: of_int_pow2_le of_int_pow2_less)
  have d1: "(2::rat) ^ (b - 1) \<le> of_int d" and d2: "(of_int d :: rat) < 2 ^ b"
    using B d0 by (simp_all add: of_int_pow2_le of_int_pow2_less)
  have ua: "(2::rat) ^ a = 2 powi (int a)" "(2::rat) ^ (a - 1) = 2 powi (int a - 1)"
    and ub: "(2::rat) ^ b = 2 powi (int b)" "(2::rat) ^ (b - 1) = 2 powi (int b - 1)"
    using A(3) B(3) by (simp_all add: power_int_of_nat [symmetric] of_nat_diff del: power_int_of_nat)
  have hi: "\<bar>x\<bar> < 2 powi (int a - int b + 1)"
  proof -
    have "of_int n / of_int d < 2 ^ a / (2::rat) ^ (b - 1)"
      using n2 d1 n0 by (intro frac_less) auto
    also have "\<dots> = 2 powi (int a - int b + 1)"
      unfolding ua ub by (subst power_int_diff [symmetric]) (auto simp: algebra_simps)
    finally show ?thesis by (simp add: x)
  qed
  have lo: "2 powi (int a - int b - 1) \<le> \<bar>x\<bar>"
  proof -
    have "(2::rat) powi (int a - int b - 1) = 2 ^ (a - 1) / 2 ^ b"
      unfolding ua ub by (subst power_int_diff [symmetric]) (auto simp: algebra_simps)
    also have "\<dots> \<le> of_int n / of_int d"
      using n1 d2 d0 n0 by (intro frac_le) auto
    finally show ?thesis by (simp add: x)
  qed
  have e: "f64_exp x = (if 2 powi (int a - int b) \<le> \<bar>x\<bar> then int a - int b else int a - int b - 1)"
    by (simp add: f64_exp_def q a_def b_def)
  show "2 powi f64_exp x \<le> \<bar>x\<bar>" using lo by (simp add: e)
  show "\<bar>x\<bar> < 2 powi (f64_exp x + 1)" using hi by (auto simp: e not_le)
qed

lemma f64_exp_mono:
  assumes "0 < x" and "x \<le> y"
  shows "f64_exp x \<le> f64_exp y"
proof (rule ccontr)
  assume "\<not> ?thesis"
  then have "f64_exp y + 1 \<le> f64_exp x" by simp
  then have "(2::rat) powi (f64_exp y + 1) \<le> 2 powi f64_exp x"
    by (intro power_int_increasing) auto
  moreover have "2 powi f64_exp x \<le> x" "y < 2 powi (f64_exp y + 1)"
    using assms f64_exp_bounds [of x] f64_exp_bounds [of y] by auto
  ultimately show False using assms by linarith
qed

lemma f64_rnd_range:
  assumes "0 < x"
  shows "2 powi f64_exp x \<le> f64_rnd x" and "f64_rnd x \<le> 2 powi (f64_exp x + 1)"
proof -
  define e where "e = f64_exp x"
  define u :: rat where "u = 2 powi (e - 52)"
  have u: "0 < u" by (simp add: u_def)
  have r: "f64_rnd x = of_int (round_half_even (x / u)) * u"
    using assms by (simp add: f64_rnd_def e_def u_def Let_def)
  have pow: "2 powi e = 2 ^ 52 * u" "2 powi (e + 1) = 2 ^ 53 * u"
    by (simp_all add: u_def power_int_add power_int_diff)
  have "2 powi e \<le> x" "x \<le> 2 powi (e + 1)"
    using assms f64_exp_bounds [of x] by (auto simp: e_def)
  then have b: "of_int (2 ^ 52) \<le> x / u" "x / u \<le> of_int (2 ^ 53)"
    using u unfolding pow by (simp_all add: pos_le_divide_eq pos_divide_le_eq)
  have "2 ^ 52 \<le> round_half_even (x / u)" "round_half_even (x / u) \<le> 2 ^ 53"
    using b [THEN round_half_even_mono] unfolding round_half_even_of_int by auto
  then have "of_int (2 ^ 52) \<le> (of_int (round_half_even (x / u)) :: rat)"
    "(of_int (round_half_even (x / u)) :: rat) \<le> of_int (2 ^ 53)"
    by (simp_all only: of_int_le_iff)
  then show "2 powi f64_exp x \<le> f64_rnd x" "f64_rnd x \<le> 2 powi (f64_exp x + 1)"
    using u unfolding e_def [symmetric] pow r by (simp_all add: mult_right_mono)
qed

lemma f64_rnd_pos_mono:
  assumes "0 < x" and "x \<le> y"
  shows "f64_rnd x \<le> f64_rnd y"
proof (cases "f64_exp x = f64_exp y")
  case True
  have "x / 2 powi (f64_exp y - 52) \<le> y / 2 powi (f64_exp y - 52)"
    using assms by (intro divide_right_mono) auto
  then have "round_half_even (x / 2 powi (f64_exp y - 52)) \<le> round_half_even (y / 2 powi (f64_exp y - 52))"
    by (rule round_half_even_mono)
  then show ?thesis
    using assms True by (simp add: f64_rnd_def Let_def mult_right_mono)
next
  case False
  then have "f64_exp x + 1 \<le> f64_exp y"
    using f64_exp_mono [OF assms] by simp
  then have "(2::rat) powi (f64_exp x + 1) \<le> 2 powi f64_exp y"
    by (intro power_int_increasing) auto
  with f64_rnd_range [of x] f64_rnd_range [of y] assms show ?thesis by linarith
qed

lemma f64_rnd_0 [simp]: "f64_rnd 0 = 0"
  by (simp add: f64_rnd_def)

lemma f64_rnd_minus: "f64_rnd (- x) = - f64_rnd x"
proof -
  have "f64_exp (- x) = f64_exp x" by (simp add: f64_exp_def)
  then show ?thesis by (simp add: f64_rnd_def Let_def round_half_even_minus)
qed

lemma f64_rnd_pos: "0 < x \<Longrightarrow> 0 < f64_rnd x"
  using f64_rnd_range(1) [of x] zero_less_power_int [of "2 :: rat" "f64_exp x"] by linarith

lemma f64_rnd_nonneg: "0 \<le> x \<Longrightarrow> 0 \<le> f64_rnd x"
  using f64_rnd_pos [of x] by (cases "x = 0") auto

lemma f64_rnd_nonpos: "x \<le> 0 \<Longrightarrow> f64_rnd x \<le> 0"
  using f64_rnd_nonneg [of "- x"] by (simp add: f64_rnd_minus)

lemma f64_rnd_mono:
  assumes "x \<le> y"
  shows "f64_rnd x \<le> f64_rnd y"
proof -
  consider "0 < x" | "x \<le> 0" "0 \<le> y" | "y < 0" by linarith
  then show ?thesis
  proof cases
    case 1
    with assms show ?thesis by (intro f64_rnd_pos_mono)
  next
    case 2
    then show ?thesis using f64_rnd_nonpos [of x] f64_rnd_nonneg [of y] by linarith
  next
    case 3
    then show ?thesis
      using f64_rnd_pos_mono [of "- y" "- x"] assms by (simp add: f64_rnd_minus)
  qed
qed

end
