(* ===== verification/Backtest_Error.thy ===== *)
theory Backtest_Error
  imports Prelude
begin

text \<open>
  The crate's error type (\<open>src/error.rs\<close>). The text a variant carries is a \<open>format!\<close> of
  values at one place of the source; the message types have one constructor for each such
  place, with the values it prints, so that an error identifies the branch that raised it.
\<close>

datatype config_message =
    MsgLimitExceeds string int int
  | MsgDepthLevels int int | MsgDecayRange rat | MsgFlatContracts
  | MsgInitialCapitalZero | MsgCapTicksZero | MsgSlippageFraction rat
  | MsgOutputDirEmpty | MsgOutputDirParent
  | MsgCapitalRange | MsgCapitalNotPositive
  | MsgShockKind nat | MsgSeedReplicated | MsgTooManyRuns int
  | MsgRunSource | MsgBatchSource | MsgNeedsMaterialisation

datatype shown = ShownInt int | ShownText string

datatype (plugins del: quickcheck_narrowing quickcheck_exhaustive quickcheck_random quickcheck_full_exhaustive lifting transfer)
  file_message =
    MsgShaMismatch string string string
  | MsgNotRegular string | MsgNotDirectory string | MsgNonFileEntry string | MsgEntryNotRegular string
  | MsgNegativeMoney string int | MsgNegativeCount string int
  | MsgNullCell string nat | MsgStyle string
  | MsgInconsistent string int shown shown
  | MsgStepOrder int int | MsgGrouping
  | MsgSchemaWidth nat nat | MsgSchemaMissing string | MsgSchemaType string string string bool
  | MsgBatchColumn string | MsgColumnType string
  | MsgHeaderMissing string | MsgRowMissing string | MsgNoRows int
  | MsgBadInt string string | MsgBadCount string string | MsgBadCents string string
  | MsgBadNumber string string

datatype (plugins del: quickcheck_narrowing quickcheck_exhaustive quickcheck_random quickcheck_full_exhaustive lifting transfer)
  chain_message =
    MsgNotPositive string int | MsgDollars int | MsgMixedExpiries int int | MsgIvNegative rat
  | MsgChainIncomplete nat nat
  | MsgTimestamp string | MsgTimestampRange string | MsgContractExpiry string
  | MsgMissingIv int | MsgMissingBid string int | MsgMissingAsk string int

datatype (plugins del: quickcheck_narrowing quickcheck_exhaustive quickcheck_random quickcheck_full_exhaustive lifting transfer)
  scenario_message =
    MsgWalkParameter rat | MsgWalkNumber rat | MsgShock rat | MsgNegativeFactor rat
  | MsgShocked string | MsgShockedNumber string

datatype (plugins del: quickcheck_narrowing quickcheck_exhaustive quickcheck_random quickcheck_full_exhaustive lifting transfer)
  conversion_message =
    MsgNegativeDollars rat | MsgDollarsOutOfRange rat
  | MsgTickSizeZero | MsgMultiplierZero
  | MsgUnderlyingGrammar string
  | MsgExpirationRange int | MsgExpirationUnresolved rat
  | MsgIdSegments string | MsgIdVersion string string | MsgIdExpiration string string
  | MsgIdStrike string string | MsgIdStyle string string
  | MsgTapeEmpty | MsgTapeStart int | MsgTapeStep int int
  | MsgZeroStrike | MsgDuplicateContract int
  | MsgNonFinite string | MsgNotDecimal string rat
  | MsgFile file_message | MsgChain chain_message | MsgScenario scenario_message

datatype data_message =
    MsgStepRegressed int int int
  | MsgDecode string string | MsgNegativeOffset | MsgNegativeSize | MsgContained string string
  | MsgNoTape | MsgNoFirstSnapshot | MsgFeedExhausted | MsgReplayed string

datatype (plugins del: quickcheck_narrowing quickcheck_exhaustive quickcheck_random quickcheck_full_exhaustive lifting transfer)
  strategy_message =
    MsgGetPositions string | MsgLegCount rat | MsgReprice string string | MsgWrongSpec string string
  | MsgRateNegative string rat | MsgSpecQuantity string int | MsgConstruction string string
  | MsgEmptyLegSet | MsgDaysNotPositive rat
  | MsgNotOwned int | MsgNoLegQuote int | MsgNoLegExpiry int
  | MsgLegSetUnderlying string string | MsgNoLegSetQuote int

datatype (plugins del: quickcheck_narrowing quickcheck_exhaustive quickcheck_random quickcheck_full_exhaustive lifting transfer)
  realistic_message =
    MsgStrategyIds int | MsgMakerIds | MsgSeedTick | MsgRefreshTick | MsgSubmitTick | MsgScaleTick
  | MsgDesync | MsgMarketableNotQuoted int int | MsgSelfCross
  | MsgLiveMissing | MsgLiveUnderflow | MsgIdsUnderCover | MsgBufferShrank

datatype (plugins del: quickcheck_narrowing quickcheck_exhaustive quickcheck_random quickcheck_full_exhaustive lifting transfer)
  execution_message =
    MsgRestingMarketOrder
  | MsgExtendNotTracked int | MsgCloseNotTracked int
  | MsgBundleCloseNotOpen int | MsgBundleTerminalNotOpen int | MsgSnapshotNoOpen int
  | MsgNotQuoted int int | MsgSpreadFractionRange rat
  | MsgOnEndNonClose
  | MsgExtensionNotOpen int | MsgExtensionLost int
  | MsgCarryNotPending int | MsgCarryEmpty | MsgCarryExceeds int
  | MsgZeroQuantityAverage
  | MsgCancelNotPending int | MsgCarryNeedsGroups | MsgNotCorrelated int int
  | MsgCarryPastFills | MsgSubmitIdsShort | MsgZeroFill nat | MsgPastFills
  | MsgEmptyRun | MsgUnconsumed
  | MsgCloseNotOpen int | MsgLegVanished | MsgCloseExceeds int int int
  | MsgOfStrategy strategy_message | MsgOfRealistic realistic_message | MsgWorkerPanicked

datatype bundle_message =
    MsgAttributionSlice nat nat int
  | MsgBatchPreimage string | MsgBatchHashShort | MsgNoRunId

text \<open>
  The payloads of the variants that wrap an error of another library: the place that wraps it,
  with the text the library gave.
\<close>

datatype foreign_message = MsgForeign string string

datatype backtest_error =
    InvalidQuantity int
  | CrossedQuote int int
  | PriceNotTickAligned int int
  | DataOutOfOrder int int int
  | TapeTooLarge string int int
  | Config config_message
  | DataIo foreign_message
  | Data data_message
  | Conversion conversion_message
  | Session foreign_message
  | Execution execution_message
  | OrderBook foreign_message
  | Strategy strategy_message
  | Bundle bundle_message
  | ArithmeticOverflow

type_synonym 'a res = "backtest_error + 'a"

text \<open>A checked operation followed by \<open>.ok_or(BacktestError::ArithmeticOverflow)?\<close>.\<close>

definition checked :: "int option \<Rightarrow> int res" where
  "checked x = ok_or x ArithmeticOverflow"

lemma checked_Inr [res_simps]: "checked x = Inr y \<longleftrightarrow> x = Some y"
  by (simp add: checked_def res_simps)

lemma checked_Inl [res_simps]: "checked x = Inl e \<longleftrightarrow> x = None \<and> e = ArithmeticOverflow"
  by (simp add: checked_def res_simps)

lemma checked_simps [simp]: "checked (Some x) = Inr x" "checked None = Inl ArithmeticOverflow"
  by (simp_all add: checked_def)

end
