(* ===== verification/External.thy ===== *)
theory External
  imports Float64 Backtest_Error
begin

text \<open>
  What the engine takes from crates that are not part of the repository, as one record of
  operations that the definitions using them take as an argument: the fixed-point
  \<open>Decimal\<close> of \<open>rust_decimal\<close>, the \<open>DateTime\<close> of \<open>chrono\<close> and the \<open>Positive\<close>
  wrapper of \<open>optionstratlib\<close>. A \<open>Decimal\<close> is the rational number it denotes, an instant
  the nanoseconds since the Unix epoch; a negative zero and the scale of a \<open>Decimal\<close> are
  not distinguished. The operations themselves are arbitrary: what the documentation
  promises about them is a predicate, used as a named hypothesis where a property needs it.
\<close>

record ext =
  dec_add :: "rat \<Rightarrow> rat \<Rightarrow> rat option"
  dec_sub :: "rat \<Rightarrow> rat \<Rightarrow> rat option"
  dec_mul :: "rat \<Rightarrow> rat \<Rightarrow> rat option"
  dec_div :: "rat \<Rightarrow> rat \<Rightarrow> rat option"
  dec_round0 :: "rat \<Rightarrow> rat" \<comment> \<open>\<open>round_dp_with_strategy(0, MidpointNearestEven)\<close>\<close>
  dec_to :: "width \<Rightarrow> rat \<Rightarrow> int option" \<comment> \<open>\<open>to_u32\<close>, \<open>to_u64\<close>, \<open>to_i64\<close>, \<open>to_i128\<close>\<close>
  dec_sign_negative :: "rat \<Rightarrow> bool"
  dec_from_f64 :: "rat \<Rightarrow> rat option" \<comment> \<open>\<open>from_f64_retain\<close>, of a finite double\<close>
  positive_new :: "rat \<Rightarrow> rat option" \<comment> \<open>\<open>Positive::new_decimal\<close>\<close>
  dt_nanos_opt :: "int \<Rightarrow> int option" \<comment> \<open>\<open>DateTime::timestamp_nanos_opt\<close>\<close>
  dt_from_nanos :: "int \<Rightarrow> int" \<comment> \<open>\<open>DateTime::from_timestamp_nanos\<close>\<close>

text \<open>A double read from a file or a service: a finite one is the rational it denotes.\<close>

datatype double = Finite rat | NotFinite

section \<open>Documented behaviour\<close>

text \<open>Rounding to zero decimals, midpoints to the even neighbour.\<close>

definition rounds_half_even :: "ext \<Rightarrow> bool" where
  "rounds_half_even X \<longleftrightarrow> (\<forall>d. dec_round0 X d = of_int (round_half_even d))"

text \<open>Converting a whole number succeeds exactly when it fits the target type.\<close>

definition converts_integers :: "ext \<Rightarrow> bool" where
  "converts_integers X \<longleftrightarrow> (\<forall>w n. dec_to X w (of_int n) = try_into w n)"

text \<open>
  The sign of a \<open>Decimal\<close>; a product by one hundred is exact where it fits the 96-bit
  mantissa.
\<close>

definition signs :: "ext \<Rightarrow> bool" where
  "signs X \<longleftrightarrow> (\<forall>d. dec_sign_negative X d \<longleftrightarrow> d < 0)"

definition scales_cents :: "ext \<Rightarrow> bool" where
  "scales_cents X \<longleftrightarrow> (\<forall>n. fits U64 n \<longrightarrow> dec_mul X (of_int n / 100) 100 = Some (of_int n))"

text \<open>An instant built from \<open>i64\<close> nanoseconds reads back as those nanoseconds.\<close>

definition instants_round_trip :: "ext \<Rightarrow> bool" where
  "instants_round_trip X \<longleftrightarrow> (\<forall>n. fits I64 n \<longrightarrow> dt_nanos_opt X (dt_from_nanos X n) = Some n)"

definition nanos_in_range :: "ext \<Rightarrow> bool" where
  "nanos_in_range X \<longleftrightarrow> (\<forall>t n. dt_nanos_opt X t = Some n \<longrightarrow> fits I64 n)"

text \<open>An instant is determined by its nanoseconds, when they fit \<open>i64\<close>.\<close>

definition instants_identified :: "ext \<Rightarrow> bool" where
  "instants_identified X \<longleftrightarrow> (\<forall>t n. dt_nanos_opt X t = Some n \<longrightarrow> dt_from_nanos X n = t)"

text \<open>A decimal converts only to an integer of the width.\<close>

definition converts_in_range :: "ext \<Rightarrow> bool" where
  "converts_in_range X \<longleftrightarrow> (\<forall>w d n. dec_to X w d = Some n \<longrightarrow> fits w n)"

section \<open>An instance\<close>

text \<open>
  One concrete choice of the operations, on which properties with a hypothesis about them
  are shown to be applicable: exact rational arithmetic with the magnitude bound of the
  96-bit mantissa.
\<close>

definition dec_bound :: "rat \<Rightarrow> rat option" where
  "dec_bound d = (if \<bar>d\<bar> < 2 ^ 96 then Some d else None)"

definition exact_ext :: ext where
  "exact_ext = \<lparr>
     dec_add = (\<lambda>a b. dec_bound (a + b)),
     dec_sub = (\<lambda>a b. dec_bound (a - b)),
     dec_mul = (\<lambda>a b. dec_bound (a * b)),
     dec_div = (\<lambda>a b. if b = 0 then None else dec_bound (a / b)),
     dec_round0 = (\<lambda>d. of_int (round_half_even d)),
     dec_to = (\<lambda>w d. try_into w \<lfloor>d\<rfloor>),
     dec_sign_negative = (\<lambda>d. d < 0),
     dec_from_f64 = dec_bound,
     positive_new = (\<lambda>d. if d < 0 then None else Some d),
     dt_nanos_opt = try_into I64,
     dt_from_nanos = (\<lambda>n. n) \<rparr>"

lemma exact_ext_simps [simp]:
  "dec_add exact_ext a b = dec_bound (a + b)"
  "dec_sub exact_ext a b = dec_bound (a - b)"
  "dec_mul exact_ext a b = dec_bound (a * b)"
  "dec_div exact_ext a b = (if b = 0 then None else dec_bound (a / b))"
  "dec_round0 exact_ext d = of_int (round_half_even d)"
  "dec_to exact_ext w d = try_into w \<lfloor>d\<rfloor>"
  "dec_sign_negative exact_ext d \<longleftrightarrow> d < 0"
  "dec_from_f64 exact_ext d = dec_bound d"
  "positive_new exact_ext d = (if d < 0 then None else Some d)"
  "dt_nanos_opt exact_ext n = try_into I64 n"
  "dt_from_nanos exact_ext n = n"
  by (simp_all add: exact_ext_def)

lemma exact_ext_documented:
  "rounds_half_even exact_ext" "converts_integers exact_ext" "signs exact_ext"
  "scales_cents exact_ext" "instants_round_trip exact_ext" "nanos_in_range exact_ext"
  "instants_identified exact_ext" "converts_in_range exact_ext"
proof -
  show "scales_cents exact_ext"
    unfolding scales_cents_def
  proof (intro allI impI)
    fix n assume "fits U64 n"
    then have "(of_int \<bar>n\<bar> :: rat) < of_int (2 ^ 96)"
      by (subst of_int_less_iff) (auto simp: width_simps)
    then show "dec_mul exact_ext (of_int n / 100) 100 = Some (of_int n)"
      by (simp add: dec_bound_def)
  qed
qed (auto simp: rounds_half_even_def converts_integers_def signs_def
       instants_round_trip_def nanos_in_range_def instants_identified_def converts_in_range_def res_simps)

end
