(* ===== verification/Money.thy ===== *)
theory Money
  imports External
begin

text \<open>
  \<open>src/domain/money.rs\<close>: money as integer cents, contract quantities, and the two
  conversions between cents and decimal dollars. \<open>Cents\<close> is an \<open>i64\<close>, \<open>PriceCents\<close> a
  \<open>u64\<close>, \<open>Quantity\<close> a positive \<open>u32\<close>, \<open>Ticks\<close> a \<open>u128\<close>; the predicates \<open>is_cents\<close>,
  \<open>is_price\<close> and \<open>is_quantity\<close> are the ranges those types guarantee.
\<close>

type_synonym cents = int
type_synonym price_cents = int
type_synonym quantity = int
type_synonym ticks = int

definition is_cents :: "cents \<Rightarrow> bool" where
  "is_cents c \<longleftrightarrow> fits I64 c"

definition is_price :: "price_cents \<Rightarrow> bool" where
  "is_price p \<longleftrightarrow> fits U64 p"

definition is_quantity :: "quantity \<Rightarrow> bool" where
  "is_quantity q \<longleftrightarrow> fits U32 q \<and> q \<noteq> 0"

lemma is_quantity_pos: "is_quantity q \<Longrightarrow> 1 \<le> q \<and> q \<le> 4294967295"
  by (auto simp: is_quantity_def width_simps)

definition cents_checked_add :: "cents \<Rightarrow> cents \<Rightarrow> cents res" where
  "cents_checked_add a b = checked (checked_add I64 a b)"

definition cents_checked_sub :: "cents \<Rightarrow> cents \<Rightarrow> cents res" where
  "cents_checked_sub a b = checked (checked_sub I64 a b)"

definition cents_checked_mul_qty :: "cents \<Rightarrow> quantity \<Rightarrow> cents res" where
  "cents_checked_mul_qty a q = checked (checked_mul I64 a q)"

definition from_decimal_dollars :: "ext \<Rightarrow> rat \<Rightarrow> price_cents res" where
  "from_decimal_dollars X d =
     (if dec_sign_negative X d \<and> d \<noteq> 0 then Inl (Conversion (MsgNegativeDollars d))
      else rbind (ok_or (dec_mul X d 100) ArithmeticOverflow) (\<lambda>m.
           ok_or (dec_to X U64 (dec_round0 X m)) (Conversion (MsgDollarsOutOfRange d))))"

text \<open>\<open>Decimal::from_i128_with_scale(cents, 2)\<close> denotes one hundredth of the cents.\<close>

definition to_decimal_dollars :: "price_cents \<Rightarrow> rat" where
  "to_decimal_dollars p = of_int p / 100"

definition quantity_new :: "int \<Rightarrow> quantity res" where
  "quantity_new q = (if q = 0 then Inl (InvalidQuantity q) else Inr q)"

section \<open>Lemmas\<close>

lemma cents_checked_add_Inr [res_simps]:
  "cents_checked_add a b = Inr c \<longleftrightarrow> fits I64 (a + b) \<and> c = a + b"
  by (auto simp: cents_checked_add_def checked_defs res_simps)

lemma cents_checked_sub_Inr [res_simps]:
  "cents_checked_sub a b = Inr c \<longleftrightarrow> fits I64 (a - b) \<and> c = a - b"
  by (auto simp: cents_checked_sub_def checked_defs res_simps)

lemma cents_checked_mul_qty_Inr [res_simps]:
  "cents_checked_mul_qty a q = Inr c \<longleftrightarrow> fits I64 (a * q) \<and> c = a * q"
  by (auto simp: cents_checked_mul_qty_def checked_defs res_simps)

lemma quantity_new_Inr [res_simps]: "quantity_new q = Inr r \<longleftrightarrow> q \<noteq> 0 \<and> r = q"
  by (auto simp: quantity_new_def)

lemma quantity_new_Inl [res_simps]: "quantity_new q = Inl e \<longleftrightarrow> q = 0 \<and> e = InvalidQuantity q"
  by (auto simp: quantity_new_def)

lemma quantity_new_is_quantity: "fits U32 q \<Longrightarrow> quantity_new q = Inr r \<Longrightarrow> is_quantity r"
  by (auto simp: res_simps is_quantity_def)

section \<open>Properties\<close>

text \<open>
  C32. The conversion from dollars to cents is the inverse of the one from cents to dollars
  on every price: with the documented behaviour of the decimal type (exact product by one
  hundred, half-to-even rounding, integer conversion) no cent is lost or gained.
\<close>

theorem dollars_round_trip:
  assumes "signs X" "scales_cents X" "rounds_half_even X" "converts_integers X"
    and "is_price p"
  shows "from_decimal_dollars X (to_decimal_dollars p) = Inr p"
proof -
  have "0 \<le> p" using assms(5) by (simp add: is_price_def width_simps)
  then have "\<not> dec_sign_negative X (to_decimal_dollars p)"
    using assms(1) by (simp add: signs_def to_decimal_dollars_def)
  moreover have "dec_mul X (to_decimal_dollars p) 100 = Some (of_int p)"
    using assms(2,5) by (simp add: scales_cents_def to_decimal_dollars_def is_price_def)
  moreover have "dec_to X U64 (dec_round0 X (of_int p)) = Some p"
    using assms(3-5)
    by (simp add: rounds_half_even_def converts_integers_def is_price_def del: of_int_of_nat_eq)
  ultimately show ?thesis by (simp add: from_decimal_dollars_def)
qed

theorem dollars_round_trip_witness:
  "from_decimal_dollars exact_ext (to_decimal_dollars 510000) = Inr 510000"
  by (rule dollars_round_trip) (simp_all add: exact_ext_documented is_price_def width_simps)

text \<open>
  C33. Rounding to cents is to the nearest cent, ties to the even one, and never produces a
  negative or out-of-range price: whatever amount of dollars is converted, the price is
  within half a cent of it, and an exact half cent goes to an even price.
\<close>

theorem from_decimal_dollars_nearest:
  assumes "rounds_half_even X" "converts_integers X"
    and m: "dec_mul X d 100 = Some m" "m = 100 * d"
    and "from_decimal_dollars X d = Inr p"
  shows "is_price p \<and> \<bar>of_int p - 100 * d\<bar> \<le> 1 / 2 \<and>
    (\<bar>of_int p - 100 * d\<bar> = 1 / 2 \<longrightarrow> even p)"
proof -
  have "dec_to X U64 (dec_round0 X m) = Some p"
    using assms by (auto simp: from_decimal_dollars_def res_simps split: if_splits)
  then have p: "p = round_half_even (100 * d)" "is_price p"
    using assms by (auto simp: rounds_half_even_def converts_integers_def is_price_def res_simps)
  have "\<bar>of_int p - 100 * d\<bar> \<le> 1 / 2"
    using round_half_even_bounds [of "100 * d"] unfolding p(1) abs_le_iff by linarith
  moreover have "\<bar>of_int p - 100 * d\<bar> = 1 / 2 \<Longrightarrow> even p"
    unfolding p(1) by (rule round_half_even_tie)
  ultimately show ?thesis using p(2) by blast
qed

theorem from_decimal_dollars_nearest_witness:
  "from_decimal_dollars exact_ext (1 / 40) = Inr 2 \<and> \<bar>of_int 2 - 100 * (1 / 40)\<bar> \<le> (1 / 2 :: rat)"
proof -
  have mul: "dec_mul exact_ext (1 / 40) 100 = Some (5 / 2)"
    by (simp add: dec_bound_def)
  have rnd: "dec_round0 exact_ext (5 / 2) = 2" by (simp add: round_half_even_def)
  have cents: "dec_to exact_ext U64 2 = Some 2" by (simp add: width_simps)
  have pos: "dec_sign_negative exact_ext (1 / 40) \<longleftrightarrow> False" by simp
  have r: "from_decimal_dollars exact_ext (1 / 40) = Inr 2"
    unfolding from_decimal_dollars_def
    by (simp only: mul rnd cents pos ok_or_simps rbind_simps simp_thms if_False)
  have "5 / 2 = (100 * (1 / 40) :: rat)" by simp
  from from_decimal_dollars_nearest [OF exact_ext_documented(1,2) mul this r] r
  show ?thesis by (simp only:)
qed

end
