(* ===== verification/Btree_Map.thy ===== *)
theory Btree_Map
  imports Prelude
begin

text \<open>
  The standard library's \<open>BTreeMap\<close>, as the components use it: point lookup, insertion that
  overwrites, removal, \<open>retain\<close> and iteration in ascending key order. A map is the list of
  its entries in ascending key order; \<open>bt_inv\<close> is that representation invariant. The
  operations' laws are the interface \<open>lookup_store\<close>, which the registries of the engine
  use, and \<open>ordered_store\<close> adds the iteration order.
\<close>

type_synonym ('k, 'v) btmap = "('k \<times> 'v) list"

definition bt_empty :: "('k, 'v) btmap" where
  "bt_empty = []"

definition bt_get :: "('k, 'v) btmap \<Rightarrow> 'k \<Rightarrow> 'v option" where
  "bt_get m k = map_of m k"

definition bt_contains :: "('k, 'v) btmap \<Rightarrow> 'k \<Rightarrow> bool" where
  "bt_contains m k \<longleftrightarrow> bt_get m k \<noteq> None"

fun bt_insert :: "'k::linorder \<Rightarrow> 'v \<Rightarrow> ('k, 'v) btmap \<Rightarrow> ('k, 'v) btmap" where
  "bt_insert k v [] = [(k, v)]"
| "bt_insert k v ((k', v') # m) =
     (if k < k' then (k, v) # (k', v') # m
      else if k = k' then (k, v) # m
      else (k', v') # bt_insert k v m)"

definition bt_remove :: "'k \<Rightarrow> ('k, 'v) btmap \<Rightarrow> ('k, 'v) btmap" where
  "bt_remove k m = filter (\<lambda>(k', _). k' \<noteq> k) m"

definition bt_retain :: "('k \<Rightarrow> bool) \<Rightarrow> ('k, 'v) btmap \<Rightarrow> ('k, 'v) btmap" where
  "bt_retain P m = filter (\<lambda>(k, _). P k) m"

definition bt_keys :: "('k, 'v) btmap \<Rightarrow> 'k list" where
  "bt_keys m = map fst m"

definition bt_values :: "('k, 'v) btmap \<Rightarrow> 'v list" where
  "bt_values m = map snd m"

definition bt_inv :: "('k::linorder, 'v) btmap \<Rightarrow> bool" where
  "bt_inv m \<longleftrightarrow> sorted_wrt (<) (map fst m)"

subsection \<open>Lookup laws\<close>

lemma bt_get_empty [simp]: "bt_get bt_empty k = None"
  by (simp add: bt_get_def bt_empty_def)

lemma bt_get_insert [simp]: "bt_get (bt_insert k v m) k' = (if k' = k then Some v else bt_get m k')"
  by (induction k v m rule: bt_insert.induct) (auto simp: bt_get_def)

lemma bt_get_remove [simp]: "bt_get (bt_remove k m) k' = (if k' = k then None else bt_get m k')"
  by (induction m) (auto simp: bt_get_def bt_remove_def)

lemma bt_get_retain [simp]: "bt_get (bt_retain P m) k = (if P k then bt_get m k else None)"
  by (induction m) (auto simp: bt_get_def bt_retain_def)

lemma bt_keys_get: "k \<in> set (bt_keys m) \<longleftrightarrow> bt_get m k \<noteq> None"
  by (induction m) (auto simp: bt_get_def bt_keys_def)

lemma bt_get_mem: "bt_get m k = Some v \<Longrightarrow> (k, v) \<in> set m"
  by (simp add: bt_get_def map_of_SomeD)

lemma bt_inv_distinct: "bt_inv m \<Longrightarrow> distinct (map fst m)"
  by (simp add: bt_inv_def strict_sorted_iff)

lemma bt_mem_get: "bt_inv m \<Longrightarrow> (k, v) \<in> set m \<Longrightarrow> bt_get m k = Some v"
  by (simp add: bt_inv_distinct bt_get_def)

subsection \<open>The representation invariant\<close>

lemma bt_keys_insert: "set (map fst (bt_insert k v m)) = insert k (set (map fst m))"
  by (induction k v m rule: bt_insert.induct) auto

lemma bt_inv_empty [simp]: "bt_inv bt_empty"
  by (simp add: bt_inv_def bt_empty_def)

lemma bt_inv_insert [simp]: "bt_inv m \<Longrightarrow> bt_inv (bt_insert k v m)"
proof (induction k v m rule: bt_insert.induct)
  case (2 k v k' v' m)
  show ?case
  proof (cases "k \<le> k'")
    case True
    with "2.prems" show ?thesis by (fastforce simp: bt_inv_def)
  next
    case False
    with 2 have "bt_inv (bt_insert k v m)" by (auto simp: bt_inv_def)
    then show ?thesis
      using False "2.prems" bt_keys_insert [of k v m] by (auto simp: bt_inv_def)
  qed
qed (simp add: bt_inv_def)

lemma bt_inv_filter: "bt_inv m \<Longrightarrow> bt_inv (filter P m)"
  by (induction m) (auto simp: bt_inv_def)

lemma bt_inv_remove [simp]: "bt_inv m \<Longrightarrow> bt_inv (bt_remove k m)"
  by (simp add: bt_remove_def bt_inv_filter)

lemma bt_inv_retain [simp]: "bt_inv m \<Longrightarrow> bt_inv (bt_retain P m)"
  by (simp add: bt_retain_def bt_inv_filter)

section \<open>The interface\<close>

text \<open>
  What a registry keyed by ids relies on: an inserted entry is found, the other entries
  stay, a removed entry is gone.
\<close>

locale lookup_store =
  fixes get :: "'m \<Rightarrow> 'k \<Rightarrow> 'v option"
    and put :: "'k \<Rightarrow> 'v \<Rightarrow> 'm \<Rightarrow> 'm"
    and del :: "'k \<Rightarrow> 'm \<Rightarrow> 'm"
  assumes get_put: "get (put k v m) k' = (if k' = k then Some v else get m k')"
    and get_del: "get (del k m) k' = (if k' = k then None else get m k')"
begin

lemma dom_put: "dom (get (put k v m)) = insert k (dom (get m))"
  by (auto simp: get_put dom_def)

lemma dom_del: "dom (get (del k m)) = dom (get m) - {k}"
  by (auto simp: get_del dom_def)

lemma get_put_map: "get (put k v m) = (get m)(k \<mapsto> v)"
  by (auto simp: get_put)

lemma get_del_map: "get (del k m) = (get m)(k := None)"
  by (auto simp: get_del)

lemma all_put:
  "(\<And>k' v'. get m k' = Some v' \<Longrightarrow> P k' v') \<Longrightarrow> P k v \<Longrightarrow> get (put k v m) k' = Some v' \<Longrightarrow> P k' v'"
  by (auto simp: get_put split: if_splits)

lemma all_del:
  "(\<And>k' v'. get m k' = Some v' \<Longrightarrow> P k' v') \<Longrightarrow> get (del k m) k' = Some v' \<Longrightarrow> P k' v'"
  by (auto simp: get_del split: if_splits)

end

locale ordered_store = lookup_store get put del
  for get :: "'m \<Rightarrow> 'k::linorder \<Rightarrow> 'v option"
    and put :: "'k \<Rightarrow> 'v \<Rightarrow> 'm \<Rightarrow> 'm"
    and del :: "'k \<Rightarrow> 'm \<Rightarrow> 'm" +
  fixes entries :: "'m \<Rightarrow> ('k \<times> 'v) list"
    and inv :: "'m \<Rightarrow> bool"
  assumes entries_ascending: "inv m \<Longrightarrow> sorted_wrt (<) (map fst (entries m))"
    and entries_get: "inv m \<Longrightarrow> (k, v) \<in> set (entries m) \<longleftrightarrow> get m k = Some v"
    and inv_put: "inv m \<Longrightarrow> inv (put k v m)"
    and inv_del: "inv m \<Longrightarrow> inv (del k m)"
begin

text \<open>The iteration order is a function of the contents, whatever the history of insertions.\<close>

lemma entries_canonical:
  assumes "inv m" and "inv m'" and "get m = get m'"
  shows "entries m = entries m'"
proof (rule map_sorted_distinct_set_unique [of fst])
  have sorted: "sorted_wrt (<) (map fst (entries m))" "sorted_wrt (<) (map fst (entries m'))"
    using assms by (simp_all add: entries_ascending)
  then show "sorted (map fst (entries m))" "distinct (map fst (entries m))"
    "sorted (map fst (entries m'))" "distinct (map fst (entries m'))"
    by (simp_all add: strict_sorted_iff)
  show same: "set (entries m) = set (entries m')"
    using assms by (auto simp: entries_get)
  show "inj_on fst (set (entries m) \<union> set (entries m'))"
    using sorted by (simp add: same strict_sorted_iff distinct_map)
qed

end

interpretation bts: ordered_store bt_get bt_insert bt_remove "\<lambda>m. m" bt_inv
proof unfold_locales
  show "(k, v) \<in> set m \<longleftrightarrow> bt_get m k = Some v" if "bt_inv m" for m :: "('a \<times> 'b) list" and k v
    using that bt_mem_get bt_get_mem by metis
qed (auto simp: bt_inv_def [symmetric])

end
