(* ===== verification/Contract.thy ===== *)
theory Contract
  imports Money Btree_Map "HOL-Library.Char_ord" "HOL-Library.List_Lexorder"
begin

text \<open>
  \<open>src/domain/contract.rs\<close>: the ticker grammar, the exact identity and total order of
  contract keys, and the versioned contract identifier with its parser. The order is the
  one the maps of the engine iterate in; its laws are the interface \<open>comparator\<close>.
\<close>

section \<open>Comparators\<close>

datatype ordering = OLess | OEqual | OGreater

primrec reverse_ordering :: "ordering \<Rightarrow> ordering" where
  "reverse_ordering OLess = OGreater"
| "reverse_ordering OEqual = OEqual"
| "reverse_ordering OGreater = OLess"

primrec then_with :: "ordering \<Rightarrow> ordering \<Rightarrow> ordering" where
  "then_with OLess r = OLess"
| "then_with OEqual r = r"
| "then_with OGreater r = OGreater"

lemma then_with_iff:
  "then_with r s = OLess \<longleftrightarrow> r = OLess \<or> r = OEqual \<and> s = OLess"
  "then_with r s = OEqual \<longleftrightarrow> r = OEqual \<and> s = OEqual"
  by (cases r; simp)+

definition cmp_of :: "'a::linorder \<Rightarrow> 'a \<Rightarrow> ordering" where
  "cmp_of a b = (if a < b then OLess else if a = b then OEqual else OGreater)"

locale comparator =
  fixes c :: "'a \<Rightarrow> 'a \<Rightarrow> ordering"
  assumes c_equal: "c a b = OEqual \<longleftrightarrow> a = b"
    and c_reverse: "c b a = reverse_ordering (c a b)"
    and c_trans: "c a b = OLess \<Longrightarrow> c b d = OLess \<Longrightarrow> c a d = OLess"
begin

lemma c_refl: "c a a = OEqual"
  by (simp add: c_equal)

lemma c_le_trans: "c a b \<noteq> OGreater \<Longrightarrow> c b d \<noteq> OGreater \<Longrightarrow> c a d \<noteq> OGreater"
  by (metis c_equal c_trans ordering.exhaust ordering.distinct(3))

lemma c_antisym: "c a b \<noteq> OGreater \<Longrightarrow> c b a \<noteq> OGreater \<Longrightarrow> a = b"
  by (metis c_equal c_reverse ordering.exhaust reverse_ordering.simps(1))

lemma c_total: "c a b \<noteq> OGreater \<or> c b a \<noteq> OGreater"
  by (metis c_reverse ordering.distinct(3) reverse_ordering.simps(3))

lemma c_less: "c a b = OLess \<longleftrightarrow> c a b \<noteq> OGreater \<and> c b a = OGreater"
  by (metis c_reverse ordering.distinct(3) ordering.exhaust reverse_ordering.simps)

end

interpretation cmp_of: comparator cmp_of
  by unfold_locales (auto simp: cmp_of_def split: if_splits)

text \<open>Comparing a first and then a second part of a key, the two parts determining it.\<close>

lemma comparator_then_with:
  assumes f: "comparator cf" and g: "comparator cg"
    and inj: "\<And>a b. pf a = pf b \<Longrightarrow> pg a = pg b \<Longrightarrow> a = b"
  shows "comparator (\<lambda>a b. then_with (cf (pf a) (pf b)) (cg (pg a) (pg b)))"
proof
  fix a b d
  show "then_with (cf (pf a) (pf b)) (cg (pg a) (pg b)) = OEqual \<longleftrightarrow> a = b"
    using inj by (auto simp: then_with_iff comparator.c_equal [OF f] comparator.c_equal [OF g])
  show "then_with (cf (pf b) (pf a)) (cg (pg b) (pg a)) =
      reverse_ordering (then_with (cf (pf a) (pf b)) (cg (pg a) (pg b)))"
    using comparator.c_reverse [OF f, of "pf b" "pf a"]
      comparator.c_reverse [OF g, of "pg b" "pg a"]
    by (cases "cf (pf a) (pf b)") auto
  assume "then_with (cf (pf a) (pf b)) (cg (pg a) (pg b)) = OLess"
    and "then_with (cf (pf b) (pf d)) (cg (pg b) (pg d)) = OLess"
  then show "then_with (cf (pf a) (pf d)) (cg (pg a) (pg d)) = OLess"
    using comparator.c_trans [OF f] comparator.c_trans [OF g]
    by (auto simp: then_with_iff comparator.c_equal [OF f])
qed

section \<open>Tickers\<close>

type_synonym underlying = string

definition is_ascii_uppercase :: "char \<Rightarrow> bool" where
  "is_ascii_uppercase c \<longleftrightarrow> 65 \<le> (of_char c :: nat) \<and> (of_char c :: nat) \<le> 90"

definition is_ascii_digit :: "char \<Rightarrow> bool" where
  "is_ascii_digit c \<longleftrightarrow> 48 \<le> (of_char c :: nat) \<and> (of_char c :: nat) \<le> 57"

definition underlying_new :: "string \<Rightarrow> underlying res" where
  "underlying_new t =
     (let valid_len = t \<noteq> [] \<and> length t \<le> 32;
          valid_chars = list_all (\<lambda>c. is_ascii_uppercase c \<or> is_ascii_digit c \<or>
                                     c = CHR ''.'' \<or> c = CHR ''_'') t
      in if \<not> valid_len \<or> \<not> valid_chars then Inl (Conversion (MsgUnderlyingGrammar t))
         else Inr t)"

section \<open>Contract keys\<close>

text \<open>
  The two enums of \<open>optionstratlib\<close> the keys are made of; the derived order of
  \<open>OptionStyle\<close> has calls before puts.
\<close>

datatype option_style = Call | Put
datatype expiration = Days rat | DateTime int

datatype contract_key = ContractKey
  (ck_underlying: underlying) (ck_expiration: expiration)
  (ck_strike: price_cents) (ck_style: option_style)

fun expiration_exact_eq :: "expiration \<Rightarrow> expiration \<Rightarrow> bool" where
  "expiration_exact_eq (Days a) (Days b) = (a = b)"
| "expiration_exact_eq (DateTime a) (DateTime b) = (a = b)"
| "expiration_exact_eq _ _ = False"

definition contract_eq :: "contract_key \<Rightarrow> contract_key \<Rightarrow> bool" where
  "contract_eq a b \<longleftrightarrow> ck_underlying a = ck_underlying b \<and> ck_strike a = ck_strike b \<and>
     ck_style a = ck_style b \<and> expiration_exact_eq (ck_expiration a) (ck_expiration b)"

fun expiration_exact_cmp :: "expiration \<Rightarrow> expiration \<Rightarrow> ordering" where
  "expiration_exact_cmp (Days a) (Days b) = cmp_of a b"
| "expiration_exact_cmp (DateTime a) (DateTime b) = cmp_of a b"
| "expiration_exact_cmp (Days _) (DateTime _) = OLess"
| "expiration_exact_cmp (DateTime _) (Days _) = OGreater"

fun style_cmp :: "option_style \<Rightarrow> option_style \<Rightarrow> ordering" where
  "style_cmp Call Put = OLess"
| "style_cmp Put Call = OGreater"
| "style_cmp _ _ = OEqual"

definition contract_cmp :: "contract_key \<Rightarrow> contract_key \<Rightarrow> ordering" where
  "contract_cmp a b =
     then_with (cmp_of (ck_underlying a) (ck_underlying b))
      (then_with (expiration_exact_cmp (ck_expiration a) (ck_expiration b))
        (then_with (cmp_of (ck_strike a) (ck_strike b))
          (style_cmp (ck_style a) (ck_style b))))"

lemma expiration_exact_eq_iff: "expiration_exact_eq a b \<longleftrightarrow> a = b"
  by (cases a; cases b) auto

lemma contract_eq_iff: "contract_eq a b \<longleftrightarrow> a = b"
  by (cases a; cases b) (auto simp: contract_eq_def expiration_exact_eq_iff)

interpretation ecmp: comparator expiration_exact_cmp
proof
  show "expiration_exact_cmp a b = OEqual \<longleftrightarrow> a = b" for a b
    by (cases a; cases b) (auto simp: cmp_of.c_equal)
  show "expiration_exact_cmp b a = reverse_ordering (expiration_exact_cmp a b)" for a b
    using cmp_of.c_reverse by (cases a; cases b) auto
  show "expiration_exact_cmp a d = OLess"
    if "expiration_exact_cmp a b = OLess" "expiration_exact_cmp b d = OLess" for a b d
    using that cmp_of.c_trans by (cases a; cases b; cases d) auto
qed

interpretation scmp: comparator style_cmp
proof
  show "style_cmp a b = OEqual \<longleftrightarrow> a = b" for a b by (cases a; cases b) auto
  show "style_cmp b a = reverse_ordering (style_cmp a b)" for a b by (cases a; cases b) auto
  show "style_cmp a d = OLess" if "style_cmp a b = OLess" "style_cmp b d = OLess" for a b d
    using that by (cases a; cases b; cases d) auto
qed

interpretation ccmp: comparator contract_cmp
proof -
  have strike_style: "comparator (\<lambda>p q. then_with (cmp_of (fst p :: int) (fst q)) (style_cmp (snd p) (snd q)))"
    by (rule comparator_then_with [OF cmp_of.comparator_axioms scmp.comparator_axioms])
      (auto simp: prod_eq_iff)
  have expiry: "comparator (\<lambda>p q. then_with (expiration_exact_cmp (fst p) (fst q))
      (then_with (cmp_of (fst (snd p) :: int) (fst (snd q))) (style_cmp (snd (snd p)) (snd (snd q)))))"
    by (rule comparator_then_with [OF ecmp.comparator_axioms strike_style])
      (auto simp: prod_eq_iff)
  have "comparator (\<lambda>a b. then_with (cmp_of (ck_underlying a) (ck_underlying b))
      ((\<lambda>p q. then_with (expiration_exact_cmp (fst p) (fst q))
         (then_with (cmp_of (fst (snd p) :: int) (fst (snd q))) (style_cmp (snd (snd p)) (snd (snd q)))))
       (ck_expiration a, ck_strike a, ck_style a) (ck_expiration b, ck_strike b, ck_style b)))"
    by (rule comparator_then_with [OF cmp_of.comparator_axioms expiry])
      (auto intro: contract_key.expand)
  then show "comparator contract_cmp"
    by (simp add: contract_cmp_def [abs_def])
qed

instantiation contract_key :: linorder
begin

definition less_eq_contract_key :: "contract_key \<Rightarrow> contract_key \<Rightarrow> bool" where
  "a \<le> b \<longleftrightarrow> contract_cmp a b \<noteq> OGreater"

definition less_contract_key :: "contract_key \<Rightarrow> contract_key \<Rightarrow> bool" where
  "a < b \<longleftrightarrow> contract_cmp a b = OLess"

instance
proof
  fix a b d :: contract_key
  show "a < b \<longleftrightarrow> a \<le> b \<and> \<not> b \<le> a"
    using ccmp.c_less by (auto simp: less_eq_contract_key_def less_contract_key_def)
  show "a \<le> a" by (simp add: less_eq_contract_key_def ccmp.c_refl)
  show "a \<le> b \<Longrightarrow> b \<le> d \<Longrightarrow> a \<le> d"
    unfolding less_eq_contract_key_def by (rule ccmp.c_le_trans)
  show "a \<le> b \<Longrightarrow> b \<le> a \<Longrightarrow> a = b"
    unfolding less_eq_contract_key_def by (rule ccmp.c_antisym)
  show "a \<le> b \<or> b \<le> a"
    unfolding less_eq_contract_key_def by (rule ccmp.c_total)
qed

end

end
