(* ===== verification/Contract_Id.thy ===== *)
theory Contract_Id
  imports Contract Integer_Text
begin

text \<open>
  The versioned contract identifier of \<open>src/domain/contract.rs\<close>:
  \<open>v1:UNDERLYING:expiration_ns:strike_cents:style\<close>, its rendering and its parser, and the
  round trip between keys and identifiers.
\<close>

definition CONTRACT_ID_VERSION :: string where
  "CONTRACT_ID_VERSION = ''v1''"

definition expiration_ns :: "ext \<Rightarrow> contract_key \<Rightarrow> int res" where
  "expiration_ns X k =
     (case ck_expiration k of
        DateTime t \<Rightarrow> ok_or (dt_nanos_opt X t) (Conversion (MsgExpirationRange t))
      | Days d \<Rightarrow> Inl (Conversion (MsgExpirationUnresolved d)))"

definition style_text :: "option_style \<Rightarrow> string" where
  "style_text s = (case s of Call \<Rightarrow> ''C'' | Put \<Rightarrow> ''P'')"

definition to_contract_id :: "ext \<Rightarrow> contract_key \<Rightarrow> string res" where
  "to_contract_id X k =
     rbind (expiration_ns X k) (\<lambda>ns.
       Inr (CONTRACT_ID_VERSION @ '':'' @ ck_underlying k @ '':'' @ show_int ns @ '':'' @
            show_int (ck_strike k) @ '':'' @ style_text (ck_style k)))"

definition from_contract_id :: "ext \<Rightarrow> string \<Rightarrow> contract_key res" where
  "from_contract_id X cid =
     (case split_on (CHR '':'') cid of
        [version, u, e, s, st] \<Rightarrow>
          if version \<noteq> CONTRACT_ID_VERSION then Inl (Conversion (MsgIdVersion cid version))
          else rbind (underlying_new u) (\<lambda>underlying.
               rbind (ok_or (parse_int I64 e) (Conversion (MsgIdExpiration cid e))) (\<lambda>ns.
               rbind (ok_or (parse_int U64 s) (Conversion (MsgIdStrike cid s))) (\<lambda>strike.
               rbind (if st = ''C'' then Inr Call else if st = ''P'' then Inr Put
                      else Inl (Conversion (MsgIdStyle cid st))) (\<lambda>style.
                 Inr (ContractKey underlying (DateTime (dt_from_nanos X ns)) strike style)))))
      | _ \<Rightarrow> Inl (Conversion (MsgIdSegments cid)))"

text \<open>The type invariant of a key: a ticker of the grammar, a \<open>u64\<close> strike.\<close>

definition wf_contract :: "contract_key \<Rightarrow> bool" where
  "wf_contract k \<longleftrightarrow> underlying_new (ck_underlying k) = Inr (ck_underlying k) \<and> is_price (ck_strike k)"

section \<open>Lemmas\<close>

lemma underlying_new_Inr: "underlying_new t = Inr u \<Longrightarrow> u = t \<and> CHR '':'' \<notin> set t"
  by (auto simp: underlying_new_def list_all_iff is_ascii_uppercase_def is_ascii_digit_def
        split: if_splits)

lemma style_text_no_colon: "CHR '':'' \<notin> set (style_text s)"
  by (cases s) (auto simp: style_text_def)

lemma split_contract_id:
  assumes "CHR '':'' \<notin> set u"
  shows "split_on (CHR '':'') (CONTRACT_ID_VERSION @ '':'' @ u @ '':'' @ show_int a @ '':'' @
      show_int b @ '':'' @ style_text s) = [CONTRACT_ID_VERSION, u, show_int a, show_int b, style_text s]"
proof -
  have v: "CHR '':'' \<notin> set CONTRACT_ID_VERSION" by (simp add: CONTRACT_ID_VERSION_def)
  show ?thesis
    by (simp only: append_Cons append_Nil split_on_append [OF v] split_on_append [OF assms]
          split_on_append [OF show_int_no_colon] split_on_none [OF style_text_no_colon])
qed

lemma from_contract_id_rendered:
  assumes "underlying_new u = Inr u" and "fits I64 ns" and "fits U64 strike"
  shows "from_contract_id X (CONTRACT_ID_VERSION @ '':'' @ u @ '':'' @ show_int ns @ '':'' @
      show_int strike @ '':'' @ style_text s) = Inr (ContractKey u (DateTime (dt_from_nanos X ns)) strike s)"
proof -
  have "CHR '':'' \<notin> set u" using underlying_new_Inr [OF assms(1)] by simp
  note split = split_contract_id [OF this]
  have style: "(if style_text s = ''C'' then Inr Call else if style_text s = ''P'' then Inr Put
      else Inl e) = Inr s" for e :: backtest_error
    by (cases s) (simp_all add: style_text_def)
  show ?thesis
    unfolding from_contract_id_def split
    by (simp add: assms(1) parse_show_int assms(2,3) style)
qed

lemma from_to_contract_id:
  assumes "nanos_in_range X" and "instants_identified X"
    and "wf_contract k" and "to_contract_id X k = Inr cid"
  shows "from_contract_id X cid = Inr k"
proof -
  from assms(4) obtain ns where ns: "expiration_ns X k = Inr ns"
    and cid: "cid = CONTRACT_ID_VERSION @ '':'' @ ck_underlying k @ '':'' @ show_int ns @ '':'' @
          show_int (ck_strike k) @ '':'' @ style_text (ck_style k)"
    by (auto simp: to_contract_id_def res_simps)
  from ns obtain t where t: "ck_expiration k = DateTime t" "dt_nanos_opt X t = Some ns"
    by (auto simp: expiration_ns_def res_simps split: expiration.splits)
  with assms(1,2) have "fits I64 ns" "dt_from_nanos X ns = t"
    by (auto simp: nanos_in_range_def instants_identified_def)
  with assms(3) t show ?thesis
    unfolding cid by (subst from_contract_id_rendered) (auto simp: wf_contract_def is_price_def
      intro: contract_key.expand)
qed

section \<open>Properties\<close>

text \<open>
  C31. Parsing a rendered identifier gives back the key it was rendered from, and two keys
  with the same identifier are the same key: the identifier is an exact identity of a
  contract, whose expiry is never rounded or confused with another one.
\<close>

theorem contract_id_round_trip:
  assumes "nanos_in_range X" and "instants_identified X"
    and "wf_contract k" and "to_contract_id X k = Inr cid"
  shows "from_contract_id X cid = Inr k \<and>
    (\<forall>k'. wf_contract k' \<and> to_contract_id X k' = Inr cid \<longrightarrow> k' = k)"
  using from_to_contract_id [OF assms] from_to_contract_id [OF assms(1,2)] by fastforce

definition spx_call :: contract_key where
  "spx_call = ContractKey ''SPX'' (DateTime 1750291200000000000) 510000 Call"

lemma wf_spx_call: "wf_contract spx_call"
  by (simp add: wf_contract_def spx_call_def underlying_new_def is_ascii_uppercase_def
        is_price_def width_simps)

theorem contract_id_round_trip_witness:
  "from_contract_id exact_ext ''v1:SPX:1750291200000000000:510000:C'' = Inr spx_call"
proof -
  have "to_contract_id exact_ext spx_call = Inr ''v1:SPX:1750291200000000000:510000:C''"
    by (simp add: to_contract_id_def spx_call_def expiration_ns_def try_into_def width_simps
          CONTRACT_ID_VERSION_def style_text_def show_int_def show_nat.simps digit_chars)
  from contract_id_round_trip [OF exact_ext_documented(6,7) wf_spx_call this]
  show ?thesis by simp
qed

text \<open>
  The parser is not the inverse on every text it accepts: the integer segments may carry a plus
  sign or leading zeros, so an identifier is accepted that no key renders to.
\<close>

lemma contract_id_noncanonical:
  "from_contract_id exact_ext ''v1:SPX:+5:0010:C'' = Inr (ContractKey ''SPX'' (DateTime 5) 10 Call) \<and>
   (\<forall>k. wf_contract k \<longrightarrow> to_contract_id exact_ext k \<noteq> Inr ''v1:SPX:+5:0010:C'')"
proof -
  have parsed: "from_contract_id exact_ext ''v1:SPX:+5:0010:C'' = Inr (ContractKey ''SPX'' (DateTime 5) 10 Call)"
    by (simp add: from_contract_id_def CONTRACT_ID_VERSION_def underlying_new_def
        is_ascii_uppercase_def parse_int_def parse_nat_def digit_value_def try_into_def width_simps)
  have "to_contract_id exact_ext k \<noteq> Inr ''v1:SPX:+5:0010:C''" if "wf_contract k" for k
  proof
    assume rendered: "to_contract_id exact_ext k = Inr ''v1:SPX:+5:0010:C''"
    from from_to_contract_id [OF exact_ext_documented(6,7) that this] parsed
    have "k = ContractKey ''SPX'' (DateTime 5) 10 Call" by simp
    with rendered show False
      by (simp add: to_contract_id_def expiration_ns_def try_into_def width_simps
          CONTRACT_ID_VERSION_def style_text_def show_int_def show_nat.simps digit_chars)
  qed
  with parsed show ?thesis by blast
qed

end
