(* ===== verification/Market.thy ===== *)
theory Market
  imports Contract Money Btree_Map Backtest_Error
begin

text \<open>
  The market view handed to the engine and the strategies (\<open>src/domain/market.rs\<close>): the
  per-run instrument specification, the quote of one contract, and the chain snapshot whose
  quotes are iterated in contract order. The volatility and the greeks are decimals, denoted
  by their rational values.
\<close>

record instrument_spec =
  sp_tick :: price_cents
  sp_mult :: int

definition instrument_spec_new :: "price_cents \<Rightarrow> int \<Rightarrow> instrument_spec res" where
  "instrument_spec_new tick mult =
     (if tick = 0 then Inl (Conversion MsgTickSizeZero)
      else if mult = 0 then Inl (Conversion MsgMultiplierZero)
      else Inr \<lparr>sp_tick = tick, sp_mult = mult\<rparr>)"

record quote_view =
  qv_contract :: contract_key
  qv_bid :: price_cents
  qv_ask :: price_cents
  qv_mid :: price_cents
  qv_bid_size :: quantity
  qv_ask_size :: quantity
  qv_iv :: rat
  qv_delta :: rat
  qv_gamma :: rat
  qv_theta :: rat
  qv_vega :: rat

record chain_snapshot =
  cs_ts :: int
  cs_step :: int
  cs_underlying :: string
  cs_price :: price_cents
  cs_spec :: instrument_spec
  cs_quotes :: "(contract_key, quote_view) btmap"

text \<open>
  The constraints the Rust types put on a value: a validated specification, prices in \<open>u64\<close>,
  sizes in \<open>u32\<close>, quotes keyed by their own contract and in ascending order.
\<close>

definition wf_spec :: "instrument_spec \<Rightarrow> bool" where
  "wf_spec sp \<longleftrightarrow> is_price (sp_tick sp) \<and> 0 < sp_tick sp \<and> is_quantity (sp_mult sp) \<and> 0 < sp_mult sp"

definition wf_quote :: "quote_view \<Rightarrow> bool" where
  "wf_quote q \<longleftrightarrow> is_price (qv_bid q) \<and> is_price (qv_ask q) \<and> is_price (qv_mid q) \<and>
     is_quantity (qv_bid_size q) \<and> is_quantity (qv_ask_size q)"

definition wf_snapshot :: "chain_snapshot \<Rightarrow> bool" where
  "wf_snapshot s \<longleftrightarrow> fits I64 (cs_ts s) \<and> fits U32 (cs_step s) \<and> is_price (cs_price s) \<and>
     wf_spec (cs_spec s) \<and> bt_inv (cs_quotes s) \<and>
     (\<forall>(k, q) \<in> set (cs_quotes s). qv_contract q = k \<and> wf_quote q)"

lemma instrument_spec_new_wf:
  "is_price tick \<Longrightarrow> is_quantity mult \<Longrightarrow> instrument_spec_new tick mult = Inr sp \<Longrightarrow> wf_spec sp"
  by (auto simp: instrument_spec_new_def wf_spec_def is_price_def is_quantity_def width_simps
        split: if_splits)

lemma wf_snapshot_quote:
  "wf_snapshot s \<Longrightarrow> bt_get (cs_quotes s) k = Some q \<Longrightarrow> wf_quote q \<and> qv_contract q = k"
  by (auto simp: wf_snapshot_def dest!: bt_get_mem)

end
