(* ===== verification/Orders.thy ===== *)
theory Orders
  imports Contract Money Backtest_Error
begin

text \<open>
  The order and fill model (\<open>src/domain/execution.rs\<close>): the intent a strategy submits, the
  commands it may give, the open position and resting order it sees, the fill it is told of,
  and the sign convention of slippage and spread capture. Position, order and trade ids are
  \<open>u64\<close> values.
\<close>

datatype execution_mode = Naive | Realistic

datatype side = Long | Short

type_synonym position_id = int
type_synonym order_id = int
type_synonym trade_id = int

datatype position_action = Open | Close position_id

datatype time_in_force = Ioc | Gtc

record order_intent =
  oi_contract :: contract_key
  oi_action :: position_action
  oi_side :: side
  oi_quantity :: quantity
  oi_limit :: "price_cents option"
  oi_tif :: time_in_force
  oi_decision_mid :: price_cents

definition order_intent_validate :: "order_intent \<Rightarrow> unit res" where
  "order_intent_validate oi =
     (if oi_limit oi = None \<and> oi_tif oi = Gtc then Inl (Execution MsgRestingMarketOrder) else Inr ())"

definition order_intent_new ::
    "contract_key \<Rightarrow> position_action \<Rightarrow> side \<Rightarrow> quantity \<Rightarrow> price_cents option \<Rightarrow> time_in_force
      \<Rightarrow> price_cents \<Rightarrow> order_intent res" where
  "order_intent_new c a sd q limit tif mid =
     (let oi = \<lparr>oi_contract = c, oi_action = a, oi_side = sd, oi_quantity = q, oi_limit = limit,
                oi_tif = tif, oi_decision_mid = mid\<rparr>
      in rbind (order_intent_validate oi) (\<lambda>_. Inr oi))"

datatype order_command =
    Submit order_intent
  | Cancel order_id
  | Replace order_id order_intent

record open_position =
  op_id :: position_id
  op_contract :: contract_key
  op_side :: side
  op_quantity :: quantity
  op_entry_premium :: price_cents

record pending_order =
  po_id :: order_id
  po_intent :: order_intent

record fill =
  fl_ts :: int
  fl_step :: int
  fl_contract :: contract_key
  fl_side :: side
  fl_quantity :: quantity
  fl_price :: price_cents
  fl_fees :: cents
  fl_slippage :: cents
  fl_mode :: execution_mode

section \<open>The sign convention\<close>

fun side_sign :: "side \<Rightarrow> int" where
  "side_sign Long = 1"
| "side_sign Short = - 1"

definition slippage_cents :: "price_cents \<Rightarrow> price_cents \<Rightarrow> quantity \<Rightarrow> side \<Rightarrow> cents res" where
  "slippage_cents price decision_mid quantity sd =
     (let diff = price - decision_mid in
      rbind (checked (Option.bind (checked_mul I128 diff quantity)
               (\<lambda>p. checked_mul I128 p (side_sign sd)))) (\<lambda>product.
      checked (try_into I64 product)))"

definition spread_capture_cents :: "cents list \<Rightarrow> cents res" where
  "spread_capture_cents slippages =
     rbind (fold_res (\<lambda>s total. cents_checked_add total s) slippages 0) (\<lambda>total.
     checked (checked_neg I64 total))"

text \<open>The type constraints of a fill.\<close>

definition wf_fill :: "fill \<Rightarrow> bool" where
  "wf_fill f \<longleftrightarrow> fits I64 (fl_ts f) \<and> fits U32 (fl_step f) \<and> is_quantity (fl_quantity f) \<and>
     is_price (fl_price f) \<and> is_cents (fl_fees f) \<and> is_cents (fl_slippage f)"

lemma side_sign_cases: "side_sign s = 1 \<or> side_sign s = - 1"
  by (cases s) auto

lemma side_sign_square [simp]: "side_sign s * side_sign s = 1"
  by (cases s) auto

text \<open>A product of a price difference and a quantity is far inside \<open>i128\<close>.\<close>

lemma price_diff_times_quantity:
  assumes "is_price a" and "is_price b" and "is_quantity q"
  shows "\<bar>(a - b) * q\<bar> \<le> 2 ^ 96"
proof -
  have "\<bar>a - b\<bar> \<le> 2 ^ 64" "\<bar>q\<bar> \<le> 2 ^ 32" "0 \<le> \<bar>q\<bar>"
    using assms by (auto simp: is_price_def is_quantity_def width_simps)
  then have "\<bar>a - b\<bar> * \<bar>q\<bar> \<le> 2 ^ 64 * 2 ^ 32"
    by (intro mult_mono) auto
  then show ?thesis by (simp add: abs_mult)
qed

text \<open>
  C24. For prices and quantities of their types the slippage is exactly
  \<open>(price - mid) * quantity\<close> with the sign of the side, adverse moves positive: the
  intermediate products never overflow, so the only error is a result outside \<open>i64\<close>.
\<close>

theorem slippage_exact:
  assumes "is_price p" and "is_price m" and "is_quantity q"
  shows "slippage_cents p m q sd = checked (try_into I64 ((p - m) * q * side_sign sd))"
proof -
  have "\<bar>(p - m) * q\<bar> \<le> 79228162514264337593543950336"
    using price_diff_times_quantity [OF assms] by simp
  then have "fits I128 ((p - m) * q)" "fits I128 ((p - m) * q * side_sign sd)"
    using side_sign_cases [of sd] by (auto simp: width_simps abs_le_iff)
  then show ?thesis
    by (simp add: slippage_cents_def checked_mul_def)
qed

theorem slippage_exact_witness:
  "slippage_cents 118 120 3 Short = Inr 6 \<and> slippage_cents 118 120 3 Long = Inr (- 6)"
  using slippage_exact [of 118 120 3 Short] slippage_exact [of 118 120 3 Long]
  by (simp add: is_price_def is_quantity_def width_simps)

lemma fold_add_sum:
  "fold_res (\<lambda>s total. cents_checked_add total s) xs a = Inr t \<Longrightarrow> t = a + sum_list xs"
proof (induction xs arbitrary: a)
  case (Cons x xs)
  then obtain b where "cents_checked_add a x = Inr b"
    and "fold_res (\<lambda>s total. cents_checked_add total s) xs b = Inr t"
    by (auto simp: res_simps)
  with Cons.IH [of b] show ?case
    by (simp add: cents_checked_add_def checked_add_def res_simps)
qed simp

lemma spread_capture_sum: "spread_capture_cents xs = Inr c \<Longrightarrow> c = - sum_list xs"
  by (auto simp: spread_capture_cents_def checked_neg_def res_simps dest!: fold_add_sum)

end
