(* ===== verification/Run_Config.thy ===== *)
theory Run_Config
  imports Orders Integer_Text
begin

text \<open>
  The run's configuration and its validation (\<open>src/config.rs\<close>), which is the boundary the
  engine trusts: every bound a later component relies on (the depth of the seeded book, the
  price cap of a marketable order, the resource caps) is established here. The data source
  is checked by its feed and is a type parameter; the output directory is its path text.
\<close>

record fee_schedule =
  fs_per_contract :: int
  fs_per_order :: int

datatype slippage_model =
    NoSlippage
  | FixedCents int
  | SpreadFraction rat
  | SizeProportional int

datatype touch_size = QuotedSize | Flat int

record liquidity_profile =
  lp_touch_size :: touch_size
  lp_depth_levels :: int
  lp_decay :: rat

definition default_liquidity_profile :: liquidity_profile where
  "default_liquidity_profile =
     \<lparr>lp_touch_size = QuotedSize, lp_depth_levels = 5, lp_decay = 5 / 10\<rparr>"

definition MAX_DEPTH_LEVELS :: int where
  "MAX_DEPTH_LEVELS = 64"

definition liquidity_profile_validate :: "liquidity_profile \<Rightarrow> unit res" where
  "liquidity_profile_validate p =
     (if lp_depth_levels p > MAX_DEPTH_LEVELS
      then Inl (Config (MsgDepthLevels (lp_depth_levels p) MAX_DEPTH_LEVELS))
      else if lp_decay p \<le> 0 \<or> lp_decay p > 1 then Inl (Config (MsgDecayRange (lp_decay p)))
      else if lp_touch_size p = Flat 0 then Inl (Config MsgFlatContracts)
      else Inr ())"

record resource_limits =
  rl_max_steps :: int
  rl_max_contracts_per_snapshot :: int
  rl_max_total_bytes :: int
  rl_max_file_bytes :: int
  rl_max_decompressed_bytes :: int
  rl_max_manifest_bytes :: int
  rl_max_string_len :: int
  rl_max_rows_per_table :: int

text \<open>The hard caps, in the order \<open>validate\<close> tests the fields.\<close>

definition hard_caps :: resource_limits where
  "hard_caps = \<lparr>
     rl_max_steps = 10000000,
     rl_max_contracts_per_snapshot = 5000000,
     rl_max_total_bytes = 32 * 2 ^ 30,
     rl_max_file_bytes = 64 * 2 ^ 30,
     rl_max_decompressed_bytes = 64 * 2 ^ 30,
     rl_max_manifest_bytes = 256 * 2 ^ 20,
     rl_max_string_len = 16 * 2 ^ 20,
     rl_max_rows_per_table = 2 ^ 40\<rparr>"

definition limit_over :: "string \<Rightarrow> int \<Rightarrow> int \<Rightarrow> backtest_error" where
  "limit_over field value cap = Config (MsgLimitExceeds field value cap)"

definition resource_limits_validate :: "resource_limits \<Rightarrow> unit res" where
  "resource_limits_validate l =
     (if rl_max_steps l > rl_max_steps hard_caps
      then Inl (limit_over ''max_steps'' (rl_max_steps l) (rl_max_steps hard_caps))
      else if rl_max_contracts_per_snapshot l > rl_max_contracts_per_snapshot hard_caps
      then Inl (limit_over ''max_contracts_per_snapshot'' (rl_max_contracts_per_snapshot l)
                 (rl_max_contracts_per_snapshot hard_caps))
      else if rl_max_total_bytes l > rl_max_total_bytes hard_caps
      then Inl (limit_over ''max_total_bytes'' (rl_max_total_bytes l) (rl_max_total_bytes hard_caps))
      else if rl_max_file_bytes l > rl_max_file_bytes hard_caps
      then Inl (limit_over ''max_file_bytes'' (rl_max_file_bytes l) (rl_max_file_bytes hard_caps))
      else if rl_max_decompressed_bytes l > rl_max_decompressed_bytes hard_caps
      then Inl (limit_over ''max_decompressed_bytes'' (rl_max_decompressed_bytes l)
                 (rl_max_decompressed_bytes hard_caps))
      else if rl_max_manifest_bytes l > rl_max_manifest_bytes hard_caps
      then Inl (limit_over ''max_manifest_bytes'' (rl_max_manifest_bytes l)
                 (rl_max_manifest_bytes hard_caps))
      else if rl_max_string_len l > rl_max_string_len hard_caps
      then Inl (limit_over ''max_string_len'' (rl_max_string_len l) (rl_max_string_len hard_caps))
      else if rl_max_rows_per_table l > rl_max_rows_per_table hard_caps
      then Inl (limit_over ''max_rows_per_table'' (rl_max_rows_per_table l)
                 (rl_max_rows_per_table hard_caps))
      else Inr ())"

definition default_resource_limits :: resource_limits where
  "default_resource_limits = \<lparr>
     rl_max_steps = 100000,
     rl_max_contracts_per_snapshot = 50000,
     rl_max_total_bytes = 2 * 2 ^ 30,
     rl_max_file_bytes = 4 * 2 ^ 30,
     rl_max_decompressed_bytes = 8 * 2 ^ 30,
     rl_max_manifest_bytes = 16 * 2 ^ 20,
     rl_max_string_len = 64 * 2 ^ 10,
     rl_max_rows_per_table = 100000000\<rparr>"

definition default_marketable_cap_ticks :: int where
  "default_marketable_cap_ticks = 10"

record 'd backtest_config =
  bc_data_source :: 'd
  bc_mode :: execution_mode
  bc_seed :: int
  bc_initial_capital :: int
  bc_fees :: fee_schedule
  bc_slippage :: slippage_model
  bc_marketable_cap_ticks :: int
  bc_liquidity_profile :: liquidity_profile
  bc_limits :: resource_limits
  bc_output_dir :: string
  bc_overwrite :: bool

definition has_parent_component :: "string \<Rightarrow> bool" where
  "has_parent_component path \<longleftrightarrow> ''..'' \<in> set (split_on (CHR ''/'') path)"

definition slippage_fraction_negative :: "ext \<Rightarrow> slippage_model \<Rightarrow> rat option" where
  "slippage_fraction_negative X s =
     (case s of SpreadFraction f \<Rightarrow> if dec_sign_negative X f then Some f else None | _ \<Rightarrow> None)"

definition backtest_config_validate :: "ext \<Rightarrow> 'd backtest_config \<Rightarrow> unit res" where
  "backtest_config_validate X c =
     (if bc_initial_capital c = 0 then Inl (Config MsgInitialCapitalZero)
      else if bc_marketable_cap_ticks c = 0 then Inl (Config MsgCapTicksZero)
      else rbind (resource_limits_validate (bc_limits c)) (\<lambda>_.
           rbind (liquidity_profile_validate (bc_liquidity_profile c)) (\<lambda>_.
           case slippage_fraction_negative X (bc_slippage c) of
             Some f \<Rightarrow> Inl (Config (MsgSlippageFraction f))
           | None \<Rightarrow>
               if bc_output_dir c = '''' then Inl (Config MsgOutputDirEmpty)
               else if has_parent_component (bc_output_dir c) then Inl (Config MsgOutputDirParent)
               else Inr ())))"

section \<open>What a validated configuration guarantees\<close>

definition limits_within_caps :: "resource_limits \<Rightarrow> bool" where
  "limits_within_caps l \<longleftrightarrow>
     rl_max_steps l \<le> 10000000 \<and> rl_max_contracts_per_snapshot l \<le> 5000000 \<and>
     rl_max_total_bytes l \<le> 34359738368 \<and> rl_max_file_bytes l \<le> 68719476736 \<and>
     rl_max_decompressed_bytes l \<le> 68719476736 \<and> rl_max_manifest_bytes l \<le> 268435456 \<and>
     rl_max_string_len l \<le> 16777216 \<and> rl_max_rows_per_table l \<le> 1099511627776"

definition profile_usable :: "liquidity_profile \<Rightarrow> bool" where
  "profile_usable p \<longleftrightarrow> lp_depth_levels p \<le> 64 \<and> 0 < lp_decay p \<and> lp_decay p \<le> 1 \<and>
     lp_touch_size p \<noteq> Flat 0"

lemma resource_limits_validate_iff:
  "resource_limits_validate l = Inr () \<longleftrightarrow> limits_within_caps l"
  by (simp add: resource_limits_validate_def limits_within_caps_def hard_caps_def not_less conj_ac)

lemma liquidity_profile_validate_iff:
  "liquidity_profile_validate p = Inr () \<longleftrightarrow> profile_usable p"
  by (auto simp: liquidity_profile_validate_def profile_usable_def MAX_DEPTH_LEVELS_def not_less)

lemma defaults_valid:
  "resource_limits_validate default_resource_limits = Inr ()"
  "liquidity_profile_validate default_liquidity_profile = Inr ()"
  by (simp_all add: resource_limits_validate_iff liquidity_profile_validate_iff
        limits_within_caps_def default_resource_limits_def profile_usable_def
        default_liquidity_profile_def)

text \<open>
  C27. A configuration is accepted exactly when every bound the run relies on holds: positive
  capital and tick cap, limits inside the hard caps, a usable liquidity profile, a slippage
  fraction that is not negative, and an output directory that cannot climb out of its root.
\<close>

theorem backtest_config_valid_iff:
  assumes "signs X"
  shows "backtest_config_validate X c = Inr () \<longleftrightarrow>
    bc_initial_capital c \<noteq> 0 \<and> bc_marketable_cap_ticks c \<noteq> 0 \<and>
    limits_within_caps (bc_limits c) \<and> profile_usable (bc_liquidity_profile c) \<and>
    (\<forall>f. bc_slippage c = SpreadFraction f \<longrightarrow> 0 \<le> f) \<and>
    bc_output_dir c \<noteq> '''' \<and> ''..'' \<notin> set (split_on (CHR ''/'') (bc_output_dir c))"
  using assms
  by (auto simp: backtest_config_validate_def res_simps resource_limits_validate_iff
        liquidity_profile_validate_iff slippage_fraction_negative_def has_parent_component_def
        signs_def split: slippage_model.splits option.splits if_splits)

definition sample_config :: "unit backtest_config" where
  "sample_config = \<lparr>
     bc_data_source = (), bc_mode = Naive, bc_seed = 7, bc_initial_capital = 1000000,
     bc_fees = \<lparr>fs_per_contract = 65, fs_per_order = 100\<rparr>, bc_slippage = SpreadFraction (1 / 4),
     bc_marketable_cap_ticks = 10, bc_liquidity_profile = default_liquidity_profile,
     bc_limits = default_resource_limits, bc_output_dir = ''out/run'', bc_overwrite = False\<rparr>"

theorem backtest_config_valid_iff_witness:
  "backtest_config_validate exact_ext sample_config = Inr () \<and>
   backtest_config_validate exact_ext (sample_config\<lparr>bc_output_dir := ''out/../x''\<rparr>) \<noteq> Inr ()"
  using backtest_config_valid_iff [OF exact_ext_documented(3), of sample_config]
    backtest_config_valid_iff [OF exact_ext_documented(3), of "sample_config\<lparr>bc_output_dir := ''out/../x''\<rparr>"]
  by (simp add: sample_config_def default_liquidity_profile_def default_resource_limits_def
        limits_within_caps_def profile_usable_def)

end
