(* ===== verification/Sim_Clock.thy ===== *)
theory Sim_Clock
  imports Backtest_Error
begin

text \<open>
  The simulation clock (\<open>src/engine/clock.rs\<close>): it starts at step 0 and \<open>i64::MIN\<close>
  nanoseconds, and moves only forward. A rejected advance is an error of the run.
\<close>

record sim_clock =
  ck_step :: int
  ck_ts :: int

definition sim_clock_new :: sim_clock where
  "sim_clock_new = \<lparr>ck_step = 0, ck_ts = w_min I64\<rparr>"

definition advance_to :: "sim_clock \<Rightarrow> int \<Rightarrow> int \<Rightarrow> sim_clock res" where
  "advance_to c ts step =
     (if ts \<le> ck_ts c then Inl (DataOutOfOrder step ts (ck_ts c))
      else if step < ck_step c then Inl (Data (MsgStepRegressed step (ck_step c) ts))
      else Inr (c\<lparr>ck_step := step, ck_ts := ts\<rparr>))"

text \<open>The clock after a sequence of advances.\<close>

definition advance_all :: "(int \<times> int) list \<Rightarrow> sim_clock \<Rightarrow> sim_clock res" where
  "advance_all = fold_res (\<lambda>(ts, step) c. advance_to c ts step)"

lemma advance_to_Inr [res_simps]:
  "advance_to c ts step = Inr c' \<longleftrightarrow>
     ck_ts c < ts \<and> ck_step c \<le> step \<and> c' = c\<lparr>ck_step := step, ck_ts := ts\<rparr>"
  by (auto simp: advance_to_def)

lemma advance_all_Inr:
  "advance_all xs c = Inr c' \<longleftrightarrow>
     sorted_wrt (\<lambda>(t, n) (t', n'). t < t' \<and> n \<le> n') ((ck_ts c, ck_step c) # xs) \<and>
     c' = (case xs of [] \<Rightarrow> c | _ \<Rightarrow> c\<lparr>ck_step := snd (last xs), ck_ts := fst (last xs)\<rparr>)"
proof (induction xs arbitrary: c)
  case Nil
  then show ?case by (auto simp: advance_all_def)
next
  case (Cons x xs)
  obtain t n where x: "x = (t, n)" by (cases x)
  show ?case
  proof (cases "ck_ts c < t \<and> ck_step c \<le> n")
    case True
    then have "advance_all (x # xs) c = advance_all xs (c\<lparr>ck_step := n, ck_ts := t\<rparr>)"
      by (simp add: advance_all_def x advance_to_def)
    with True Cons.IH [of "c\<lparr>ck_step := n, ck_ts := t\<rparr>"] show ?thesis
      by (auto simp: x split: list.splits)
  next
    case False
    then show ?thesis by (auto simp: advance_all_def x res_simps)
  qed
qed

text \<open>
  C26. A run's clock accepts a sequence of snapshots exactly when the timestamps are strictly
  increasing from above \<open>i64::MIN\<close> and the step indices never go back: nothing is reordered
  or merged, and gaps are kept.
\<close>

theorem clock_accepts_iff:
  "(\<exists>c. advance_all xs sim_clock_new = Inr c) \<longleftrightarrow>
     sorted_wrt (<) (w_min I64 # map fst xs) \<and> sorted_wrt (\<le>) (0 # map snd xs)"
proof -
  have "sorted_wrt (\<lambda>(t, n) (t', n'). t < t' \<and> n \<le> n') ys \<longleftrightarrow>
      sorted_wrt (<) (map fst ys) \<and> sorted_wrt (\<le>) (map snd ys)" for ys :: "(int \<times> int) list"
    by (induction ys) auto
  from this [of "(w_min I64, 0) # xs"] show ?thesis
    unfolding advance_all_Inr sim_clock_new_def by simp
qed

end
