(* ===== verification/Ledger.thy ===== *)
theory Ledger
  imports Market Orders Contract_Id Float64
begin

text \<open>
  The cash ledger, the marks and the mark-to-market equity (\<open>src/engine/ledger.rs\<close>).
  \<open>apply_fill\<close> moves cash; \<open>settle\<close> ends a step: it marks the open legs, computes the
  equity, the running peak and the drawdown, derives the step's profit, hands over the
  accumulated slippage and fees and zeroes them, and refreshes the retained greeks.
  A failing operation abandons the run, so an error carries no ledger.
\<close>

record unit_greeks =
  ug_delta :: rat
  ug_gamma :: rat
  ug_theta :: rat
  ug_vega :: rat
  ug_iv :: rat

record position_mark =
  pm_id :: position_id
  pm_contract :: contract_key
  pm_side :: side
  pm_quantity :: quantity
  pm_mult :: int
  pm_mark :: price_cents
  pm_stale :: bool
  pm_prior :: "unit_greeks option"

record equity_point =
  ep_step :: int
  ep_ts :: int
  ep_cash :: int
  ep_position_value :: int
  ep_equity :: int
  ep_drawdown :: rat

record ledger =
  lg_cash :: cents
  lg_peak :: int
  lg_marks :: "(contract_key, price_cents) btmap"
  lg_position_marks :: "position_mark list"
  lg_attribution_marks :: "position_mark list"
  lg_greeks :: "(contract_key, unit_greeks) btmap"
  lg_prev_equity :: int
  lg_step_slippage :: int
  lg_step_fees :: int
  lg_spread_capture :: cents
  lg_last_fees :: cents
  lg_step_pnl :: cents

definition ledger_new :: "cents \<Rightarrow> ledger" where
  "ledger_new capital = \<lparr>
     lg_cash = capital, lg_peak = capital, lg_marks = bt_empty, lg_position_marks = [],
     lg_attribution_marks = [], lg_greeks = bt_empty, lg_prev_equity = capital,
     lg_step_slippage = 0, lg_step_fees = 0, lg_spread_capture = 0, lg_last_fees = 0,
     lg_step_pnl = 0\<rparr>"

text \<open>The begin-of-step legs with the greeks retained from the previous step.\<close>

definition begin_mark :: "ledger \<Rightarrow> int \<Rightarrow> open_position \<Rightarrow> position_mark" where
  "begin_mark l mult leg = \<lparr>
     pm_id = op_id leg, pm_contract = op_contract leg, pm_side = op_side leg,
     pm_quantity = op_quantity leg, pm_mult = mult, pm_mark = op_entry_premium leg,
     pm_stale = False, pm_prior = bt_get (lg_greeks l) (op_contract leg)\<rparr>"

definition collect_attribution_marks :: "ledger \<Rightarrow> open_position list \<Rightarrow> int \<Rightarrow> ledger" where
  "collect_attribution_marks l legs mult =
     l\<lparr>lg_attribution_marks := map (begin_mark l mult) legs\<rparr>"

section \<open>Cash\<close>

definition apply_fill :: "ledger \<Rightarrow> fill \<Rightarrow> int \<Rightarrow> ledger res" where
  "apply_fill l f mult =
     rbind (checked (Option.bind (checked_mul I128 (fl_price f) (fl_quantity f))
              (\<lambda>g. checked_mul I128 g mult))) (\<lambda>gross.
     rbind (checked (checked_mul I128 gross (- side_sign (fl_side f)))) (\<lambda>signed_flow.
     rbind (checked (checked_sub I128 signed_flow (fl_fees f))) (\<lambda>net128.
     rbind (checked (try_into I64 net128)) (\<lambda>net.
     rbind (cents_checked_add (lg_cash l) net) (\<lambda>cash.
     rbind (checked (checked_mul I128 (fl_slippage f) mult)) (\<lambda>scaled_slippage.
     rbind (checked (checked_add I128 (lg_step_slippage l) scaled_slippage)) (\<lambda>slippage.
     rbind (checked (checked_add I128 (lg_step_fees l) (fl_fees f))) (\<lambda>fees.
     Inr (l\<lparr>lg_cash := cash, lg_step_slippage := slippage, lg_step_fees := fees\<rparr>)))))))))"

section \<open>Marking a leg\<close>

definition resolve_mark ::
    "ext \<Rightarrow> ledger \<Rightarrow> open_position \<Rightarrow> chain_snapshot \<Rightarrow> (ledger \<times> price_cents \<times> bool) res" where
  "resolve_mark X l leg snap =
     (case bt_get (cs_quotes snap) (op_contract leg) of
        Some quote \<Rightarrow>
          Inr (l\<lparr>lg_marks := bt_insert (op_contract leg) (qv_mid quote) (lg_marks l)\<rparr>,
               qv_mid quote, False)
      | None \<Rightarrow>
          rbind (expiration_ns X (op_contract leg)) (\<lambda>expiration.
          if cs_ts snap \<ge> expiration
          then Inl (DataOutOfOrder (cs_step snap) expiration (cs_ts snap))
          else Inr (l, (case bt_get (lg_marks l) (op_contract leg) of
                          Some m \<Rightarrow> m | None \<Rightarrow> op_entry_premium leg), True)))"

definition drawdown :: "ledger \<Rightarrow> int \<Rightarrow> rat" where
  "drawdown l equity =
     (if lg_peak l \<le> 0 then 0
      else f64_div (f64_sub (f64_of_int equity) (f64_of_int (lg_peak l))) (f64_of_int (lg_peak l)))"

section \<open>Settlement\<close>

definition leg_value :: "price_cents \<Rightarrow> quantity \<Rightarrow> int \<Rightarrow> side \<Rightarrow> int option" where
  "leg_value mark quantity mult sd =
     Option.bind (checked_mul I128 mark quantity) (\<lambda>v.
     Option.bind (checked_mul I128 v mult) (\<lambda>v.
     checked_mul I128 v (side_sign sd)))"

definition settle_leg ::
    "ext \<Rightarrow> chain_snapshot \<Rightarrow> open_position \<Rightarrow> ledger \<times> int \<Rightarrow> (ledger \<times> int) res" where
  "settle_leg X snap leg = (\<lambda>(l, position_value).
     rbind (resolve_mark X l leg snap) (\<lambda>(l, mark, stale).
     let pm = \<lparr>pm_id = op_id leg, pm_contract = op_contract leg, pm_side = op_side leg,
               pm_quantity = op_quantity leg, pm_mult = sp_mult (cs_spec snap), pm_mark = mark,
               pm_stale = stale, pm_prior = bt_get (lg_greeks l) (op_contract leg)\<rparr> in
     rbind (checked (leg_value mark (op_quantity leg) (sp_mult (cs_spec snap)) (op_side leg))) (\<lambda>v.
     rbind (checked (checked_add I128 position_value v)) (\<lambda>total.
     Inr (l\<lparr>lg_position_marks := lg_position_marks l @ [pm]\<rparr>, total)))))"

definition quote_greeks :: "quote_view \<Rightarrow> unit_greeks" where
  "quote_greeks q = \<lparr>ug_delta = qv_delta q, ug_gamma = qv_gamma q, ug_theta = qv_theta q,
                     ug_vega = qv_vega q, ug_iv = qv_iv q\<rparr>"

definition refresh_greeks ::
    "chain_snapshot \<Rightarrow> open_position \<Rightarrow> (contract_key, unit_greeks) btmap
      \<Rightarrow> (contract_key, unit_greeks) btmap" where
  "refresh_greeks snap leg g =
     (case bt_get (cs_quotes snap) (op_contract leg) of
        Some q \<Rightarrow> bt_insert (op_contract leg) (quote_greeks q) g
      | None \<Rightarrow> g)"

definition settle ::
    "ext \<Rightarrow> ledger \<Rightarrow> int \<Rightarrow> int \<Rightarrow> open_position list \<Rightarrow> chain_snapshot
      \<Rightarrow> (ledger \<times> equity_point) res" where
  "settle X l0 step ts legs snap =
     rbind (fold_res (settle_leg X snap) legs (l0\<lparr>lg_position_marks := []\<rparr>, 0)) (\<lambda>(l, position_value).
     rbind (checked (try_into I64 position_value)) (\<lambda>value.
     rbind (checked (checked_add I64 (lg_cash l) value)) (\<lambda>equity.
     let l = (if equity > lg_peak l then l\<lparr>lg_peak := equity\<rparr> else l);
         dd = drawdown l equity in
     rbind (checked (checked_sub I64 equity (lg_prev_equity l))) (\<lambda>step_pnl.
     rbind (checked (checked_neg I128 (lg_step_slippage l))) (\<lambda>capture128.
     rbind (checked (try_into I64 capture128)) (\<lambda>capture.
     rbind (checked (try_into I64 (lg_step_fees l))) (\<lambda>fees.
     Inr (l\<lparr>lg_step_pnl := step_pnl, lg_prev_equity := equity, lg_spread_capture := capture,
            lg_last_fees := fees, lg_step_slippage := 0, lg_step_fees := 0,
            lg_greeks := fold (refresh_greeks snap) legs (lg_greeks l)\<rparr>,
          \<lparr>ep_step = step, ep_ts = ts, ep_cash = lg_cash l, ep_position_value = value,
           ep_equity = equity, ep_drawdown = dd\<rparr>))))))))"

section \<open>Cash is exact\<close>

text \<open>What a fill moves: a buy debits and a sell credits the notional, fees are debited.\<close>

definition cash_flow :: "fill \<Rightarrow> int \<Rightarrow> int" where
  "cash_flow f mult = - side_sign (fl_side f) * (fl_price f * fl_quantity f * mult) - fl_fees f"

lemma checked_notional:
  assumes "1 \<le> q" and "1 \<le> m"
  shows "Option.bind (checked_mul I128 p q) (\<lambda>g. checked_mul I128 g m) = try_into I128 (p * q * m)"
proof (cases "fits I128 (p * q)")
  case False
  then consider "170141183460469231731687303715884105727 < p * q"
    | "p * q < - 170141183460469231731687303715884105728"
    by (auto simp: width_simps)
  then have "\<not> fits I128 (p * q * m)"
  proof cases
    case 1
    then have "p * q * 1 \<le> p * q * m" using assms by (intro mult_left_mono) auto
    with 1 show ?thesis by (simp add: width_simps)
  next
    case 2
    then have "p * q * m \<le> p * q * 1" using assms by (intro mult_left_mono_neg) auto
    with 2 show ?thesis by (simp add: width_simps)
  qed
  with False show ?thesis by (simp add: checked_mul_def try_into_def)
qed (simp add: checked_mul_def)

lemma scaled_slippage_fits:
  assumes "is_cents s" and "is_quantity m"
  shows "fits I128 (s * m)"
proof -
  have "\<bar>s\<bar> \<le> 9223372036854775808" "\<bar>m\<bar> \<le> 4294967296" "0 \<le> \<bar>m\<bar>"
    using assms by (auto simp: is_cents_def is_quantity_def width_simps)
  then have "\<bar>s\<bar> * \<bar>m\<bar> \<le> 9223372036854775808 * 4294967296" by (intro mult_mono) auto
  then show ?thesis by (simp add: width_simps abs_mult [symmetric] abs_le_iff)
qed

text \<open>
  C11. Applying a fill moves the cash by exactly the notional and the fees, with the sign of
  the side, and adds the slippage on the same cash basis and the fees to the step's
  accumulators; nothing else changes. It fails exactly when one of these results does not
  fit its type: no intermediate product rejects a representable result.
\<close>

theorem apply_fill_exact:
  assumes "wf_fill f" and "is_quantity m"
  shows "apply_fill l f m =
    (if fits I64 (cash_flow f m) \<and> fits I64 (lg_cash l + cash_flow f m) \<and>
        fits I128 (lg_step_slippage l + fl_slippage f * m) \<and>
        fits I128 (lg_step_fees l + fl_fees f)
     then Inr (l\<lparr>lg_cash := lg_cash l + cash_flow f m,
                 lg_step_slippage := lg_step_slippage l + fl_slippage f * m,
                 lg_step_fees := lg_step_fees l + fl_fees f\<rparr>)
     else Inl ArithmeticOverflow)"
proof -
  define gross where "gross = fl_price f * fl_quantity f * m"
  have pos: "0 \<le> fl_price f" "1 \<le> fl_quantity f" "1 \<le> m"
    and fees: "- 9223372036854775808 \<le> fl_fees f" "fl_fees f \<le> 9223372036854775807"
    using assms by (auto simp: wf_fill_def is_price_def is_quantity_def is_cents_def width_simps)
  then have "0 \<le> gross" by (auto simp: gross_def)
  have notional: "Option.bind (checked_mul I128 (fl_price f) (fl_quantity f))
      (\<lambda>g. checked_mul I128 g m) = try_into I128 gross"
    unfolding gross_def using pos(2,3) by (rule checked_notional)
  have scaled: "checked_mul I128 (fl_slippage f) m = Some (fl_slippage f * m)"
    using scaled_slippage_fits [OF _ assms(2), of "fl_slippage f"] assms(1)
    by (simp add: checked_mul_def wf_fill_def)
  have flow: "cash_flow f m = - (gross * side_sign (fl_side f)) - fl_fees f"
    by (simp add: cash_flow_def gross_def)
  show ?thesis
  proof (cases "fits I64 (cash_flow f m)")
    case True
    with \<open>0 \<le> gross\<close> fees have "fits I128 gross" "fits I128 (- (gross * side_sign (fl_side f)))"
      "fits I128 (- (gross * side_sign (fl_side f)) - fl_fees f)"
      by (cases "fl_side f"; simp add: flow width_simps)+
    with True show ?thesis
      unfolding apply_fill_def notional scaled
      by (simp add: checked_mul_def [of I128 gross] checked_sub_def flow
            cents_checked_add_def checked_add_def try_into_def)
  next
    case False
    then show ?thesis
      unfolding apply_fill_def notional
      by (auto simp: checked_mul_def [of I128 gross] checked_sub_def try_into_def flow)
  qed
qed

definition sample_fill :: fill where
  "sample_fill = \<lparr>fl_ts = 5, fl_step = 0, fl_contract = spx_call, fl_side = Short, fl_quantity = 2,
     fl_price = 120, fl_fees = 130, fl_slippage = 4, fl_mode = Naive\<rparr>"

lemma wf_sample_fill: "wf_fill sample_fill"
  by (simp add: wf_fill_def sample_fill_def is_quantity_def is_price_def is_cents_def width_simps)

theorem apply_fill_exact_witness:
  "apply_fill (ledger_new 1000000) sample_fill 100 =
     Inr ((ledger_new 1000000)\<lparr>lg_cash := 1023870, lg_step_slippage := 400, lg_step_fees := 130\<rparr>)"
  using apply_fill_exact [OF wf_sample_fill, of 100 "ledger_new 1000000"]
  by (simp add: is_quantity_def width_simps cash_flow_def sample_fill_def ledger_new_def)

lemma apply_fill_Inr:
  assumes "apply_fill l f m = Inr l'"
  shows "l' = l\<lparr>lg_cash := lg_cash l + cash_flow f m,
                lg_step_slippage := lg_step_slippage l + fl_slippage f * m,
                lg_step_fees := lg_step_fees l + fl_fees f\<rparr> \<and> fits I64 (lg_cash l')"
  using assms
  by (auto simp: apply_fill_def res_simps checked_defs bind_eq_Some_conv cash_flow_def algebra_simps)

section \<open>Marks\<close>

text \<open>
  The price a leg is marked at: the snapshot's mid; else the last mid it was marked at; else
  its entry premium.
\<close>

definition mark_of :: "ledger \<Rightarrow> chain_snapshot \<Rightarrow> open_position \<Rightarrow> price_cents" where
  "mark_of l snap leg =
     (case bt_get (cs_quotes snap) (op_contract leg) of
        Some q \<Rightarrow> qv_mid q
      | None \<Rightarrow> (case bt_get (lg_marks l) (op_contract leg) of
                    Some m \<Rightarrow> m | None \<Rightarrow> op_entry_premium leg))"

definition quoted :: "chain_snapshot \<Rightarrow> contract_key \<Rightarrow> bool" where
  "quoted snap k \<longleftrightarrow> bt_get (cs_quotes snap) k \<noteq> None"

definition leg_mark :: "ledger \<Rightarrow> chain_snapshot \<Rightarrow> open_position \<Rightarrow> position_mark" where
  "leg_mark l snap leg = \<lparr>
     pm_id = op_id leg, pm_contract = op_contract leg, pm_side = op_side leg,
     pm_quantity = op_quantity leg, pm_mult = sp_mult (cs_spec snap), pm_mark = mark_of l snap leg,
     pm_stale = (\<not> quoted snap (op_contract leg)),
     pm_prior = bt_get (lg_greeks l) (op_contract leg)\<rparr>"

definition market_value :: "ledger \<Rightarrow> chain_snapshot \<Rightarrow> open_position \<Rightarrow> int" where
  "market_value l snap leg =
     mark_of l snap leg * op_quantity leg * sp_mult (cs_spec snap) * side_sign (op_side leg)"

text \<open>The legs that may be marked: quoted, or not yet at their expiry.\<close>

definition markable :: "ext \<Rightarrow> chain_snapshot \<Rightarrow> open_position \<Rightarrow> bool" where
  "markable X snap leg \<longleftrightarrow> quoted snap (op_contract leg) \<or>
     (\<exists>e. expiration_ns X (op_contract leg) = Inr e \<and> cs_ts snap < e)"

lemma resolve_mark_Inr:
  assumes "resolve_mark X l leg snap = Inr (l', mark, stale)"
  shows "mark = mark_of l snap leg \<and> stale = (\<not> quoted snap (op_contract leg)) \<and>
    markable X snap leg \<and>
    l' = l\<lparr>lg_marks := (case bt_get (cs_quotes snap) (op_contract leg) of
             Some q \<Rightarrow> bt_insert (op_contract leg) (qv_mid q) (lg_marks l) | None \<Rightarrow> lg_marks l)\<rparr>"
  using assms
  by (auto simp: resolve_mark_def mark_of_def quoted_def markable_def res_simps not_le
        split: option.splits if_splits)

lemma mark_of_cong:
  "(\<And>k. \<not> quoted snap k \<Longrightarrow> bt_get (lg_marks l) k = bt_get (lg_marks l') k) \<Longrightarrow>
     mark_of l snap leg = mark_of l' snap leg"
  by (auto simp: mark_of_def quoted_def split: option.splits)

lemma settle_leg_Inr:
  assumes "settle_leg X snap leg (l, t) = Inr (l', t')"
  shows "t' = t + market_value l snap leg \<and> markable X snap leg \<and>
    l' = l\<lparr>lg_marks := (case bt_get (cs_quotes snap) (op_contract leg) of
             Some q \<Rightarrow> bt_insert (op_contract leg) (qv_mid q) (lg_marks l) | None \<Rightarrow> lg_marks l),
           lg_position_marks := lg_position_marks l @ [leg_mark l snap leg]\<rparr>"
  using assms
  by (auto simp: settle_leg_def res_simps Let_def checked_defs leg_value_def bind_eq_Some_conv
        market_value_def leg_mark_def dest!: resolve_mark_Inr)

lemma settle_legs:
  assumes "fold_res (settle_leg X snap) legs (l, t) = Inr (l', t')"
  shows "t' = t + sum_list (map (market_value l snap) legs) \<and>
    lg_position_marks l' = lg_position_marks l @ map (leg_mark l snap) legs \<and>
    (\<exists>ms. l' = l\<lparr>lg_marks := ms, lg_position_marks := lg_position_marks l'\<rparr>) \<and>
    (\<forall>leg \<in> set legs. markable X snap leg) \<and>
    (\<forall>k. bt_get (lg_marks l') k =
       (if k \<in> op_contract ` set legs \<and> quoted snap k
        then map_option qv_mid (bt_get (cs_quotes snap) k) else bt_get (lg_marks l) k))"
  using assms
proof (induction legs arbitrary: l t)
  case (Cons leg legs)
  from Cons.prems obtain l1 t1 where
    leg: "settle_leg X snap leg (l, t) = Inr (l1, t1)"
    and rest: "fold_res (settle_leg X snap) legs (l1, t1) = Inr (l', t')"
    by (auto simp: res_simps)
  note m = settle_leg_Inr [OF leg]
  have mark: "mark_of l1 snap leg' = mark_of l snap leg'" for leg'
    using m by (intro mark_of_cong) (auto simp: quoted_def split: option.splits)
  have same: "leg_mark l1 snap = leg_mark l snap" "market_value l1 snap = market_value l snap"
    using m mark by (auto simp: leg_mark_def market_value_def fun_eq_iff)
  show ?case
    using Cons.IH [OF rest, unfolded same] m by (auto simp: quoted_def split: option.splits)
qed (auto intro: exI [of _ "lg_marks l'"])

section \<open>What a settlement establishes\<close>

lemma raise_peak:
  "(if e > lg_peak l then l\<lparr>lg_peak := e\<rparr> else l) = l\<lparr>lg_peak := max (lg_peak l) e\<rparr>"
  by simp

lemma settle_Inr:
  assumes "settle X l step ts legs snap = Inr (l', ep)"
  obtains l1 v where
    "fold_res (settle_leg X snap) legs (l\<lparr>lg_position_marks := []\<rparr>, 0) = Inr (l1, v)"
    and "fits I64 v" and "fits I64 (lg_cash l1 + v)"
    and "l' = l1\<lparr>lg_peak := max (lg_peak l1) (lg_cash l1 + v),
             lg_step_pnl := lg_cash l1 + v - lg_prev_equity l1, lg_prev_equity := lg_cash l1 + v,
             lg_spread_capture := - lg_step_slippage l1, lg_last_fees := lg_step_fees l1,
             lg_step_slippage := 0, lg_step_fees := 0,
             lg_greeks := fold (refresh_greeks snap) legs (lg_greeks l1)\<rparr>"
    and "fits I64 (lg_step_pnl l')" and "fits I64 (lg_spread_capture l')"
    and "fits I64 (lg_last_fees l')"
    and "ep = \<lparr>ep_step = step, ep_ts = ts, ep_cash = lg_cash l1, ep_position_value = v,
             ep_equity = lg_cash l1 + v,
             ep_drawdown = drawdown (l1\<lparr>lg_peak := max (lg_peak l1) (lg_cash l1 + v)\<rparr>)
                             (lg_cash l1 + v)\<rparr>"
proof -
  from assms obtain l1 v where
    f: "fold_res (settle_leg X snap) legs (l\<lparr>lg_position_marks := []\<rparr>, 0) = Inr (l1, v)"
    by (auto simp: settle_def res_simps)
  from assms [unfolded settle_def raise_peak] show thesis
    by (intro that [OF f]) (auto simp: f res_simps Let_def checked_defs)
qed

lemma settle_ledger:
  assumes "settle X l step ts legs snap = Inr (l', ep)"
  shows "lg_peak l' = max (lg_peak l) (ep_equity ep) \<and> ep_drawdown ep = drawdown l' (ep_equity ep) \<and>
    (\<forall>leg \<in> set legs. markable X snap leg) \<and>
    (\<forall>k. bt_get (lg_marks l') k =
       (if k \<in> op_contract ` set legs \<and> quoted snap k
        then map_option qv_mid (bt_get (cs_quotes snap) k) else bt_get (lg_marks l) k)) \<and>
    is_cents (ep_equity ep) \<and> lg_greeks l' = fold (refresh_greeks snap) legs (lg_greeks l)"
  using assms
  by (elim settle_Inr) (auto simp: drawdown_def is_cents_def dest!: settle_legs)

lemma settle_effects:
  assumes "settle X l step ts legs snap = Inr (l', ep)"
  shows "lg_position_marks l' = map (leg_mark l snap) legs \<and>
    ep_cash ep = lg_cash l \<and> lg_cash l' = lg_cash l \<and>
    ep_position_value ep = sum_list (map (market_value l snap) legs) \<and>
    ep_equity ep = lg_cash l + sum_list (map (market_value l snap) legs) \<and>
    lg_step_pnl l' = ep_equity ep - lg_prev_equity l \<and> lg_prev_equity l' = ep_equity ep \<and>
    lg_spread_capture l' = - lg_step_slippage l \<and> lg_last_fees l' = lg_step_fees l \<and>
    lg_step_slippage l' = 0 \<and> lg_step_fees l' = 0 \<and>
    lg_attribution_marks l' = lg_attribution_marks l \<and> ep_step ep = step \<and> ep_ts ep = ts"
proof -
  have pms: "leg_mark (l\<lparr>lg_position_marks := []\<rparr>) = leg_mark l"
    "market_value (l\<lparr>lg_position_marks := []\<rparr>) = market_value l"
    by (auto simp: leg_mark_def market_value_def mark_of_def fun_eq_iff cong: option.case_cong)
  show ?thesis
    using assms by (elim settle_Inr) (auto simp: pms dest!: settle_legs)
qed

text \<open>
  C12. A settlement marks every open leg, in order, at the mid, the last mark or the entry
  premium; the equity is the cash plus the signed market value of the legs; the step's profit
  is the change of equity since the previous settlement; the captured spread and the fees are
  the step's sums, and the accumulators restart at zero. Cash does not move.
\<close>

theorem settle_marks_to_market:
  assumes "settle X l step ts legs snap = Inr (l', ep)"
  shows "lg_position_marks l' = map (leg_mark l snap) legs \<and>
    ep_cash ep = lg_cash l \<and> lg_cash l' = lg_cash l \<and>
    ep_position_value ep = sum_list (map (market_value l snap) legs) \<and>
    ep_equity ep = lg_cash l + sum_list (map (market_value l snap) legs) \<and>
    lg_step_pnl l' = ep_equity ep - lg_prev_equity l \<and> lg_prev_equity l' = ep_equity ep \<and>
    lg_spread_capture l' = - lg_step_slippage l \<and> lg_last_fees l' = lg_step_fees l \<and>
    lg_step_slippage l' = 0 \<and> lg_step_fees l' = 0 \<and>
    lg_attribution_marks l' = lg_attribution_marks l \<and> ep_step ep = step \<and> ep_ts ep = ts"
  by (rule settle_effects [OF assms])

definition sample_quote :: quote_view where
  "sample_quote = \<lparr>qv_contract = spx_call, qv_bid = 100, qv_ask = 140, qv_mid = 120,
     qv_bid_size = 10, qv_ask_size = 10, qv_iv = 1 / 5, qv_delta = 1 / 2, qv_gamma = 1 / 100,
     qv_theta = - 1 / 10, qv_vega = 3 / 10\<rparr>"

definition sample_snapshot :: chain_snapshot where
  "sample_snapshot = \<lparr>cs_ts = 5, cs_step = 0, cs_underlying = ''SPX'', cs_price = 510000,
     cs_spec = \<lparr>sp_tick = 5, sp_mult = 100\<rparr>, cs_quotes = [(spx_call, sample_quote)]\<rparr>"

definition sample_leg :: open_position where
  "sample_leg = \<lparr>op_id = 1, op_contract = spx_call, op_side = Short, op_quantity = 2,
     op_entry_premium = 150\<rparr>"

theorem settle_marks_to_market_witness:
  "\<exists>l' ep. settle exact_ext (ledger_new 1000000) 0 5 [sample_leg] sample_snapshot = Inr (l', ep) \<and>
     ep_equity ep = 976000 \<and> lg_step_pnl l' = - 24000"
proof -
  obtain l' ep where
    s: "settle exact_ext (ledger_new 1000000) 0 5 [sample_leg] sample_snapshot = Inr (l', ep)"
    by (simp add: settle_def settle_leg_def resolve_mark_def sample_snapshot_def sample_leg_def
          sample_quote_def bt_get_def leg_value_def checked_defs try_into_def fits_def
          ledger_new_def Let_def)
  from settle_marks_to_market [OF s] s show ?thesis
    by (simp add: market_value_def mark_of_def sample_snapshot_def sample_leg_def
          sample_quote_def bt_get_def ledger_new_def)
qed

text \<open>
  C13. Carry-forward stops at expiry: a settlement succeeds only when every open leg is quoted
  or its expiry is still ahead, so no price is made up for an expired contract. The retained
  marks are refreshed for the held contracts quoted in this snapshot and only for those.
\<close>

theorem settle_carries_only_before_expiry:
  assumes "settle X l step ts legs snap = Inr (l', ep)"
  shows "(\<forall>leg \<in> set legs. bt_get (cs_quotes snap) (op_contract leg) \<noteq> None \<or>
      (\<exists>e. expiration_ns X (op_contract leg) = Inr e \<and> cs_ts snap < e)) \<and>
    (\<forall>k. bt_get (lg_marks l') k =
       (if k \<in> op_contract ` set legs \<and> bt_get (cs_quotes snap) k \<noteq> None
        then map_option qv_mid (bt_get (cs_quotes snap) k) else bt_get (lg_marks l) k))"
  using settle_ledger [OF assms] by (simp add: markable_def quoted_def)

theorem settle_carries_only_before_expiry_witness:
  "(\<forall>l' ep. settle exact_ext (ledger_new 1000000) 1 1750291200000000000 [sample_leg]
     (sample_snapshot\<lparr>cs_ts := 1750291200000000000, cs_quotes := []\<rparr>) \<noteq> Inr (l', ep)) \<and>
   (\<exists>l' ep. settle exact_ext (ledger_new 1000000) 1 6 [sample_leg]
     (sample_snapshot\<lparr>cs_ts := 6, cs_quotes := []\<rparr>) = Inr (l', ep) \<and> bt_get (lg_marks l') spx_call = None)"
proof
  show "\<forall>l' ep. settle exact_ext (ledger_new 1000000) 1 1750291200000000000 [sample_leg]
     (sample_snapshot\<lparr>cs_ts := 1750291200000000000, cs_quotes := []\<rparr>) \<noteq> Inr (l', ep)"
  proof (intro allI notI)
    fix l' ep
    assume "settle exact_ext (ledger_new 1000000) 1 1750291200000000000 [sample_leg]
      (sample_snapshot\<lparr>cs_ts := 1750291200000000000, cs_quotes := []\<rparr>) = Inr (l', ep)"
    from settle_carries_only_before_expiry [OF this] show False
      by (auto simp: sample_leg_def spx_call_def bt_get_def expiration_ns_def res_simps)
  qed
  let ?s = "sample_snapshot\<lparr>cs_ts := 6, cs_quotes := []\<rparr>"
  obtain l' ep where s: "settle exact_ext (ledger_new 1000000) 1 6 [sample_leg] ?s = Inr (l', ep)"
    by (simp add: settle_def settle_leg_def resolve_mark_def sample_snapshot_def sample_leg_def
          spx_call_def expiration_ns_def bt_get_def bt_empty_def leg_value_def checked_defs
          try_into_def fits_def ledger_new_def Let_def)
  from settle_carries_only_before_expiry [OF s] s
  show "\<exists>l' ep. settle exact_ext (ledger_new 1000000) 1 6 [sample_leg] ?s = Inr (l', ep) \<and>
      bt_get (lg_marks l') spx_call = None"
    by (simp add: bt_get_def ledger_new_def bt_empty_def)
qed

section \<open>The drawdown\<close>

lemma f64_of_int_mono: "a \<le> b \<Longrightarrow> f64_of_int a \<le> f64_of_int b"
  by (simp add: f64_of_int_def f64_rnd_mono)

lemma drawdown_nonpos:
  assumes "e \<le> lg_peak l"
  shows "drawdown l e \<le> 0"
proof (cases "lg_peak l \<le> 0")
  case False
  then have "0 < f64_of_int (lg_peak l)" by (simp add: f64_of_int_def f64_rnd_pos)
  moreover have "f64_sub (f64_of_int e) (f64_of_int (lg_peak l)) \<le> 0"
    using f64_of_int_mono [OF assms] by (simp add: f64_sub_def f64_rnd_nonpos)
  ultimately show ?thesis
    by (simp add: drawdown_def f64_div_def f64_rnd_nonpos divide_nonpos_pos)
qed (simp add: drawdown_def)

lemma drawdown_at_peak: "drawdown l (lg_peak l) = 0"
  by (simp add: drawdown_def f64_sub_def f64_div_def)

text \<open>
  C14. The running peak never falls and is at least the equity, and the reported drawdown is
  never positive: zero at a new peak, computed in \<open>f64\<close> against the peak below it.
\<close>

theorem settle_peak_and_drawdown:
  assumes "settle X l step ts legs snap = Inr (l', ep)"
  shows "lg_peak l \<le> lg_peak l' \<and> ep_equity ep \<le> lg_peak l' \<and> ep_drawdown ep \<le> 0 \<and>
    (lg_peak l \<le> ep_equity ep \<longrightarrow> lg_peak l' = ep_equity ep \<and> ep_drawdown ep = 0)"
proof -
  note s = settle_ledger [OF assms]
  then have "ep_equity ep \<le> lg_peak l'" by simp
  moreover have "lg_peak l \<le> ep_equity ep \<Longrightarrow> ep_drawdown ep = 0"
    using s drawdown_at_peak [of l'] by simp
  ultimately show ?thesis using s drawdown_nonpos by simp
qed

theorem settle_peak_and_drawdown_witness:
  "\<exists>l' ep. settle exact_ext (ledger_new 1000000) 0 5 [sample_leg] sample_snapshot = Inr (l', ep) \<and>
     lg_peak l' = 1000000 \<and> ep_drawdown ep \<le> 0"
proof -
  obtain l' ep where
    s: "settle exact_ext (ledger_new 1000000) 0 5 [sample_leg] sample_snapshot = Inr (l', ep)"
    and "lg_peak l' = 1000000"
    by (simp add: settle_def settle_leg_def resolve_mark_def sample_snapshot_def sample_leg_def
          sample_quote_def bt_get_def leg_value_def checked_defs try_into_def fits_def
          ledger_new_def Let_def)
  with settle_peak_and_drawdown [OF s] show ?thesis by simp
qed

end
