(* ===== verification/Trade_Log.thy ===== *)
theory Trade_Log
  imports Ledger
begin

text \<open>
  The realised trade log (\<open>src/engine/tradelog.rs\<close>): every open leg with its remaining size,
  and one closed trade per closing fill, with its realised profit. The exit reason is a value
  of \<open>optionstratlib\<close> that the log only stores, so it is a type parameter.
\<close>

record 'e closed_trade =
  ct_trade_id :: trade_id
  ct_position_id :: position_id
  ct_contract :: contract_key
  ct_side :: side
  ct_quantity :: quantity
  ct_mult :: int
  ct_entry_premium :: price_cents
  ct_exit_price :: price_cents
  ct_close_fees :: cents
  ct_close_slippage :: cents
  ct_realized_pnl :: cents
  ct_entry_ts :: int
  ct_exit_ts :: int
  ct_exit_reason :: 'e

record open_leg =
  ol_trade_id :: trade_id
  ol_contract :: contract_key
  ol_side :: side
  ol_entry_premium :: price_cents
  ol_entry_ts :: int
  ol_remaining :: int

record 'e trade_log =
  tl_open :: "(position_id, open_leg) btmap"
  tl_closed :: "'e closed_trade list"

definition trade_log_new :: "'e trade_log" where
  "trade_log_new = \<lparr>tl_open = bt_empty, tl_closed = []\<rparr>"

definition record_open ::
    "position_id \<Rightarrow> trade_id \<Rightarrow> contract_key \<Rightarrow> side \<Rightarrow> quantity \<Rightarrow> price_cents \<Rightarrow> int
      \<Rightarrow> 'e trade_log \<Rightarrow> 'e trade_log" where
  "record_open pid tid c sd q premium ts t =
     t\<lparr>tl_open := bt_insert pid
         \<lparr>ol_trade_id = tid, ol_contract = c, ol_side = sd, ol_entry_premium = premium,
          ol_entry_ts = ts, ol_remaining = q\<rparr> (tl_open t)\<rparr>"

definition record_open_extend ::
    "position_id \<Rightarrow> quantity \<Rightarrow> price_cents \<Rightarrow> 'e trade_log \<Rightarrow> 'e trade_log res" where
  "record_open_extend pid added new_premium t =
     (case bt_get (tl_open t) pid of
        None \<Rightarrow> Inl (Execution (MsgExtendNotTracked pid))
      | Some leg \<Rightarrow>
          rbind (checked (checked_add U32 (ol_remaining leg) added)) (\<lambda>remaining.
          Inr (t\<lparr>tl_open := bt_insert pid
                   (leg\<lparr>ol_remaining := remaining, ol_entry_premium := new_premium\<rparr>) (tl_open t)\<rparr>)))"

definition realized_pnl_cents ::
    "side \<Rightarrow> price_cents \<Rightarrow> price_cents \<Rightarrow> quantity \<Rightarrow> int \<Rightarrow> cents \<Rightarrow> cents res" where
  "realized_pnl_cents sd entry exit q mult fees =
     rbind (checked (case sd of Long \<Rightarrow> checked_sub I128 exit entry
                              | Short \<Rightarrow> checked_sub I128 entry exit)) (\<lambda>per_contract.
     rbind (checked (Option.bind (checked_mul I128 per_contract q)
              (\<lambda>g. checked_mul I128 g mult))) (\<lambda>gross.
     rbind (checked (checked_sub I128 gross fees)) (\<lambda>net.
     checked (try_into I64 net))))"

definition record_close ::
    "position_id \<Rightarrow> price_cents \<Rightarrow> cents \<Rightarrow> cents \<Rightarrow> int \<Rightarrow> quantity \<Rightarrow> int \<Rightarrow> 'e
      \<Rightarrow> 'e trade_log \<Rightarrow> 'e trade_log res" where
  "record_close pid exit_price fees slippage exit_ts q mult reason t =
     rbind (ok_or (bt_get (tl_open t) pid) (Execution (MsgCloseNotTracked pid))) (\<lambda>leg.
     rbind (realized_pnl_cents (ol_side leg) (ol_entry_premium leg) exit_price q mult fees) (\<lambda>pnl.
     let t = t\<lparr>tl_closed := tl_closed t @
           [\<lparr>ct_trade_id = ol_trade_id leg, ct_position_id = pid, ct_contract = ol_contract leg,
             ct_side = ol_side leg, ct_quantity = q, ct_mult = mult,
             ct_entry_premium = ol_entry_premium leg, ct_exit_price = exit_price,
             ct_close_fees = fees, ct_close_slippage = slippage, ct_realized_pnl = pnl,
             ct_entry_ts = ol_entry_ts leg, ct_exit_ts = exit_ts, ct_exit_reason = reason\<rparr>]\<rparr>
     in if q \<ge> ol_remaining leg then Inr (t\<lparr>tl_open := bt_remove pid (tl_open t)\<rparr>)
        else rbind (checked (checked_sub U32 (ol_remaining leg) q)) (\<lambda>remaining.
             Inr (t\<lparr>tl_open := bt_insert pid (leg\<lparr>ol_remaining := remaining\<rparr>) (tl_open t)\<rparr>))))"

section \<open>Exact profit\<close>

text \<open>
  C19. The realised profit of a close is exactly the price move in the leg's favour times the
  closed size and the multiplier, less the fees; it fails exactly when that does not fit
  \<open>i64\<close>.
\<close>

theorem realized_pnl_exact:
  assumes "is_price entry" and "is_price exit" and "is_quantity q" and "is_quantity m"
    and "is_cents fees"
  shows "realized_pnl_cents sd entry exit q m fees =
    checked (try_into I64 (side_sign sd * (exit - entry) * q * m - fees))"
proof -
  define d where "d = side_sign sd * (exit - entry)"
  have d: "(case sd of Long \<Rightarrow> checked_sub I128 exit entry | Short \<Rightarrow> checked_sub I128 entry exit)
      = Some d"
    using assms(1,2) by (cases sd) (auto simp: d_def is_price_def checked_sub_def width_simps)
  have n: "Option.bind (checked_mul I128 d q) (\<lambda>g. checked_mul I128 g m) = try_into I128 (d * q * m)"
    using assms(3,4) by (intro checked_notional) (auto simp: is_quantity_def width_simps)
  have fees: "- 9223372036854775808 \<le> fees" "fees \<le> 9223372036854775807"
    using assms(5) by (auto simp: is_cents_def width_simps)
  show ?thesis
  proof (cases "fits I64 (d * q * m - fees)")
    case True
    with fees have "fits I128 (d * q * m)" "fits I128 (d * q * m - fees)"
      by (auto simp: width_simps)
    with True show ?thesis
      by (simp add: realized_pnl_cents_def d n checked_sub_def d_def [symmetric])
  next
    case False
    then show ?thesis
      by (auto simp: realized_pnl_cents_def d n checked_sub_def d_def [symmetric] try_into_def)
  qed
qed

theorem realized_pnl_exact_witness:
  "realized_pnl_cents Short 150 120 2 100 130 = Inr 5870 \<and>
   realized_pnl_cents Long 0 18446744073709551615 1 1 0 = Inl ArithmeticOverflow"
  using realized_pnl_exact [of 150 120 2 100 130 Short]
    realized_pnl_exact [of 0 18446744073709551615 1 1 0 Long]
  by (simp add: is_price_def is_quantity_def is_cents_def width_simps try_into_def)

section \<open>The open legs\<close>

lemma record_close_Inr:
  assumes "record_close pid p f sl ts q m r t = Inr t'"
  obtains leg pnl where "bt_get (tl_open t) pid = Some leg"
    and "realized_pnl_cents (ol_side leg) (ol_entry_premium leg) p q m f = Inr pnl"
    and "tl_closed t' = tl_closed t @
      [\<lparr>ct_trade_id = ol_trade_id leg, ct_position_id = pid, ct_contract = ol_contract leg,
        ct_side = ol_side leg, ct_quantity = q, ct_mult = m,
        ct_entry_premium = ol_entry_premium leg, ct_exit_price = p,
        ct_close_fees = f, ct_close_slippage = sl, ct_realized_pnl = pnl,
        ct_entry_ts = ol_entry_ts leg, ct_exit_ts = ts, ct_exit_reason = r\<rparr>]"
    and "bt_get (tl_open t') = (if q \<ge> ol_remaining leg then (bt_get (tl_open t))(pid := None)
      else (bt_get (tl_open t))(pid \<mapsto> leg\<lparr>ol_remaining := ol_remaining leg - q\<rparr>))"
  using assms
  by (fastforce simp: record_close_def res_simps Let_def checked_defs fun_eq_iff split: if_splits)

lemma record_open_get [simp]:
  "bt_get (tl_open (record_open pid tid c sd q premium ts t)) =
     (bt_get (tl_open t))(pid \<mapsto>
        \<lparr>ol_trade_id = tid, ol_contract = c, ol_side = sd, ol_entry_premium = premium,
          ol_entry_ts = ts, ol_remaining = q\<rparr>)"
  "tl_closed (record_open pid tid c sd q premium ts t) = tl_closed t"
  by (auto simp: record_open_def)

lemma record_open_extend_Inr:
  assumes "record_open_extend pid added premium t = Inr t'"
  obtains leg where "bt_get (tl_open t) pid = Some leg" and "fits U32 (ol_remaining leg + added)"
    and "tl_closed t' = tl_closed t"
    and "bt_get (tl_open t') = (bt_get (tl_open t))(pid \<mapsto>
      leg\<lparr>ol_remaining := ol_remaining leg + added, ol_entry_premium := premium\<rparr>)"
  using assms
  by (fastforce simp: record_open_extend_def res_simps checked_defs fun_eq_iff split: option.splits)

end
