(* ===== verification/Bundle_Collector.thy ===== *)
theory Bundle_Collector
  imports Ledger
begin

text \<open>
  The rows of the results bundle (\<open>src/engine/bundle_collector.rs\<close>): one record per fill,
  one snapshot per open leg and step, one terminal row per closed leg. The open legs' entry
  data are kept by position id; the exit reason is a stored value of \<open>optionstratlib\<close>.
\<close>

record fill_record =
  fr_fill :: fill
  fr_trade_id :: int
  fr_position_id :: int
  fr_order_id :: int
  fr_seq :: int

record 'e position_snapshot =
  ps_step :: int
  ps_ts :: int
  ps_position_id :: int
  ps_trade_id :: int
  ps_contract :: contract_key
  ps_side :: side
  ps_quantity :: int
  ps_avg_price :: int
  ps_mark :: int
  ps_unrealized :: int
  ps_stale :: bool
  ps_exit_reason :: "'e option"
  ps_open_at_end :: bool

record leg_meta =
  lm_trade_id :: trade_id
  lm_entry_premium :: price_cents
  lm_side :: side

record 'e bundle_rows =
  bd_fills :: "fill_record list"
  bd_positions :: "'e position_snapshot list"
  bd_open_legs :: "(position_id, leg_meta) btmap"

definition bundle_new :: "'e bundle_rows" where
  "bundle_new = \<lparr>bd_fills = [], bd_positions = [], bd_open_legs = bt_empty\<rparr>"

definition register_open_leg ::
    "position_id \<Rightarrow> trade_id \<Rightarrow> price_cents \<Rightarrow> side \<Rightarrow> 'e bundle_rows \<Rightarrow> 'e bundle_rows" where
  "register_open_leg pid tid avg_price sd b =
     b\<lparr>bd_open_legs := bt_insert pid
         \<lparr>lm_trade_id = tid, lm_entry_premium = avg_price, lm_side = sd\<rparr> (bd_open_legs b)\<rparr>"

definition record_open_fill ::
    "fill \<Rightarrow> order_id \<Rightarrow> trade_id \<Rightarrow> position_id \<Rightarrow> int \<Rightarrow> 'e bundle_rows \<Rightarrow> 'e bundle_rows" where
  "record_open_fill f oid tid pid sequence b =
     b\<lparr>bd_fills := bd_fills b @
         [\<lparr>fr_fill = f, fr_trade_id = tid, fr_position_id = pid, fr_order_id = oid,
           fr_seq = sequence\<rparr>]\<rparr>"

definition record_close_fill ::
    "fill \<Rightarrow> order_id \<Rightarrow> position_id \<Rightarrow> int \<Rightarrow> 'e bundle_rows \<Rightarrow> 'e bundle_rows res" where
  "record_close_fill f oid pid sequence b =
     rbind (ok_or (bt_get (bd_open_legs b) pid) (Execution (MsgBundleCloseNotOpen pid))) (\<lambda>leg.
     Inr (b\<lparr>bd_fills := bd_fills b @
         [\<lparr>fr_fill = f, fr_trade_id = lm_trade_id leg, fr_position_id = pid, fr_order_id = oid,
           fr_seq = sequence\<rparr>]\<rparr>))"

definition unrealized_cents ::
    "price_cents \<Rightarrow> price_cents \<Rightarrow> int \<Rightarrow> int \<Rightarrow> side \<Rightarrow> cents res" where
  "unrealized_cents mark entry q mult sd =
     rbind (checked (checked_sub I128 mark entry)) (\<lambda>diff.
     rbind (checked (Option.bind (checked_mul I128 diff q) (\<lambda>v.
              Option.bind (checked_mul I128 v mult) (\<lambda>v. checked_mul I128 v (side_sign sd))))) (\<lambda>scaled.
     checked (try_into I64 scaled)))"

definition record_close_terminal ::
    "contract_key \<Rightarrow> int \<Rightarrow> int \<Rightarrow> position_id \<Rightarrow> int \<Rightarrow> price_cents option \<Rightarrow> int \<Rightarrow> 'e
      \<Rightarrow> 'e bundle_rows \<Rightarrow> 'e bundle_rows res" where
  "record_close_terminal c step ts pid closed_q snapshot_mark mult reason b =
     rbind (ok_or (bt_get (bd_open_legs b) pid) (Execution (MsgBundleTerminalNotOpen pid))) (\<lambda>leg.
     let (mark, stale) = (case snapshot_mark of Some mid \<Rightarrow> (mid, False)
                          | None \<Rightarrow> (lm_entry_premium leg, True)) in
     rbind (unrealized_cents mark (lm_entry_premium leg) closed_q mult (lm_side leg)) (\<lambda>unrealized.
     Inr (b\<lparr>bd_positions := bd_positions b @
              [\<lparr>ps_step = step, ps_ts = ts, ps_position_id = pid, ps_trade_id = lm_trade_id leg,
                ps_contract = c, ps_side = lm_side leg, ps_quantity = closed_q,
                ps_avg_price = lm_entry_premium leg, ps_mark = mark, ps_unrealized = unrealized,
                ps_stale = stale, ps_exit_reason = Some reason, ps_open_at_end = False\<rparr>],
            bd_open_legs := bt_remove pid (bd_open_legs b)\<rparr>)))"

definition collect_mark :: "int \<Rightarrow> int \<Rightarrow> bool \<Rightarrow> position_mark \<Rightarrow> 'e bundle_rows \<Rightarrow> 'e bundle_rows res" where
  "collect_mark step ts open_at_end m b =
     rbind (ok_or (bt_get (bd_open_legs b) (pm_id m)) (Execution (MsgSnapshotNoOpen (pm_id m)))) (\<lambda>leg.
     rbind (unrealized_cents (pm_mark m) (lm_entry_premium leg) (pm_quantity m) (pm_mult m) (pm_side m))
       (\<lambda>unrealized.
     Inr (b\<lparr>bd_positions := bd_positions b @
              [\<lparr>ps_step = step, ps_ts = ts, ps_position_id = pm_id m, ps_trade_id = lm_trade_id leg,
                ps_contract = pm_contract m, ps_side = pm_side m, ps_quantity = pm_quantity m,
                ps_avg_price = lm_entry_premium leg, ps_mark = pm_mark m,
                ps_unrealized = unrealized, ps_stale = pm_stale m, ps_exit_reason = None,
                ps_open_at_end = open_at_end\<rparr>]\<rparr>)))"

definition collect_step ::
    "int \<Rightarrow> int \<Rightarrow> position_mark list \<Rightarrow> bool \<Rightarrow> 'e bundle_rows \<Rightarrow> 'e bundle_rows res" where
  "collect_step step ts marks open_at_end = fold_res (collect_mark step ts open_at_end) marks"

section \<open>Facts\<close>

lemma unrealized_exact:
  assumes "is_price mark" and "is_price entry" and "is_quantity q" and "is_quantity m"
  shows "unrealized_cents mark entry q m sd =
    checked (try_into I64 ((mark - entry) * q * m * side_sign sd))"
proof -
  have "fits I128 (mark - entry)"
    using assms by (auto simp: is_price_def width_simps)
  moreover have n: "Option.bind (checked_mul I128 (mark - entry) q) (\<lambda>v.
      Option.bind (checked_mul I128 v m) (\<lambda>v. checked_mul I128 v (side_sign sd))) =
    Option.bind (try_into I128 ((mark - entry) * q * m)) (\<lambda>v. checked_mul I128 v (side_sign sd))"
    using assms checked_notional [of q m "mark - entry"]
    by (simp add: is_quantity_def width_simps flip: bind_assoc)
  moreover have "fits I128 (d * side_sign sd)" "fits I128 d" if "fits I64 (d * side_sign sd)" for d
    using that by (cases sd; auto simp: width_simps)+
  ultimately show ?thesis
    by (auto simp: unrealized_cents_def checked_sub_def checked_mul_def try_into_def)
qed

lemma register_open_leg_get [simp]:
  "bt_get (bd_open_legs (register_open_leg pid tid p sd b)) =
     (bt_get (bd_open_legs b))(pid \<mapsto> \<lparr>lm_trade_id = tid, lm_entry_premium = p, lm_side = sd\<rparr>)"
  "bd_fills (register_open_leg pid tid p sd b) = bd_fills b"
  "bd_positions (register_open_leg pid tid p sd b) = bd_positions b"
  by (auto simp: register_open_leg_def)

lemma record_open_fill_simps [simp]:
  "bd_open_legs (record_open_fill f oid tid pid s b) = bd_open_legs b"
  "bd_positions (record_open_fill f oid tid pid s b) = bd_positions b"
  "map fr_fill (bd_fills (record_open_fill f oid tid pid s b)) = map fr_fill (bd_fills b) @ [f]"
  by (simp_all add: record_open_fill_def)

lemma record_close_fill_Inr:
  assumes "record_close_fill f oid pid s b = Inr b'"
  obtains leg where "bt_get (bd_open_legs b) pid = Some leg"
    and "b' = b\<lparr>bd_fills := bd_fills b @
         [\<lparr>fr_fill = f, fr_trade_id = lm_trade_id leg, fr_position_id = pid, fr_order_id = oid,
           fr_seq = s\<rparr>]\<rparr>"
  using assms by (auto simp: record_close_fill_def res_simps)

lemma record_close_terminal_Inr:
  assumes "record_close_terminal c step ts pid q sm mult r b = Inr b'"
  shows "bt_get (bd_open_legs b) pid \<noteq> None \<and> bd_fills b' = bd_fills b \<and>
    bt_get (bd_open_legs b') = (bt_get (bd_open_legs b))(pid := None)"
  using assms
  by (cases sm) (auto simp: record_close_terminal_def res_simps Let_def fun_eq_iff)

lemma collect_step_Inr:
  "collect_step step ts marks e b = Inr b' \<Longrightarrow>
     bd_fills b' = bd_fills b \<and> bd_open_legs b' = bd_open_legs b \<and>
     (\<exists>rows. bd_positions b' = bd_positions b @ rows \<and> map ps_position_id rows = map pm_id marks \<and>
        (\<forall>r \<in> set rows. ps_exit_reason r = None \<and> ps_open_at_end r = e \<and> ps_step r = step))"
proof (induction marks arbitrary: b)
  case Nil
  then show ?case by (auto simp: collect_step_def)
next
  case (Cons m ms)
  from Cons.prems obtain b1 where b1: "collect_mark step ts e m b = Inr b1"
    and rest: "collect_step step ts ms e b1 = Inr b'"
    by (auto simp: collect_step_def res_simps)
  from Cons.IH [OF rest] obtain rows where
    "bd_positions b' = bd_positions b1 @ rows" "map ps_position_id rows = map pm_id ms"
    "bd_fills b' = bd_fills b1" "bd_open_legs b' = bd_open_legs b1"
    "\<forall>r \<in> set rows. ps_exit_reason r = None \<and> ps_open_at_end r = e \<and> ps_step r = step"
    by blast
  with b1 show ?case
    by (auto simp: collect_mark_def res_simps intro: exI [of _ "_ # rows"])
qed

end
