(* ===== verification/Substrate.thy ===== *)
theory Substrate
  imports Ledger
begin

text \<open>
  The attribution substrate the engine emits (\<open>src/engine/substrate.rs\<close>): one record of
  scalars per step and, in one flat buffer, one sample per leg that was open at the
  beginning of the step.
\<close>

record leg_sample =
  ls_prior :: "unit_greeks option"
  ls_current_iv :: rat
  ls_quantity :: int
  ls_mult :: int
  ls_side :: side

record step_scalars =
  ss_step :: int
  ss_ts :: int
  ss_prior_ts :: int
  ss_underlying :: int
  ss_prior_underlying :: int
  ss_spread_capture :: int
  ss_fees :: int
  ss_step_pnl :: int
  ss_leg_count :: nat

record attribution_substrate =
  as_steps :: "step_scalars list"
  as_legs :: "leg_sample list"

record attribution_collector =
  ac_steps :: "step_scalars list"
  ac_legs :: "leg_sample list"
  ac_prev_ts :: "int option"
  ac_prev_underlying :: "int option"

definition attribution_collector_new :: attribution_collector where
  "attribution_collector_new =
     \<lparr>ac_steps = [], ac_legs = [], ac_prev_ts = None, ac_prev_underlying = None\<rparr>"

definition current_iv :: "chain_snapshot \<Rightarrow> position_mark \<Rightarrow> rat" where
  "current_iv snap m =
     (case bt_get (cs_quotes snap) (pm_contract m) of
        Some q \<Rightarrow> qv_iv q
      | None \<Rightarrow> unwrap_or 0 (map_option ug_iv (pm_prior m)))"

definition sample_of :: "chain_snapshot \<Rightarrow> position_mark \<Rightarrow> leg_sample" where
  "sample_of snap m = \<lparr>ls_prior = pm_prior m, ls_current_iv = current_iv snap m,
     ls_quantity = pm_quantity m, ls_mult = pm_mult m, ls_side = pm_side m\<rparr>"

definition collect ::
    "chain_snapshot \<Rightarrow> position_mark list \<Rightarrow> cents \<Rightarrow> cents \<Rightarrow> cents
      \<Rightarrow> attribution_collector \<Rightarrow> attribution_collector" where
  "collect snap marks spread_capture fees step_pnl c =
     c\<lparr>ac_legs := ac_legs c @ map (sample_of snap) marks,
       ac_steps := ac_steps c @
         [\<lparr>ss_step = cs_step snap, ss_ts = cs_ts snap,
           ss_prior_ts = unwrap_or (cs_ts snap) (ac_prev_ts c),
           ss_underlying = cs_price snap,
           ss_prior_underlying = unwrap_or (cs_price snap) (ac_prev_underlying c),
           ss_spread_capture = spread_capture, ss_fees = fees, ss_step_pnl = step_pnl,
           ss_leg_count = length marks\<rparr>],
       ac_prev_ts := Some (cs_ts snap), ac_prev_underlying := Some (cs_price snap)\<rparr>"

definition into_substrate :: "attribution_collector \<Rightarrow> attribution_substrate" where
  "into_substrate c = \<lparr>as_steps = ac_steps c, as_legs = ac_legs c\<rparr>"

section \<open>The invariant of the flat buffer\<close>

text \<open>The leg counts of the steps partition the buffer.\<close>

definition partitioned :: "attribution_substrate \<Rightarrow> bool" where
  "partitioned s \<longleftrightarrow> sum_list (map ss_leg_count (as_steps s)) = length (as_legs s)"

definition collector_inv :: "attribution_collector \<Rightarrow> bool" where
  "collector_inv c \<longleftrightarrow> partitioned (into_substrate c)"

lemma collector_inv_new [simp]: "collector_inv attribution_collector_new"
  by (simp add: collector_inv_def partitioned_def into_substrate_def attribution_collector_new_def)

lemma collector_inv_collect [simp]:
  "collector_inv c \<Longrightarrow> collector_inv (collect snap marks sc fees pnl c)"
  by (simp add: collector_inv_def partitioned_def into_substrate_def collect_def)

lemma collect_steps [simp]:
  "map ss_step_pnl (ac_steps (collect snap marks sc fees pnl c)) = map ss_step_pnl (ac_steps c) @ [pnl]"
  "map ss_fees (ac_steps (collect snap marks sc fees pnl c)) = map ss_fees (ac_steps c) @ [fees]"
  "map ss_spread_capture (ac_steps (collect snap marks sc fees pnl c)) =
     map ss_spread_capture (ac_steps c) @ [sc]"
  "length (ac_steps (collect snap marks sc fees pnl c)) = Suc (length (ac_steps c))"
  by (simp_all add: collect_def)

end
