(* ===== verification/Attribution.thy ===== *)
theory Attribution
  imports Substrate
begin

text \<open>
  The profit attribution (\<open>src/analytics/attribution.rs\<close>): every step's profit is split into
  theta, delta and vega terms, the captured spread, the fees, and a residual that closes the
  sum. The terms are computed in \<open>Decimal\<close> (a parameter) and rounded once to cents.
\<close>

definition NANOS_PER_DAY :: int where
  "NANOS_PER_DAY = 86400000000000"

definition DOLLARS_TO_CENTS :: int where
  "DOLLARS_TO_CENTS = 100"

definition IV_DECIMAL_TO_PP :: int where
  "IV_DECIMAL_TO_PP = 100"

definition RESIDUAL_WARN_FLOOR_CENTS :: int where
  "RESIDUAL_WARN_FLOOR_CENTS = 100"

record attribution_row =
  ar_step :: int
  ar_ts :: int
  ar_theta :: int
  ar_delta :: int
  ar_vega :: int
  ar_spread_capture :: int
  ar_fees :: int
  ar_residual :: int

definition mul3 :: "ext \<Rightarrow> rat \<Rightarrow> rat \<Rightarrow> rat \<Rightarrow> rat res" where
  "mul3 X a b c = ok_or (Option.bind (dec_mul X a b) (\<lambda>ab. dec_mul X ab c)) ArithmeticOverflow"

definition mul4 :: "ext \<Rightarrow> rat \<Rightarrow> rat \<Rightarrow> rat \<Rightarrow> rat \<Rightarrow> rat res" where
  "mul4 X a b c d = rbind (mul3 X a b c) (\<lambda>abc. ok_or (dec_mul X abc d) ArithmeticOverflow)"

definition round_to_cents :: "ext \<Rightarrow> rat \<Rightarrow> int res" where
  "round_to_cents X v = ok_or (dec_to X I64 (dec_round0 X v)) ArithmeticOverflow"

definition signed_weight :: "leg_sample \<Rightarrow> rat res" where
  "signed_weight leg =
     rbind (checked (checked_mul U64 (ls_quantity leg) (ls_mult leg))) (\<lambda>w.
     Inr (case ls_side leg of Long \<Rightarrow> of_int w | Short \<Rightarrow> - of_int w))"

definition leg_delta_iv_pp :: "ext \<Rightarrow> leg_sample \<Rightarrow> unit_greeks \<Rightarrow> rat res" where
  "leg_delta_iv_pp X leg greeks =
     ok_or (Option.bind (dec_sub X (ls_current_iv leg) (ug_iv greeks))
              (\<lambda>d. dec_mul X d (of_int IV_DECIMAL_TO_PP))) ArithmeticOverflow"

definition step_delta_t_days :: "ext \<Rightarrow> step_scalars \<Rightarrow> rat res" where
  "step_delta_t_days X s =
     rbind (checked (checked_sub I64 (ss_ts s) (ss_prior_ts s))) (\<lambda>diff.
     ok_or (dec_div X (of_int diff) (of_int NANOS_PER_DAY)) ArithmeticOverflow)"

definition step_delta_s_cents :: "step_scalars \<Rightarrow> rat res" where
  "step_delta_s_cents s =
     rbind (checked (try_into I64 (ss_underlying s))) (\<lambda>now.
     rbind (checked (try_into I64 (ss_prior_underlying s))) (\<lambda>prior.
     rbind (checked (checked_sub I64 now prior)) (\<lambda>diff. Inr (of_int diff))))"

text \<open>The loop over the legs, carrying the three sums.\<close>

definition attribute_leg ::
    "ext \<Rightarrow> rat \<Rightarrow> rat \<Rightarrow> leg_sample \<Rightarrow> rat \<times> rat \<times> rat \<Rightarrow> (rat \<times> rat \<times> rat) res" where
  "attribute_leg X delta_t delta_s leg = (\<lambda>(theta, delta, vega).
     case ls_prior leg of
       None \<Rightarrow> Inr (theta, delta, vega)
     | Some greeks \<Rightarrow>
         rbind (signed_weight leg) (\<lambda>w.
         rbind (mul4 X (ug_theta greeks) delta_t (of_int DOLLARS_TO_CENTS) w) (\<lambda>theta_leg.
         rbind (ok_or (dec_add X theta theta_leg) ArithmeticOverflow) (\<lambda>theta.
         rbind (mul3 X (ug_delta greeks) delta_s w) (\<lambda>delta_leg.
         rbind (ok_or (dec_add X delta delta_leg) ArithmeticOverflow) (\<lambda>delta.
         rbind (leg_delta_iv_pp X leg greeks) (\<lambda>iv_pp.
         rbind (mul4 X (ug_vega greeks) iv_pp (of_int DOLLARS_TO_CENTS) w) (\<lambda>vega_leg.
         rbind (ok_or (dec_add X vega vega_leg) ArithmeticOverflow) (\<lambda>vega.
         Inr (theta, delta, vega))))))))))"

definition attribute_step :: "ext \<Rightarrow> step_scalars \<Rightarrow> leg_sample list \<Rightarrow> attribution_row res" where
  "attribute_step X s legs =
     rbind (step_delta_t_days X s) (\<lambda>delta_t.
     rbind (step_delta_s_cents s) (\<lambda>delta_s.
     rbind (fold_res (attribute_leg X delta_t delta_s) legs (0, 0, 0)) (\<lambda>(theta_dec, delta_dec, vega_dec).
     rbind (round_to_cents X theta_dec) (\<lambda>theta.
     rbind (round_to_cents X delta_dec) (\<lambda>delta.
     rbind (round_to_cents X vega_dec) (\<lambda>vega.
     rbind (checked (checked_add I64 theta delta)) (\<lambda>a.
     rbind (checked (checked_add I64 a vega)) (\<lambda>a.
     rbind (checked (checked_add I64 a (ss_spread_capture s))) (\<lambda>a.
     rbind (checked (checked_sub I64 a (ss_fees s))) (\<lambda>attributed.
     rbind (checked (checked_sub I64 (ss_step_pnl s) attributed)) (\<lambda>residual.
     Inr \<lparr>ar_step = ss_step s, ar_ts = ss_ts s, ar_theta = theta, ar_delta = delta,
          ar_vega = vega, ar_spread_capture = ss_spread_capture s, ar_fees = ss_fees s,
          ar_residual = residual\<rparr>)))))))))))"

text \<open>The walk over the steps, each taking its slice of the flat buffer.\<close>

definition attribute_next ::
    "ext \<Rightarrow> leg_sample list \<Rightarrow> step_scalars \<Rightarrow> nat \<times> attribution_row list
      \<Rightarrow> (nat \<times> attribution_row list) res" where
  "attribute_next X legs s = (\<lambda>(offset, rows).
     rbind (checked (checked_add Usize (int offset) (int (ss_leg_count s)))) (\<lambda>e.
     rbind (ok_or (slice offset (nat e) legs)
              (Bundle (MsgAttributionSlice offset (nat e) (ss_step s)))) (\<lambda>sl.
     rbind (attribute_step X s sl) (\<lambda>row.
     Inr (nat e, rows @ [row])))))"

definition attribute :: "ext \<Rightarrow> attribution_substrate \<Rightarrow> attribution_row list res" where
  "attribute X sub =
     rbind (fold_res (attribute_next X (as_legs sub)) (as_steps sub) (0, [])) (\<lambda>(_, rows). Inr rows)"

text \<open>The advisory warning of a large residual; logging changes no row.\<close>

definition residual_is_notable :: "int \<Rightarrow> int \<Rightarrow> bool" where
  "residual_is_notable residual step_pnl \<longleftrightarrow>
     \<bar>residual\<bar> > \<bar>RESIDUAL_WARN_FLOOR_CENTS\<bar> \<and> \<bar>residual\<bar> > \<bar>step_pnl\<bar>"

section \<open>The identity\<close>

text \<open>The total a row attributes.\<close>

definition row_total :: "attribution_row \<Rightarrow> int" where
  "row_total r = ar_theta r + ar_delta r + ar_vega r + ar_spread_capture r - ar_fees r + ar_residual r"

lemma attribute_step_Inr:
  assumes "attribute_step X s legs = Inr r"
  shows "row_total r = ss_step_pnl s \<and> ar_step r = ss_step s \<and> ar_ts r = ss_ts s \<and>
    ar_spread_capture r = ss_spread_capture s \<and> ar_fees r = ss_fees s"
  using assms by (auto simp: attribute_step_def res_simps checked_defs row_total_def)

lemma attribute_steps_Inr:
  "fold_res (attribute_next X legs) steps (offset, rows) = Inr (offset', rows') \<Longrightarrow>
     \<exists>new. rows' = rows @ new \<and>
       list_all2 (\<lambda>r s. row_total r = ss_step_pnl s \<and> ar_step r = ss_step s \<and> ar_ts r = ss_ts s \<and>
         ar_spread_capture r = ss_spread_capture s \<and> ar_fees r = ss_fees s) new steps"
proof (induction steps arbitrary: offset rows)
  case (Cons s steps)
  then obtain st where st: "attribute_next X legs s (offset, rows) = Inr st"
    and rest: "fold_res (attribute_next X legs) steps st = Inr (offset', rows')"
    by (auto simp: res_simps)
  from st obtain o1 row sl where "attribute_step X s sl = Inr row" and o1: "st = (o1, rows @ [row])"
    by (auto simp: attribute_next_def res_simps)
  with attribute_step_Inr [of X s sl row] Cons.IH [OF rest [unfolded o1]] show ?case
    by (auto intro: exI [of _ "row # _"])
qed simp

lemma attribution_rows:
  assumes "attribute X sub = Inr rows"
  shows "map row_total rows = map ss_step_pnl (as_steps sub) \<and>
    map ar_step rows = map ss_step (as_steps sub) \<and> map ar_ts rows = map ss_ts (as_steps sub) \<and>
    map ar_spread_capture rows = map ss_spread_capture (as_steps sub) \<and>
    map ar_fees rows = map ss_fees (as_steps sub)"
proof -
  from assms obtain e where
    "fold_res (attribute_next X (as_legs sub)) (as_steps sub) (0, []) = Inr (e, rows)"
    by (auto simp: attribute_def res_simps)
  from attribute_steps_Inr [OF this] show ?thesis
    by (auto simp: list_all2_conv_all_nth intro!: nth_equalityI)
qed

text \<open>
  C15. Attribution loses nothing: there is one row for each step, in order, and in every row
  the theta, delta, vega and spread terms, less the fees, plus the residual are exactly the
  step's profit in cents, whatever the rounding of the terms.
\<close>

theorem attribution_exact:
  assumes "attribute X sub = Inr rows"
  shows "map row_total rows = map ss_step_pnl (as_steps sub) \<and>
    map ar_step rows = map ss_step (as_steps sub) \<and> map ar_ts rows = map ss_ts (as_steps sub) \<and>
    map ar_spread_capture rows = map ss_spread_capture (as_steps sub) \<and>
    map ar_fees rows = map ss_fees (as_steps sub)"
  by (rule attribution_rows [OF assms])

definition sample_substrate :: attribution_substrate where
  "sample_substrate = \<lparr>
     as_steps = [\<lparr>ss_step = 0, ss_ts = 5, ss_prior_ts = 5, ss_underlying = 500000,
       ss_prior_underlying = 500000, ss_spread_capture = - 400, ss_fees = 130,
       ss_step_pnl = - 530, ss_leg_count = 0\<rparr>,
      \<lparr>ss_step = 1, ss_ts = 86400000000005, ss_prior_ts = 5, ss_underlying = 500700,
       ss_prior_underlying = 500000, ss_spread_capture = 0, ss_fees = 0,
       ss_step_pnl = - 3000, ss_leg_count = 1\<rparr>],
     as_legs = [\<lparr>ls_prior = Some \<lparr>ug_delta = 1 / 2, ug_gamma = 0, ug_theta = - 1 / 10,
         ug_vega = 3 / 10, ug_iv = 1 / 5\<rparr>, ls_current_iv = 21 / 100, ls_quantity = 2,
       ls_mult = 100, ls_side = Short\<rparr>]\<rparr>"

lemma sample_attribution:
  "attribute exact_ext sample_substrate = Inr
     [\<lparr>ar_step = 0, ar_ts = 5, ar_theta = 0, ar_delta = 0, ar_vega = 0,
       ar_spread_capture = - 400, ar_fees = 130, ar_residual = 0\<rparr>,
      \<lparr>ar_step = 1, ar_ts = 86400000000005, ar_theta = 2000, ar_delta = - 70000, ar_vega = - 6000,
       ar_spread_capture = 0, ar_fees = 0, ar_residual = 71000\<rparr>]"
  by (simp add: attribute_def attribute_next_def attribute_step_def attribute_leg_def
        sample_substrate_def step_delta_t_days_def step_delta_s_cents_def signed_weight_def
        leg_delta_iv_pp_def mul3_def mul4_def round_to_cents_def checked_defs fits_def slice_def
        dec_bound_def NANOS_PER_DAY_def DOLLARS_TO_CENTS_def IV_DECIMAL_TO_PP_def)

theorem attribution_exact_witness:
  "\<exists>rows. attribute exact_ext sample_substrate = Inr rows \<and> map row_total rows = [- 530, - 3000]"
  using sample_attribution attribution_exact [OF sample_attribution]
  by (simp add: sample_substrate_def)

section \<open>Every step finds its legs\<close>

lemma attribute_next_slice:
  assumes "offset + ss_leg_count s \<le> length legs" and "int (length legs) \<le> w_max Usize"
  shows "attribute_next X legs s (offset, rows) =
    rbind (attribute_step X s (take (ss_leg_count s) (drop offset legs)))
      (\<lambda>row. Inr (offset + ss_leg_count s, rows @ [row]))"
proof -
  have "checked_add Usize (int offset) (int (ss_leg_count s)) = Some (int (offset + ss_leg_count s))"
    using assms by (simp add: checked_add_def width_simps)
  moreover have "slice offset (offset + ss_leg_count s) legs =
      Some (take (ss_leg_count s) (drop offset legs))"
    using assms by (simp add: slice_def)
  ultimately show ?thesis by (simp add: attribute_next_def nat_int_add)
qed

lemma attribute_steps_in_range:
  assumes "offset + sum_list (map ss_leg_count steps) \<le> length legs"
    and "int (length legs) \<le> w_max Usize"
    and "fold_res (attribute_next X legs) steps (offset, rows) = Inl e"
  shows "\<exists>s sl. s \<in> set steps \<and> attribute_step X s sl = Inl e"
  using assms
proof (induction steps arbitrary: offset rows)
  case (Cons s steps)
  from Cons.prems(1,2) have here: "attribute_next X legs s (offset, rows) =
    rbind (attribute_step X s (take (ss_leg_count s) (drop offset legs)))
      (\<lambda>row. Inr (offset + ss_leg_count s, rows @ [row]))"
    by (intro attribute_next_slice) auto
  show ?case
  proof (cases "attribute_step X s (take (ss_leg_count s) (drop offset legs))")
    case (Inr row)
    with Cons.prems here have "fold_res (attribute_next X legs) steps
        (offset + ss_leg_count s, rows @ [row]) = Inl e" by simp
    from Cons.IH [OF _ _ this] Cons.prems(1,2) show ?thesis by auto
  qed (use Cons.prems here in auto)
qed simp

lemma round_to_cents_Inl: "round_to_cents X v = Inl e \<Longrightarrow> e = ArithmeticOverflow"
  by (auto simp: round_to_cents_def res_simps)

lemma attribute_leg_Inl:
  assumes "attribute_leg X dt ds leg acc = Inl e"
  shows "e = ArithmeticOverflow"
  using assms
  by (cases acc) (auto simp: attribute_leg_def res_simps signed_weight_def mul4_def mul3_def
      leg_delta_iv_pp_def split: option.splits)

lemma attribute_step_Inl:
  assumes "attribute_step X s legs = Inl e"
  shows "e = ArithmeticOverflow"
  using assms
  by (auto simp: attribute_step_def res_simps step_delta_t_days_def step_delta_s_cents_def
      dest!: fold_res_Inl_elem attribute_leg_Inl round_to_cents_Inl)

text \<open>
  C16. On a substrate whose steps partition its leg buffer, as the engine's collector
  builds it, attribution can only fail by arithmetic overflow: the slice of a step is always
  inside the buffer.
\<close>

theorem attribution_slices_in_range:
  assumes "partitioned sub" and "int (length (as_legs sub)) \<le> w_max Usize"
    and "attribute X sub = Inl e"
  shows "e = ArithmeticOverflow"
proof -
  from assms(3) have "fold_res (attribute_next X (as_legs sub)) (as_steps sub) (0, []) = Inl e"
    by (auto simp: attribute_def res_simps)
  from attribute_steps_in_range [OF _ assms(2) this] assms(1)
  show ?thesis by (auto simp: partitioned_def dest: attribute_step_Inl)
qed

theorem attribution_slices_in_range_witness:
  "attribute exact_ext (sample_substrate\<lparr>as_steps :=
     [(as_steps sample_substrate ! 1)\<lparr>ss_underlying := 18446744073709551615\<rparr>]\<rparr>) = Inl ArithmeticOverflow"
proof -
  let ?sub = "sample_substrate\<lparr>as_steps :=
     [(as_steps sample_substrate ! 1)\<lparr>ss_underlying := 18446744073709551615\<rparr>]\<rparr>"
  have "partitioned ?sub" "int (length (as_legs ?sub)) \<le> w_max Usize"
    by (simp_all add: partitioned_def sample_substrate_def)
  moreover obtain e where "attribute exact_ext ?sub = Inl e"
    by (simp add: attribute_def attribute_next_def attribute_step_def sample_substrate_def
        step_delta_t_days_def step_delta_s_cents_def checked_defs fits_def slice_def
        dec_bound_def NANOS_PER_DAY_def try_into_def)
  ultimately show ?thesis using attribution_slices_in_range by blast
qed

end
