(* ===== verification/Execution_Seam.thy ===== *)
theory Execution_Seam
  imports Ledger Run_Config
begin

text \<open>
  The execution seam (\<open>src/execution/mod.rs\<close>): the interface of a fill model, the optional
  grouping a model reports for a step's fills, and the two helpers every model assembles its
  fills with. A model is a record of its operations over its own state; \<open>fill\<close> appends to
  the engine's buffer.
\<close>

record fill_group =
  fg_command :: nat
  fg_count :: int

record carry_group =
  cg_order_id :: order_id
  cg_count :: int

record 'x execution_model =
  ex_fill :: "order_command list \<Rightarrow> order_id list \<Rightarrow> chain_snapshot \<Rightarrow> fill list \<Rightarrow> 'x \<Rightarrow> ('x \<times> fill list) res"
  ex_carry :: "'x \<Rightarrow> carry_group list"
  ex_groups :: "'x \<Rightarrow> fill_group list option"
  ex_mode :: "'x \<Rightarrow> execution_mode"

datatype fee_charge = FirstFill | LaterFill

record fill_draft =
  fd_ts :: int
  fd_step :: int
  fd_contract :: contract_key
  fd_side :: side
  fd_quantity :: quantity
  fd_price :: price_cents
  fd_decision_mid :: price_cents

definition fee_for_fill :: "fee_schedule \<Rightarrow> quantity \<Rightarrow> fee_charge \<Rightarrow> cents res" where
  "fee_for_fill schedule q charge =
     rbind (checked (checked_mul U64 (fs_per_contract schedule) q)) (\<lambda>per_contract_total.
     rbind (case charge of
              FirstFill \<Rightarrow> checked (checked_add U64 per_contract_total (fs_per_order schedule))
            | LaterFill \<Rightarrow> Inr per_contract_total) (\<lambda>total.
     checked (try_into I64 total)))"

definition assemble_fill ::
    "fill_draft \<Rightarrow> execution_mode \<Rightarrow> fee_schedule \<Rightarrow> fee_charge \<Rightarrow> fill res" where
  "assemble_fill d mode schedule charge =
     rbind (slippage_cents (fd_price d) (fd_decision_mid d) (fd_quantity d) (fd_side d)) (\<lambda>slippage.
     rbind (fee_for_fill schedule (fd_quantity d) charge) (\<lambda>fees.
     Inr \<lparr>fl_ts = fd_ts d, fl_step = fd_step d, fl_contract = fd_contract d, fl_side = fd_side d,
          fl_quantity = fd_quantity d, fl_price = fd_price d, fl_fees = fees,
          fl_slippage = slippage, fl_mode = mode\<rparr>))"

definition wf_fees :: "fee_schedule \<Rightarrow> bool" where
  "wf_fees s \<longleftrightarrow> fits U64 (fs_per_contract s) \<and> fits U64 (fs_per_order s)"

definition wf_draft :: "fill_draft \<Rightarrow> bool" where
  "wf_draft d \<longleftrightarrow> fits I64 (fd_ts d) \<and> fits U32 (fd_step d) \<and> is_quantity (fd_quantity d) \<and>
     is_price (fd_price d) \<and> is_price (fd_decision_mid d)"

text \<open>
  C25. A fill's fee is the per-contract fee times the quantity, plus the per-order fee on the
  order's first fill only; the computation fails exactly when that sum is not an \<open>i64\<close>.
\<close>

theorem fee_exact:
  assumes "wf_fees s" and "is_quantity q"
  shows "fee_for_fill s q charge =
    checked (try_into I64 (fs_per_contract s * q +
      (case charge of FirstFill \<Rightarrow> fs_per_order s | LaterFill \<Rightarrow> 0)))"
proof -
  have "0 \<le> fs_per_contract s * q" "0 \<le> fs_per_order s"
    using assms by (auto simp: wf_fees_def is_quantity_def width_simps)
  then show ?thesis
    by (cases charge)
      (auto simp: fee_for_fill_def checked_mul_def checked_add_def try_into_def width_simps)
qed

theorem fee_exact_witness:
  "fee_for_fill \<lparr>fs_per_contract = 65, fs_per_order = 100\<rparr> 2 FirstFill = Inr 230 \<and>
   fee_for_fill \<lparr>fs_per_contract = 65, fs_per_order = 100\<rparr> 2 LaterFill = Inr 130"
  using fee_exact [of "\<lparr>fs_per_contract = 65, fs_per_order = 100\<rparr>" 2 FirstFill]
    fee_exact [of "\<lparr>fs_per_contract = 65, fs_per_order = 100\<rparr>" 2 LaterFill]
  by (simp add: wf_fees_def is_quantity_def width_simps)

lemma fee_for_fill_cents: "fee_for_fill s q c = Inr fee \<Longrightarrow> is_cents fee"
  by (auto simp: fee_for_fill_def is_cents_def res_simps)

lemma slippage_cents_cents: "slippage_cents p m q s = Inr c \<Longrightarrow> is_cents c"
  by (auto simp: slippage_cents_def is_cents_def res_simps Let_def)

lemma assemble_fill_Inr:
  assumes "assemble_fill d mode s c = Inr f"
  shows "fl_ts f = fd_ts d \<and> fl_step f = fd_step d \<and> fl_contract f = fd_contract d \<and>
    fl_side f = fd_side d \<and> fl_quantity f = fd_quantity d \<and> fl_price f = fd_price d \<and>
    fl_mode f = mode \<and> is_cents (fl_fees f) \<and> is_cents (fl_slippage f)"
  using assms
  by (auto simp: assemble_fill_def res_simps dest: fee_for_fill_cents slippage_cents_cents)

lemma assemble_fill_wf: "wf_draft d \<Longrightarrow> assemble_fill d mode s c = Inr f \<Longrightarrow> wf_fill f"
  using assemble_fill_Inr [of d mode s c f] by (auto simp: wf_fill_def wf_draft_def)

section \<open>The interface\<close>

text \<open>
  What the engine relies on when it walks the fills of a model. Without a report the fills
  correspond to the submits one to one. With a report the carried fills come first, each group
  names a command of the step, and the groups account for every fill.
\<close>

definition submits :: "order_command list \<Rightarrow> order_intent list" where
  "submits cmds = concat (map (\<lambda>c. case c of Submit oi \<Rightarrow> [oi] | _ \<Rightarrow> []) cmds)"

lemma submits_simps [simp]:
  "submits [] = []"
  "submits (Submit oi # cmds) = oi # submits cmds"
  "submits (Cancel i # cmds) = submits cmds"
  "submits (Replace i oi # cmds) = submits cmds"
  by (simp_all add: submits_def)

locale execution_model =
  fixes fill_op :: "order_command list \<Rightarrow> order_id list \<Rightarrow> chain_snapshot \<Rightarrow> fill list \<Rightarrow> 'x \<Rightarrow> ('x \<times> fill list) res"
    and carry_op :: "'x \<Rightarrow> carry_group list"
    and groups_op :: "'x \<Rightarrow> fill_group list option"
    and ready :: "'x \<Rightarrow> bool"
  assumes appends:
      "ready x \<Longrightarrow> fill_op cmds ids snap buf x = Inr (x', buf') \<Longrightarrow> \<exists>new. buf' = buf @ new"
    and keeps_ready: "ready x \<Longrightarrow> fill_op cmds ids snap buf x = Inr (x', buf') \<Longrightarrow> ready x'"
    and accounts:
      "ready x \<Longrightarrow> fill_op cmds ids snap buf x = Inr (x', buf @ new) \<Longrightarrow>
        (case groups_op x' of
           None \<Rightarrow> carry_op x' = [] \<and> length new = length (submits cmds)
         | Some gs \<Rightarrow> int (length new) =
             sum_list (map cg_count (carry_op x')) + sum_list (map fg_count gs))"
begin

lemma fills_of_positional:
  assumes "ready x" and "fill_op cmds ids snap [] x = Inr (x', fills)" and "groups_op x' = None"
  shows "carry_op x' = [] \<and> length fills = length (submits cmds)"
  using accounts [OF assms(1), of cmds ids snap "[]" x' fills] assms(2,3) by simp

end

end
