(* ===== verification/Naive_Fill.thy ===== *)
theory Naive_Fill
  imports Execution_Seam
begin

text \<open>
  The naive fill model (\<open>src/execution/naive.rs\<close>): every submit fills once, in full, at the
  snapshot's mid moved against the order by the configured slippage; cancels and replaces do
  nothing, since no order ever rests.
\<close>

record naive_fill =
  nf_slippage :: slippage_model
  nf_fees :: fee_schedule

definition naive_fill_new :: "slippage_model \<Rightarrow> fee_schedule \<Rightarrow> naive_fill" where
  "naive_fill_new s f = \<lparr>nf_slippage = s, nf_fees = f\<rparr>"

definition spread_fraction_offset_cents :: "ext \<Rightarrow> price_cents \<Rightarrow> price_cents \<Rightarrow> rat \<Rightarrow> int res" where
  "spread_fraction_offset_cents X bid ask fraction =
     rbind (ok_or (checked_sub U64 ask bid) (CrossedQuote bid ask)) (\<lambda>spread.
     rbind (ok_or (dec_mul X (of_int spread) fraction) ArithmeticOverflow) (\<lambda>scaled.
     rbind (ok_or (dec_div X scaled 2) ArithmeticOverflow) (\<lambda>half.
     let rounded = dec_round0 X half in
     ok_or (dec_to X U64 rounded) (Execution (MsgSpreadFractionRange rounded)))))"

definition adverse_offset_cents :: "ext \<Rightarrow> naive_fill \<Rightarrow> quote_view \<Rightarrow> quantity \<Rightarrow> int res" where
  "adverse_offset_cents X m quote q =
     (case nf_slippage m of
        NoSlippage \<Rightarrow> Inr 0
      | FixedCents c \<Rightarrow> Inr c
      | SpreadFraction f \<Rightarrow> spread_fraction_offset_cents X (qv_bid quote) (qv_ask quote) f
      | SizeProportional c \<Rightarrow> checked (checked_mul U64 c q))"

definition naive_fill_price :: "price_cents \<Rightarrow> side \<Rightarrow> int \<Rightarrow> price_cents res" where
  "naive_fill_price reference sd offset =
     (let signed = (case sd of Long \<Rightarrow> reference + offset | Short \<Rightarrow> reference - offset)
      in checked (try_into U64 (max signed 0)))"

definition fill_intent ::
    "ext \<Rightarrow> naive_fill \<Rightarrow> order_intent \<Rightarrow> chain_snapshot \<Rightarrow> fill res" where
  "fill_intent X m oi snap =
     rbind (ok_or (bt_get (cs_quotes snap) (oi_contract oi))
       (Execution (MsgNotQuoted (ck_strike (oi_contract oi)) (cs_step snap)))) (\<lambda>quote.
     rbind (adverse_offset_cents X m quote (oi_quantity oi)) (\<lambda>offset.
     rbind (naive_fill_price (qv_mid quote) (oi_side oi) offset) (\<lambda>price.
     assemble_fill \<lparr>fd_ts = cs_ts snap, fd_step = cs_step snap, fd_contract = oi_contract oi,
       fd_side = oi_side oi, fd_quantity = oi_quantity oi, fd_price = price,
       fd_decision_mid = oi_decision_mid oi\<rparr> Naive (nf_fees m) FirstFill)))"

definition naive_command ::
    "ext \<Rightarrow> naive_fill \<Rightarrow> chain_snapshot \<Rightarrow> order_command \<Rightarrow> fill list \<Rightarrow> fill list res" where
  "naive_command X m snap cmd buf =
     (case cmd of
        Submit oi \<Rightarrow> rbind (fill_intent X m oi snap) (\<lambda>f. Inr (buf @ [f]))
      | Cancel _ \<Rightarrow> Inr buf
      | Replace _ _ \<Rightarrow> Inr buf)"

definition naive_fill_op ::
    "ext \<Rightarrow> order_command list \<Rightarrow> order_id list \<Rightarrow> chain_snapshot \<Rightarrow> fill list \<Rightarrow> naive_fill
      \<Rightarrow> (naive_fill \<times> fill list) res" where
  "naive_fill_op X cmds ids snap buf m =
     rbind (fold_res (naive_command X m snap) cmds buf) (\<lambda>buf. Inr (m, buf))"

definition naive_model :: "ext \<Rightarrow> naive_fill execution_model" where
  "naive_model X = \<lparr>ex_fill = naive_fill_op X, ex_carry = (\<lambda>_. []), ex_groups = (\<lambda>_. None),
     ex_mode = (\<lambda>_. Naive)\<rparr>"

section \<open>One fill for each submit\<close>

text \<open>The fill a submit gets.\<close>

definition naive_outcome :: "ext \<Rightarrow> naive_fill \<Rightarrow> chain_snapshot \<Rightarrow> order_intent \<Rightarrow> fill \<Rightarrow> bool" where
  "naive_outcome X m snap oi f \<longleftrightarrow>
     (\<exists>quote offset. bt_get (cs_quotes snap) (oi_contract oi) = Some quote \<and>
        adverse_offset_cents X m quote (oi_quantity oi) = Inr offset \<and>
        fl_price f = max 0 (qv_mid quote + side_sign (oi_side oi) * offset)) \<and>
     fl_contract f = oi_contract oi \<and> fl_side f = oi_side oi \<and>
     fl_quantity f = oi_quantity oi \<and> fl_ts f = cs_ts snap \<and> fl_step f = cs_step snap \<and>
     fl_mode f = Naive \<and> is_price (fl_price f)"

lemma naive_fill_price_Inr:
  "naive_fill_price r sd off = Inr p \<Longrightarrow> p = max 0 (r + side_sign sd * off) \<and> is_price p"
  by (cases sd) (auto simp: naive_fill_price_def is_price_def res_simps Let_def max.commute)

lemma fill_intent_outcome:
  assumes "fill_intent X m oi snap = Inr f"
  shows "naive_outcome X m snap oi f"
  using assms
  by (fastforce simp: fill_intent_def naive_outcome_def res_simps
      dest: assemble_fill_Inr naive_fill_price_Inr)

lemma naive_commands_Inr:
  "fold_res (naive_command X m snap) cmds buf = Inr buf' \<Longrightarrow>
     \<exists>new. buf' = buf @ new \<and> list_all2 (naive_outcome X m snap) (submits cmds) new"
proof (induction cmds arbitrary: buf)
  case (Cons cmd cmds)
  then obtain b where b: "naive_command X m snap cmd buf = Inr b"
    and rest: "fold_res (naive_command X m snap) cmds b = Inr buf'"
    by (auto simp: res_simps)
  from Cons.IH [OF rest] obtain new where new: "buf' = b @ new"
    "list_all2 (naive_outcome X m snap) (submits cmds) new" by blast
  show ?case
  proof (cases cmd)
    case (Submit oi)
    with b obtain f where "fill_intent X m oi snap = Inr f" and "b = buf @ [f]"
      by (auto simp: naive_command_def res_simps)
    with new Submit show ?thesis by (auto simp: fill_intent_outcome intro: exI [of _ "f # new"])
  qed (use b new in \<open>auto simp: naive_command_def\<close>)
qed simp

text \<open>
  C22. The naive model gives each submit exactly one fill, in the order of the commands, for
  its full quantity, at the mid moved against the order by the slippage and floored at zero;
  cancels and replaces produce nothing and the model's configuration does not change.
\<close>

theorem naive_one_fill_per_submit:
  assumes "ex_fill (naive_model X) cmds ids snap [] m = Inr (m', fills)"
  shows "m' = m \<and> list_all2 (naive_outcome X m snap) (submits cmds) fills"
  using assms naive_commands_Inr [of X m snap cmds "[]"]
  by (auto simp: naive_model_def naive_fill_op_def res_simps)

definition sample_naive :: naive_fill where
  "sample_naive = naive_fill_new (FixedCents 5) \<lparr>fs_per_contract = 65, fs_per_order = 100\<rparr>"

definition sample_intent :: order_intent where
  "sample_intent = \<lparr>oi_contract = spx_call, oi_action = Open, oi_side = Short, oi_quantity = 2,
     oi_limit = None, oi_tif = Ioc, oi_decision_mid = 120\<rparr>"

theorem naive_one_fill_per_submit_witness:
  "\<exists>f. ex_fill (naive_model exact_ext) [Cancel 3, Submit sample_intent] [] sample_snapshot []
      sample_naive = Inr (sample_naive, [f]) \<and> fl_price f = 115"
proof -
  obtain m' fills where r: "ex_fill (naive_model exact_ext) [Cancel 3, Submit sample_intent] []
      sample_snapshot [] sample_naive = Inr (m', fills)"
    by (simp add: naive_model_def naive_fill_op_def naive_command_def fill_intent_def
        sample_intent_def sample_snapshot_def sample_quote_def bt_get_def sample_naive_def
        naive_fill_new_def adverse_offset_cents_def naive_fill_price_def assemble_fill_def
        slippage_cents_def fee_for_fill_def checked_defs fits_def)
  from naive_one_fill_per_submit [OF r] r show ?thesis
    by (auto simp: naive_outcome_def list_all2_Cons1 adverse_offset_cents_def sample_naive_def
        naive_fill_new_def sample_intent_def sample_snapshot_def sample_quote_def bt_get_def)
qed

interpretation naive: execution_model "ex_fill (naive_model X)" "ex_carry (naive_model X)"
    "ex_groups (naive_model X)" "\<lambda>_. True" for X
proof unfold_locales
  fix cmds ids snap buf x x' buf'
  assume "ex_fill (naive_model X) cmds ids snap buf x = Inr (x', buf')"
  then show "\<exists>new. buf' = buf @ new"
    by (auto simp: naive_model_def naive_fill_op_def res_simps dest!: naive_commands_Inr)
next
  fix cmds ids snap buf x x' new
  assume "ex_fill (naive_model X) cmds ids snap buf x = Inr (x', buf @ new)"
  then show "case ex_groups (naive_model X) x' of
      None \<Rightarrow> ex_carry (naive_model X) x' = [] \<and> length new = length (submits cmds)
    | Some gs \<Rightarrow> int (length new) =
        sum_list (map cg_count (ex_carry (naive_model X) x')) + sum_list (map fg_count gs)"
    by (auto simp: naive_model_def naive_fill_op_def res_simps
        dest!: naive_commands_Inr list_all2_lengthD)
qed simp

section \<open>The price\<close>

text \<open>
  C23. A naive fill never beats the mid: a buy pays at least the mid, a sell receives at most
  the mid and never less than zero, and the slippage recorded against the mid of the fill's
  own snapshot is never negative.
\<close>

theorem naive_price_adverse:
  assumes "is_price r" and "0 \<le> off" and "naive_fill_price r sd off = Inr p"
  shows "(case sd of Long \<Rightarrow> r \<le> p \<and> p = r + off | Short \<Rightarrow> 0 \<le> p \<and> p \<le> r \<and> r - off \<le> p) \<and>
    0 \<le> (p - r) * side_sign sd"
  using assms naive_fill_price_Inr [OF assms(3)]
  by (cases sd) (auto simp: is_price_def width_simps)

theorem naive_price_adverse_witness: "naive_fill_price 3 Short 5 = Inr 0 \<and> (0 - 3) * side_sign Short \<ge> 0"
proof -
  have "naive_fill_price 3 Short 5 = Inr 0" by (simp add: naive_fill_price_def width_simps)
  with naive_price_adverse [of 3 5 Short 0] show ?thesis by (simp add: is_price_def width_simps)
qed

end
