(* ===== verification/Engine_Books.thy ===== *)
theory Engine_Books
  imports Trade_Log Bundle_Collector Execution_Seam
begin

text \<open>
  The books a step's fills update, and the operations on them
  (\<open>src/engine/backtest.rs\<close>): the id counters, the order registry, the volume-weighted
  average of an order's fills, opening, extending and reducing a leg. The exit reasons are
  values of \<open>optionstratlib\<close>; \<open>reason_api\<close> names the two constructors the engine uses.
\<close>

section \<open>Ids\<close>

record id_counters =
  ic_position :: int
  ic_order :: int
  ic_trade :: int

definition id_counters_new :: id_counters where
  "id_counters_new = \<lparr>ic_position = 1, ic_order = 1, ic_trade = 1\<rparr>"

definition mint_position :: "id_counters \<Rightarrow> (id_counters \<times> position_id) res" where
  "mint_position ids =
     rbind (checked (checked_add U64 (ic_position ids) 1)) (\<lambda>n.
     Inr (ids\<lparr>ic_position := n\<rparr>, ic_position ids))"

definition mint_order :: "id_counters \<Rightarrow> (id_counters \<times> order_id) res" where
  "mint_order ids =
     rbind (checked (checked_add U64 (ic_order ids) 1)) (\<lambda>n.
     Inr (ids\<lparr>ic_order := n\<rparr>, ic_order ids))"

definition mint_trade :: "id_counters \<Rightarrow> (id_counters \<times> trade_id) res" where
  "mint_trade ids =
     rbind (checked (checked_add U64 (ic_trade ids) 1)) (\<lambda>n.
     Inr (ids\<lparr>ic_trade := n\<rparr>, ic_trade ids))"

definition mint_for ::
    "order_command \<Rightarrow> id_counters \<times> order_id list \<Rightarrow> (id_counters \<times> order_id list) res" where
  "mint_for cmd = (\<lambda>(ids, scratch).
     case cmd of
       Cancel _ \<Rightarrow> Inr (ids, scratch)
     | _ \<Rightarrow> rbind (mint_order ids) (\<lambda>(ids, oid). Inr (ids, scratch @ [oid])))"

definition mint_submit_ids ::
    "order_command list \<Rightarrow> id_counters \<Rightarrow> (id_counters \<times> order_id list) res" where
  "mint_submit_ids cmds ids = fold_res mint_for cmds (ids, [])"

section \<open>Exit reasons\<close>

record 'e reason_api =
  er_manual :: 'e
  er_other :: "string \<Rightarrow> 'e"

record 'e close_reasons =
  cr_exits_end :: nat
  cr_on_end_start :: nat
  cr_policy :: 'e

definition reason_for :: "'e reason_api \<Rightarrow> 'e close_reasons \<Rightarrow> nat \<Rightarrow> 'e" where
  "reason_for R cr idx =
     (if idx < cr_exits_end cr then cr_policy cr
      else if idx \<ge> cr_on_end_start cr then er_other R ''end_of_data''
      else er_manual R)"

section \<open>The order registry\<close>

record 'e pending_entry =
  pe_pending :: pending_order
  pe_trade :: "trade_id option"
  pe_position :: "position_id option"
  pe_fills :: int
  pe_reason :: "'e option"

type_synonym 'e registry = "(order_id, 'e pending_entry) btmap"

definition register_pending ::
    "order_id \<Rightarrow> order_intent \<Rightarrow> quantity \<Rightarrow> int \<Rightarrow> trade_id option \<Rightarrow> position_id option
      \<Rightarrow> 'e option \<Rightarrow> 'e registry \<Rightarrow> 'e registry" where
  "register_pending oid oi remaining fills_so_far tid pid reason pending =
     bt_insert oid \<lparr>pe_pending = \<lparr>po_id = oid, po_intent = oi\<lparr>oi_quantity := remaining\<rparr>\<rparr>,
       pe_trade = tid, pe_position = pid, pe_fills = fills_so_far, pe_reason = reason\<rparr> pending"

definition rebuild_pending_view :: "'e registry \<Rightarrow> pending_order list" where
  "rebuild_pending_view pending = map pe_pending (bt_values pending)"

section \<open>The average of an order's fills\<close>

record fill_aggregate =
  fa_quantity :: quantity
  fa_vwap :: price_cents
  fa_fees :: cents
  fa_slippage :: cents

definition vwap_cents :: "int \<Rightarrow> int \<Rightarrow> price_cents res" where
  "vwap_cents notional total_qty =
     (if total_qty = 0 then Inl (Execution MsgZeroQuantityAverage)
      else let quotient = notional div total_qty; remainder = notional mod total_qty in
        rbind (checked (checked_mul U128 remainder 2)) (\<lambda>twice_rem.
        rbind (if twice_rem < total_qty then Inr quotient
               else if twice_rem > total_qty then checked (checked_add U128 quotient 1)
               else if quotient mod 2 = 0 then Inr quotient
               else checked (checked_add U128 quotient 1)) (\<lambda>rounded.
        checked (try_into U64 rounded))))"

definition aggregate_fill ::
    "fill \<Rightarrow> int \<times> int \<times> int \<times> int \<Rightarrow> (int \<times> int \<times> int \<times> int) res" where
  "aggregate_fill f = (\<lambda>(qty, notional, fees, slippage).
     rbind (checked (checked_add U64 qty (fl_quantity f))) (\<lambda>qty.
     rbind (checked (checked_mul U128 (fl_price f) (fl_quantity f))) (\<lambda>leg_notional.
     rbind (checked (checked_add U128 notional leg_notional)) (\<lambda>notional.
     rbind (checked (checked_add I64 fees (fl_fees f))) (\<lambda>fees.
     rbind (checked (checked_add I64 slippage (fl_slippage f))) (\<lambda>slippage.
     Inr (qty, notional, fees, slippage)))))))"

definition aggregate_fills :: "fill list \<Rightarrow> fill_aggregate res" where
  "aggregate_fills fills =
     rbind (fold_res aggregate_fill fills (0, 0, 0, 0)) (\<lambda>(total_qty, notional, fees, slippage).
     rbind (checked (try_into U32 total_qty)) (\<lambda>q32.
     rbind (quantity_new q32) (\<lambda>quantity.
     rbind (vwap_cents notional total_qty) (\<lambda>vwap.
     Inr \<lparr>fa_quantity = quantity, fa_vwap = vwap, fa_fees = fees, fa_slippage = slippage\<rparr>))))"

section \<open>The inventory\<close>

definition reduce_leg ::
    "open_position list \<Rightarrow> position_id \<Rightarrow> quantity \<Rightarrow> (open_position list \<times> bool) res" where
  "reduce_leg inventory pid close_qty =
     rbind (ok_or (position_of (\<lambda>leg. op_id leg = pid) inventory) (Execution (MsgCloseNotOpen pid))) (\<lambda>idx.
     rbind (ok_or (if idx < length inventory then Some (inventory ! idx) else None)
              (Execution MsgLegVanished)) (\<lambda>leg.
     if close_qty > op_quantity leg
     then Inl (Execution (MsgCloseExceeds close_qty (op_quantity leg) pid))
     else if close_qty = op_quantity leg then Inr (remove_at idx inventory, True)
     else rbind (quantity_new (op_quantity leg - close_qty)) (\<lambda>remaining.
          Inr (inventory[idx := leg\<lparr>op_quantity := remaining\<rparr>], False))))"

definition carry_notional :: "fill \<Rightarrow> int \<Rightarrow> int res" where
  "carry_notional f acc =
     rbind (checked (checked_mul U128 (fl_price f) (fl_quantity f))) (\<lambda>leg_notional.
     checked (checked_add U128 acc leg_notional))"

definition extend_open_leg ::
    "open_position list \<Rightarrow> position_id \<Rightarrow> fill list \<Rightarrow> fill_aggregate \<Rightarrow> open_position list res" where
  "extend_open_leg inventory pid order_fills agg =
     (case position_of (\<lambda>leg. op_id leg = pid) inventory of
        None \<Rightarrow> Inl (Execution (MsgExtensionNotOpen pid))
      | Some idx \<Rightarrow>
          let leg = inventory ! idx in
          rbind (checked (checked_mul U128 (op_entry_premium leg) (op_quantity leg))) (\<lambda>old_notional.
          rbind (fold_res carry_notional order_fills 0) (\<lambda>added_notional.
          rbind (checked (checked_add U64 (op_quantity leg) (fa_quantity agg))) (\<lambda>total_qty.
          rbind (checked (checked_add U128 old_notional added_notional)) (\<lambda>total_notional.
          rbind (checked (try_into U32 total_qty)) (\<lambda>q32.
          rbind (quantity_new q32) (\<lambda>quantity.
          rbind (vwap_cents total_notional total_qty) (\<lambda>vwap.
          Inr (inventory[idx := leg\<lparr>op_quantity := quantity, op_entry_premium := vwap\<rparr>])))))))))"

section \<open>The average is the nearest cent\<close>

lemma round_half_even_quotient:
  assumes "0 < (q :: int)"
  shows "round_half_even (of_int n / of_int q) =
    (if 2 * (n mod q) < q then n div q
     else if 2 * (n mod q) > q then n div q + 1
     else if (n div q) mod 2 = 0 then n div q else n div q + 1)"
proof -
  have fl: "\<lfloor>of_int n / (of_int q :: rat)\<rfloor> = n div q"
    by (simp add: floor_divide_of_int_eq)
  have "(of_int n :: rat) = of_int (q * (n div q) + n mod q)" by simp
  then have n: "(of_int n :: rat) = of_int q * of_int (n div q) + of_int (n mod q)"
    by (simp only: of_int_add of_int_mult)
  have q: "(0 :: rat) < of_int q" using assms by simp
  then have r: "of_int n / (of_int q :: rat) - of_int (n div q) = of_int (n mod q) / of_int q"
    unfolding n by (simp add: add_divide_distrib)
  have "of_int (n mod q) / (of_int q :: rat) < 1 / 2 \<longleftrightarrow> of_int (2 * (n mod q)) < (of_int q :: rat)"
    using q by (simp add: pos_divide_less_eq mult.commute)
  then have "of_int (n mod q) / (of_int q :: rat) < 1 / 2 \<longleftrightarrow> 2 * (n mod q) < q"
    by (simp only: of_int_less_iff)
  moreover have "1 / 2 < of_int (n mod q) / (of_int q :: rat) \<longleftrightarrow> (of_int q :: rat) < of_int (2 * (n mod q))"
    using q by (simp add: pos_less_divide_eq mult.commute)
  then have "1 / 2 < of_int (n mod q) / (of_int q :: rat) \<longleftrightarrow> q < 2 * (n mod q)"
    by (simp only: of_int_less_iff)
  ultimately show ?thesis
    by (simp only: round_half_even_def fl r Let_def even_iff_mod_2_eq_zero)
qed

text \<open>
  C21. The average premium of an order is its notional divided by its quantity, rounded to the
  nearest cent with ties to the even cent, computed without any overflow inside; it fails
  only when the rounded average is not a \<open>u64\<close>.
\<close>

theorem vwap_half_even:
  assumes "fits U128 n" and "fits U64 q" and "q \<noteq> 0"
  shows "vwap_cents n q = checked (try_into U64 (round_half_even (of_int n / of_int q)))"
proof -
  have q: "0 < q" "q \<le> 18446744073709551615" using assms(2,3) by (auto simp: width_simps)
  have n: "0 \<le> n" using assms(1) by (simp add: width_simps)
  have rem: "0 \<le> n mod q" "n mod q < q" using q by simp_all
  have "fits U128 (n mod q * 2)" using q rem by (simp add: width_simps)
  moreover have "n div q + 1 \<le> 340282366920938463463374607431768211455"
    if "q \<le> 2 * (n mod q)"
  proof -
    have "q * (n div q) = n - n mod q" by (simp add: minus_mod_eq_mult_div)
    moreover have "1 * (n div q) \<le> q * (n div q)"
      using q n by (intro mult_right_mono) (auto simp: pos_imp_zdiv_nonneg_iff)
    ultimately show ?thesis using that q assms(1) by (simp add: width_simps)
  qed
  moreover have "0 \<le> n div q" using n q by (simp add: pos_imp_zdiv_nonneg_iff)
  ultimately show ?thesis
    using q by (simp add: vwap_cents_def Let_def round_half_even_quotient checked_mul_def
        checked_add_def mult.commute [of "n mod q"] width_simps)
qed

theorem vwap_half_even_witness:
  "vwap_cents 365 2 = Inr 182 \<and> vwap_cents 367 2 = Inr 184"
proof -
  have r: "round_half_even (of_int 365 / of_int 2) = 182" "round_half_even (of_int 367 / of_int 2) = 184"
    using round_half_even_quotient [of 2 365] round_half_even_quotient [of 2 367] by simp_all
  show ?thesis
    using vwap_half_even [of 365 2] vwap_half_even [of 367 2] unfolding r
    by (simp add: width_simps)
qed

section \<open>The aggregate of an order's fills\<close>

definition total_quantity :: "fill list \<Rightarrow> int" where
  "total_quantity fills = sum_list (map fl_quantity fills)"

definition total_notional :: "fill list \<Rightarrow> int" where
  "total_notional fills = sum_list (map (\<lambda>f. fl_price f * fl_quantity f) fills)"

lemma total_simps [simp]:
  "total_quantity [] = 0" "total_quantity (f # fs) = fl_quantity f + total_quantity fs"
  "total_notional [] = 0"
  "total_notional (f # fs) = fl_price f * fl_quantity f + total_notional fs"
  by (simp_all add: total_quantity_def total_notional_def)

lemma aggregate_loop:
  "fold_res aggregate_fill fs (q, n, c, s) = Inr (q', n', c', s') \<Longrightarrow>
     q' = q + total_quantity fs \<and> n' = n + total_notional fs \<and>
     c' = c + sum_list (map fl_fees fs) \<and> s' = s + sum_list (map fl_slippage fs) \<and>
     (fits U64 q \<longrightarrow> fits U64 q') \<and> (fits U128 n \<longrightarrow> fits U128 n')"
proof (induction fs arbitrary: q n c s)
  case (Cons f fs)
  then obtain st where st: "aggregate_fill f (q, n, c, s) = Inr st"
    and rest: "fold_res aggregate_fill fs st = Inr (q', n', c', s')"
    by (auto simp: res_simps)
  from st have st': "st = (q + fl_quantity f, n + fl_price f * fl_quantity f, c + fl_fees f,
      s + fl_slippage f)" "fits U64 (q + fl_quantity f)" "fits U128 (n + fl_price f * fl_quantity f)"
    by (auto simp: aggregate_fill_def res_simps checked_defs)
  from Cons.IH [OF rest [unfolded st'(1)]] st'(2,3) show ?case by auto
qed simp

lemma aggregate_fills_Inr:
  assumes "aggregate_fills fs = Inr a"
  shows "fa_quantity a = total_quantity fs \<and> fits U32 (fa_quantity a) \<and> fa_quantity a \<noteq> 0 \<and>
    fa_fees a = sum_list (map fl_fees fs) \<and> fa_slippage a = sum_list (map fl_slippage fs) \<and>
    vwap_cents (total_notional fs) (total_quantity fs) = Inr (fa_vwap a) \<and>
    fits U128 (total_notional fs) \<and> fits U64 (total_quantity fs)"
proof -
  from assms obtain q n c s where l: "fold_res aggregate_fill fs (0, 0, 0, 0) = Inr (q, n, c, s)"
    by (auto simp: aggregate_fills_def res_simps)
  with assms show ?thesis
    using aggregate_loop [OF l]
    by (auto simp: aggregate_fills_def res_simps quantity_new_def width_simps split: if_splits)
qed

lemma price_bounds_notional:
  "(\<forall>f \<in> set fs. lo \<le> fl_price f \<and> fl_price f \<le> hi \<and> 0 \<le> fl_quantity f) \<Longrightarrow>
     lo * total_quantity fs \<le> total_notional fs \<and> total_notional fs \<le> hi * total_quantity fs"
proof (induction fs)
  case (Cons f fs)
  then have "lo * fl_quantity f \<le> fl_price f * fl_quantity f"
    "fl_price f * fl_quantity f \<le> hi * fl_quantity f"
    by (auto intro: mult_right_mono)
  with Cons show ?case by (simp add: distrib_left)
qed simp

text \<open>
  C20. The aggregate of an order's fills has the summed quantity, fees and slippage, and a
  premium that is the notional over the quantity rounded half to even; the premium always
  lies between the lowest and the highest price the order filled at.
\<close>

theorem aggregate_exact:
  assumes "\<forall>f \<in> set fs. is_quantity (fl_quantity f)" and "aggregate_fills fs = Inr a"
  shows "fa_quantity a = total_quantity fs \<and> fa_fees a = sum_list (map fl_fees fs) \<and>
    fa_slippage a = sum_list (map fl_slippage fs) \<and>
    fa_vwap a = round_half_even (of_int (total_notional fs) / of_int (total_quantity fs)) \<and>
    Min (fl_price ` set fs) \<le> fa_vwap a \<and> fa_vwap a \<le> Max (fl_price ` set fs)"
proof -
  note agg = aggregate_fills_Inr [OF assms(2)]
  then have q0: "total_quantity fs \<noteq> 0" by auto
  with agg have "checked (try_into U64 (round_half_even
      (of_int (total_notional fs) / of_int (total_quantity fs)))) = Inr (fa_vwap a)"
    using vwap_half_even [of "total_notional fs" "total_quantity fs"] by metis
  then have vwap: "fa_vwap a = round_half_even (of_int (total_notional fs) / of_int (total_quantity fs))"
    by (simp add: res_simps)
  have q: "(0 :: rat) < of_int (total_quantity fs)" using agg q0 by (simp add: width_simps)
  define lo where "lo = Min (fl_price ` set fs)"
  define hi where "hi = Max (fl_price ` set fs)"
  have "\<forall>f \<in> set fs. lo \<le> fl_price f \<and> fl_price f \<le> hi \<and> 0 \<le> fl_quantity f"
    using assms(1) by (auto simp: lo_def hi_def is_quantity_def width_simps)
  from price_bounds_notional [OF this]
  have "of_int (lo * total_quantity fs) \<le> (of_int (total_notional fs) :: rat)"
    "(of_int (total_notional fs) :: rat) \<le> of_int (hi * total_quantity fs)"
    by (simp_all only: of_int_le_iff)
  then have "of_int lo \<le> of_int (total_notional fs) / (of_int (total_quantity fs) :: rat)"
    "of_int (total_notional fs) / (of_int (total_quantity fs) :: rat) \<le> of_int hi"
    using q by (simp_all add: pos_le_divide_eq pos_divide_le_eq)
  from this [THEN round_half_even_mono] show ?thesis
    using agg vwap by (simp add: lo_def hi_def)
qed

theorem aggregate_exact_witness:
  "\<exists>a. aggregate_fills [sample_fill, sample_fill\<lparr>fl_price := 121, fl_quantity := 1\<rparr>] = Inr a \<and>
     fa_quantity a = 3 \<and> fa_vwap a \<le> 121 \<and> 120 \<le> fa_vwap a"
proof -
  let ?fs = "[sample_fill, sample_fill\<lparr>fl_price := 121, fl_quantity := 1\<rparr>]"
  obtain a where a: "aggregate_fills ?fs = Inr a"
    by (simp add: aggregate_fills_def aggregate_fill_def sample_fill_def checked_defs fits_def
        quantity_new_def vwap_cents_def)
  have "\<forall>f \<in> set ?fs. is_quantity (fl_quantity f)"
    by (simp add: sample_fill_def is_quantity_def width_simps)
  from aggregate_exact [OF this a] a show ?thesis by (simp add: sample_fill_def)
qed

end
