(* ===== verification/Engine_Fills.thy ===== *)
theory Engine_Fills
  imports Engine_Books
begin

text \<open>
  The correlation pass of a step (\<open>apply_step_fills\<close> of \<open>src/engine/backtest.rs\<close>): the
  fills of the execution model are matched to the resting orders and the commands they belong
  to, and move the inventory, the ledger, the trade log, the bundle rows and the order
  registry. \<open>books\<close> is what the pass updates; \<open>walk\<close> is its cursor over the fills and groups.
\<close>

record 'e books =
  bk_inventory :: "open_position list"
  bk_ids :: id_counters
  bk_ledger :: ledger
  bk_log :: "'e trade_log"
  bk_bundle :: "'e bundle_rows"
  bk_pending :: "'e registry"

section \<open>Booking the fills of one order\<close>

definition level_seq :: "int \<Rightarrow> nat \<Rightarrow> int res" where
  "level_seq base level =
     rbind (checked (try_into U32 (int level))) (\<lambda>l. checked (checked_add U32 base l))"

definition book_open_fill ::
    "int \<Rightarrow> order_id \<Rightarrow> trade_id \<Rightarrow> position_id \<Rightarrow> int \<Rightarrow> nat \<times> fill \<Rightarrow> 'e books \<Rightarrow> 'e books res" where
  "book_open_fill mult oid tid pid base = (\<lambda>(level, f) b.
     rbind (level_seq base level) (\<lambda>fill_seq.
     rbind (apply_fill (bk_ledger b) f mult) (\<lambda>l.
     Inr (b\<lparr>bk_bundle := record_open_fill f oid tid pid fill_seq (bk_bundle b),
            bk_ledger := l\<rparr>))))"

definition book_close_fill ::
    "int \<Rightarrow> order_id \<Rightarrow> position_id \<Rightarrow> int \<Rightarrow> nat \<times> fill \<Rightarrow> 'e books \<Rightarrow> 'e books res" where
  "book_close_fill mult oid pid base = (\<lambda>(level, f) b.
     rbind (level_seq base level) (\<lambda>fill_seq.
     rbind (record_close_fill f oid pid fill_seq (bk_bundle b)) (\<lambda>bundle.
     rbind (apply_fill (bk_ledger b) f mult) (\<lambda>l.
     Inr (b\<lparr>bk_bundle := bundle, bk_ledger := l\<rparr>)))))"

text \<open>A new leg: a fresh position in the inventory, the trade log and the bundle.\<close>

definition open_new_leg ::
    "trade_id \<Rightarrow> fill \<Rightarrow> fill_aggregate \<Rightarrow> int \<Rightarrow> 'e books \<Rightarrow> ('e books \<times> position_id) res" where
  "open_new_leg tid first agg ts b =
     rbind (mint_position (bk_ids b)) (\<lambda>(ids, pid).
     Inr (b\<lparr>bk_ids := ids,
            bk_inventory := bk_inventory b @
              [\<lparr>op_id = pid, op_contract = fl_contract first, op_side = fl_side first,
                op_quantity = fa_quantity agg, op_entry_premium = fa_vwap agg\<rparr>],
            bk_log := record_open pid tid (fl_contract first) (fl_side first) (fa_quantity agg)
                        (fa_vwap agg) ts (bk_log b),
            bk_bundle := register_open_leg pid tid (fa_vwap agg) (fl_side first) (bk_bundle b)\<rparr>,
          pid))"

text \<open>A close: reduce the leg, log the realised trade, book the fills, and end the leg's rows.\<close>

definition close_position ::
    "chain_snapshot \<Rightarrow> int \<Rightarrow> int \<Rightarrow> order_id \<Rightarrow> position_id \<Rightarrow> 'e \<Rightarrow> int \<Rightarrow> fill list \<Rightarrow> fill
      \<Rightarrow> fill_aggregate \<Rightarrow> 'e books \<Rightarrow> 'e books res" where
  "close_position snap mult ts oid pid reason base fills first agg b =
     rbind (reduce_leg (bk_inventory b) pid (fa_quantity agg)) (\<lambda>(inventory, full_close).
     rbind (record_close pid (fa_vwap agg) (fa_fees agg) (fa_slippage agg) ts (fa_quantity agg)
              mult reason (bk_log b)) (\<lambda>log.
     let snapshot_mark = map_option qv_mid (bt_get (cs_quotes snap) (fl_contract first)) in
     rbind (fold_res (book_close_fill mult oid pid base) (enumerate 0 fills)
              (b\<lparr>bk_inventory := inventory, bk_log := log\<rparr>)) (\<lambda>b.
     if full_close
     then rbind (record_close_terminal (fl_contract first) (fl_step first) (fl_ts first) pid
                   (fa_quantity agg) snapshot_mark mult reason (bk_bundle b)) (\<lambda>bundle.
          Inr (b\<lparr>bk_bundle := bundle\<rparr>))
     else Inr b)))"

section \<open>Carried fills\<close>

definition mint_if_none ::
    "trade_id option \<Rightarrow> id_counters \<Rightarrow> (id_counters \<times> trade_id) res" where
  "mint_if_none tid ids = (case tid of Some t \<Rightarrow> Inr (ids, t) | None \<Rightarrow> mint_trade ids)"

definition extend_leg ::
    "trade_id \<Rightarrow> position_id \<Rightarrow> fill list \<Rightarrow> fill \<Rightarrow> fill_aggregate \<Rightarrow> 'e books \<Rightarrow> 'e books res" where
  "extend_leg tid pid fills first agg b =
     rbind (extend_open_leg (bk_inventory b) pid fills agg) (\<lambda>inventory.
     rbind (ok_or (find (\<lambda>l. op_id l = pid) inventory) (Execution (MsgExtensionLost pid))) (\<lambda>leg.
     rbind (record_open_extend pid (fa_quantity agg) (op_entry_premium leg) (bk_log b)) (\<lambda>log.
     Inr (b\<lparr>bk_inventory := inventory, bk_log := log,
            bk_bundle := register_open_leg pid tid (op_entry_premium leg) (fl_side first)
                           (bk_bundle b)\<rparr>))))"

definition carry_open ::
    "int \<Rightarrow> int \<Rightarrow> order_id \<Rightarrow> fill list \<Rightarrow> fill \<Rightarrow> fill_aggregate \<Rightarrow> 'e pending_entry \<Rightarrow> 'e books
      \<Rightarrow> ('e books \<times> 'e pending_entry) res" where
  "carry_open mult ts oid fills first agg entry b =
     rbind (mint_if_none (pe_trade entry) (bk_ids b)) (\<lambda>(ids, tid).
     let b = b\<lparr>bk_ids := ids\<rparr>; entry = entry\<lparr>pe_trade := Some tid\<rparr> in
     rbind (case pe_position entry of
              Some existing \<Rightarrow>
                rbind (extend_leg tid existing fills first agg b) (\<lambda>b. Inr (b, existing))
            | None \<Rightarrow> open_new_leg tid first agg ts b) (\<lambda>(b, pid).
     rbind (fold_res (book_open_fill mult oid tid pid (pe_fills entry)) (enumerate 0 fills) b) (\<lambda>b.
     Inr (b, entry\<lparr>pe_position := Some pid\<rparr>))))"

definition first_fill :: "fill list \<Rightarrow> fill option" where
  "first_fill fills = (case fills of [] \<Rightarrow> None | f # _ \<Rightarrow> Some f)"

definition apply_carry_group ::
    "'e reason_api \<Rightarrow> chain_snapshot \<Rightarrow> int \<Rightarrow> int \<Rightarrow> order_id \<Rightarrow> fill list \<Rightarrow> 'e books \<Rightarrow> 'e books res" where
  "apply_carry_group R snap mult ts oid fills b =
     rbind (ok_or (bt_get (bk_pending b) oid) (Execution (MsgCarryNotPending oid))) (\<lambda>entry.
     rbind (aggregate_fills fills) (\<lambda>agg.
     rbind (ok_or (first_fill fills) (Execution MsgCarryEmpty)) (\<lambda>first.
     rbind (checked (try_into U32 (int (length fills)))) (\<lambda>count.
     rbind (case oi_action (po_intent (pe_pending entry)) of
              Open \<Rightarrow> carry_open mult ts oid fills first agg entry b
            | Close pid \<Rightarrow>
                rbind (close_position snap mult ts oid pid (unwrap_or (er_manual R) (pe_reason entry))
                         (pe_fills entry) fills first agg b) (\<lambda>b. Inr (b, entry))) (\<lambda>(b, entry).
     rbind (checked (checked_add U32 (pe_fills entry) count)) (\<lambda>fills_so_far.
     rbind (ok_or (checked_sub U32 (oi_quantity (po_intent (pe_pending entry))) (fa_quantity agg))
              (Execution (MsgCarryExceeds oid))) (\<lambda>remaining.
     if remaining = 0 then Inr (b\<lparr>bk_pending := bt_remove oid (bk_pending b)\<rparr>)
     else rbind (quantity_new remaining) (\<lambda>q.
          let p = pe_pending entry in
          Inr (b\<lparr>bk_pending := bt_insert oid
                   (entry\<lparr>pe_fills := fills_so_far,
                          pe_pending := p\<lparr>po_intent := (po_intent p)\<lparr>oi_quantity := q\<rparr>\<rparr>\<rparr>)
                   (bk_pending b)\<rparr>)))))))))"

section \<open>The checks before the walk\<close>

definition lifecycle_check :: "'e registry \<Rightarrow> order_command \<Rightarrow> unit res" where
  "lifecycle_check pending cmd =
     (case cmd of
        Submit _ \<Rightarrow> Inr ()
      | Cancel oid \<Rightarrow>
          if bt_contains pending oid then Inr () else Inl (Execution (MsgCancelNotPending oid))
      | Replace oid _ \<Rightarrow>
          if bt_contains pending oid then Inr () else Inl (Execution (MsgCancelNotPending oid)))"

definition add_count :: "int \<Rightarrow> int \<Rightarrow> int res" where
  "add_count count acc =
     rbind (checked (try_into Usize count)) (\<lambda>c. checked (checked_add Usize acc c))"

definition is_submit :: "order_command \<Rightarrow> bool" where
  "is_submit cmd = (case cmd of Submit _ \<Rightarrow> True | _ \<Rightarrow> False)"

definition coverage_check ::
    "order_command list \<Rightarrow> fill list \<Rightarrow> fill_group list option \<Rightarrow> carry_group list \<Rightarrow> unit res" where
  "coverage_check cmds fills groups carry =
     (if groups = None \<and> carry \<noteq> [] then Inl (Execution MsgCarryNeedsGroups)
      else rbind (fold_res (\<lambda>g. add_count (cg_count g)) carry 0) (\<lambda>carry_total.
           rbind (case groups of
                    None \<Rightarrow> Inr (int (length (filter is_submit cmds)))
                  | Some gs \<Rightarrow> fold_res (\<lambda>g. add_count (fg_count g)) gs 0) (\<lambda>command_fills.
           rbind (checked (checked_add Usize carry_total command_fills)) (\<lambda>expected.
           if expected \<noteq> int (length fills)
           then Inl (Execution (MsgNotCorrelated (int (length fills)) expected))
           else Inr ()))))"

section \<open>The walk\<close>

text \<open>The next \<open>count\<close> fills from the cursor.\<close>

definition take_fills ::
    "backtest_error \<Rightarrow> fill list \<Rightarrow> nat \<Rightarrow> int \<Rightarrow> (nat \<times> fill list) res" where
  "take_fills err fills cursor count =
     rbind (checked (try_into Usize count)) (\<lambda>c.
     rbind (checked (checked_add Usize (int cursor) c)) (\<lambda>e.
     rbind (ok_or (slice cursor (nat e) fills) err) (\<lambda>order_fills.
     Inr (nat e, order_fills))))"

definition carry_step ::
    "'e reason_api \<Rightarrow> chain_snapshot \<Rightarrow> fill list \<Rightarrow> carry_group \<Rightarrow> nat \<times> 'e books
      \<Rightarrow> (nat \<times> 'e books) res" where
  "carry_step R snap fills g = (\<lambda>(cursor, b).
     rbind (take_fills (Execution MsgCarryPastFills) fills cursor (cg_count g)) (\<lambda>(cursor, order_fills).
     rbind (apply_carry_group R snap (sp_mult (cs_spec snap)) (cs_ts snap) (cg_order_id g)
              order_fills b) (\<lambda>b.
     Inr (cursor, b))))"

record 'e walk =
  wk_books :: "'e books"
  wk_cursor :: nat
  wk_groups :: "fill_group list option"
  wk_trade :: "trade_id option"
  wk_ordinal :: nat

text \<open>The fills of the command at an index: one, or its group's, or none.\<close>

definition take_group :: "nat \<Rightarrow> fill_group list option \<Rightarrow> (int \<times> fill_group list option) res" where
  "take_group idx groups =
     (case groups of
        None \<Rightarrow> Inr (1, None)
      | Some [] \<Rightarrow> Inr (0, Some [])
      | Some (g # gs) \<Rightarrow>
          if fg_command g = idx
          then rbind (checked (try_into Usize (fg_count g))) (\<lambda>c. Inr (c, Some gs))
          else Inr (0, Some (g # gs)))"

text \<open>One trade id for the step's group of opens.\<close>

definition step_trade_id :: "'e walk \<Rightarrow> ('e walk \<times> trade_id) res" where
  "step_trade_id w =
     (case wk_trade w of
        Some t \<Rightarrow> Inr (w, t)
      | None \<Rightarrow>
          rbind (mint_trade (bk_ids (wk_books w))) (\<lambda>(ids, t).
          Inr (w\<lparr>wk_trade := Some t, wk_books := (wk_books w)\<lparr>bk_ids := ids\<rparr>\<rparr>, t)))"

definition set_pending :: "'e registry \<Rightarrow> 'e walk \<Rightarrow> 'e walk" where
  "set_pending p w = w\<lparr>wk_books := (wk_books w)\<lparr>bk_pending := p\<rparr>\<rparr>"

text \<open>A GTC order that filled nothing rests whole.\<close>

definition rest_whole ::
    "'e reason_api \<Rightarrow> 'e close_reasons \<Rightarrow> nat \<Rightarrow> order_id \<Rightarrow> order_intent \<Rightarrow> 'e walk \<Rightarrow> 'e walk res" where
  "rest_whole R reasons idx oid oi w =
     rbind (case oi_action oi of
              Open \<Rightarrow> rbind (step_trade_id w) (\<lambda>(w, t). Inr (w, Some t, None))
            | Close _ \<Rightarrow> Inr (w, None, Some (reason_for R reasons idx))) (\<lambda>(w, trade, reason).
     Inr (set_pending (register_pending oid oi (oi_quantity oi) 0 trade None reason
            (bk_pending (wk_books w))) w))"

definition fill_open ::
    "int \<Rightarrow> int \<Rightarrow> order_id \<Rightarrow> fill list \<Rightarrow> fill \<Rightarrow> fill_aggregate \<Rightarrow> 'e walk
      \<Rightarrow> ('e walk \<times> position_id option) res" where
  "fill_open mult ts oid fills first agg w =
     rbind (step_trade_id w) (\<lambda>(w, tid).
     rbind (open_new_leg tid first agg ts (wk_books w)) (\<lambda>(b, pid).
     rbind (fold_res (book_open_fill mult oid tid pid 0) (enumerate 0 fills) b) (\<lambda>b.
     Inr (w\<lparr>wk_books := b\<rparr>, Some pid))))"

definition fill_close ::
    "'e reason_api \<Rightarrow> 'e close_reasons \<Rightarrow> chain_snapshot \<Rightarrow> nat \<Rightarrow> order_id \<Rightarrow> position_id \<Rightarrow> fill list
      \<Rightarrow> fill \<Rightarrow> fill_aggregate \<Rightarrow> 'e walk \<Rightarrow> ('e walk \<times> position_id option) res" where
  "fill_close R reasons snap idx oid pid fills first agg w =
     rbind (close_position snap (sp_mult (cs_spec snap)) (cs_ts snap) oid pid
              (reason_for R reasons idx) 0 fills first agg (wk_books w)) (\<lambda>b.
     Inr (w\<lparr>wk_books := b\<rparr>, None))"

text \<open>The remainder of a partially filled GTC order rests.\<close>

definition rest_remainder ::
    "'e reason_api \<Rightarrow> 'e close_reasons \<Rightarrow> nat \<Rightarrow> order_id \<Rightarrow> order_intent \<Rightarrow> fill list
      \<Rightarrow> fill_aggregate \<Rightarrow> position_id option \<Rightarrow> 'e walk \<Rightarrow> 'e walk res" where
  "rest_remainder R reasons idx oid oi fills agg opened w =
     (if oi_tif oi = Gtc \<and> fa_quantity agg < oi_quantity oi
      then rbind (checked (checked_sub U64 (oi_quantity oi) (fa_quantity agg))) (\<lambda>remainder.
           rbind (checked (try_into U32 remainder)) (\<lambda>q32.
           rbind (quantity_new q32) (\<lambda>q.
           let (trade, reason) = (case oi_action oi of
                 Open \<Rightarrow> (wk_trade w, None)
               | Close _ \<Rightarrow> (None, Some (reason_for R reasons idx))) in
           rbind (checked (try_into U32 (int (length fills)))) (\<lambda>produced.
           Inr (set_pending (register_pending oid oi q produced trade opened reason
                  (bk_pending (wk_books w))) w)))))
      else Inr w)"

text \<open>An order with fills.\<close>

definition fill_order ::
    "'e reason_api \<Rightarrow> 'e close_reasons \<Rightarrow> chain_snapshot \<Rightarrow> fill list \<Rightarrow> nat \<Rightarrow> order_id
      \<Rightarrow> order_intent \<Rightarrow> int \<Rightarrow> 'e walk \<Rightarrow> 'e walk res" where
  "fill_order R reasons snap fills idx oid oi count w =
     rbind (take_fills (Execution MsgPastFills) fills (wk_cursor w) count) (\<lambda>(cursor, order_fills).
     let w = w\<lparr>wk_cursor := cursor\<rparr> in
     rbind (ok_or (first_fill order_fills) (Execution MsgEmptyRun)) (\<lambda>first.
     rbind (aggregate_fills order_fills) (\<lambda>agg.
     rbind (case oi_action oi of
              Open \<Rightarrow> fill_open (sp_mult (cs_spec snap)) (cs_ts snap) oid order_fills first agg w
            | Close pid \<Rightarrow> fill_close R reasons snap idx oid pid order_fills first agg w) (\<lambda>(w, opened).
     rest_remainder R reasons idx oid oi order_fills agg opened w))))"

definition route_intent ::
    "'e reason_api \<Rightarrow> 'e close_reasons \<Rightarrow> chain_snapshot \<Rightarrow> fill list \<Rightarrow> order_id list \<Rightarrow> nat
      \<Rightarrow> order_intent \<Rightarrow> 'e walk \<Rightarrow> 'e walk res" where
  "route_intent R reasons snap fills submit_ids idx oi w =
     rbind (ok_or (if wk_ordinal w < length submit_ids then Some (submit_ids ! wk_ordinal w) else None)
              (Execution MsgSubmitIdsShort)) (\<lambda>oid.
     rbind (checked (checked_add Usize (int (wk_ordinal w)) 1)) (\<lambda>ordinal.
     rbind (take_group idx (wk_groups w)) (\<lambda>(count, groups).
     let w = w\<lparr>wk_ordinal := nat ordinal, wk_groups := groups\<rparr> in
     if count = 0
     then if oi_tif oi = Gtc then rest_whole R reasons idx oid oi w
          else Inl (Execution (MsgZeroFill idx))
     else fill_order R reasons snap fills idx oid oi count w)))"

definition command_step ::
    "'e reason_api \<Rightarrow> 'e close_reasons \<Rightarrow> chain_snapshot \<Rightarrow> fill list \<Rightarrow> order_id list
      \<Rightarrow> nat \<times> order_command \<Rightarrow> 'e walk \<Rightarrow> 'e walk res" where
  "command_step R reasons snap fills submit_ids = (\<lambda>(idx, cmd) w.
     case cmd of
       Submit oi \<Rightarrow> route_intent R reasons snap fills submit_ids idx oi w
     | Cancel oid \<Rightarrow> Inr (set_pending (bt_remove oid (bk_pending (wk_books w))) w)
     | Replace oid oi \<Rightarrow>
         route_intent R reasons snap fills submit_ids idx oi
           (set_pending (bt_remove oid (bk_pending (wk_books w))) w))"

definition apply_step_fills ::
    "'e reason_api \<Rightarrow> order_command list \<Rightarrow> fill list \<Rightarrow> fill_group list option \<Rightarrow> carry_group list
      \<Rightarrow> order_id list \<Rightarrow> chain_snapshot \<Rightarrow> 'e close_reasons \<Rightarrow> 'e books \<Rightarrow> 'e books res" where
  "apply_step_fills R cmds fills groups carry submit_ids snap reasons b =
     rbind (fold_res (\<lambda>cmd _. lifecycle_check (bk_pending b) cmd) cmds ()) (\<lambda>_.
     rbind (coverage_check cmds fills groups carry) (\<lambda>_.
     rbind (fold_res (carry_step R snap fills) carry (0, b)) (\<lambda>(cursor, b).
     rbind (fold_res (command_step R reasons snap fills submit_ids) (enumerate 0 cmds)
              \<lparr>wk_books = b, wk_cursor = cursor, wk_groups = groups, wk_trade = None,
               wk_ordinal = 0\<rparr>) (\<lambda>w.
     if wk_cursor w \<noteq> length fills \<or> (wk_groups w \<noteq> None \<and> wk_groups w \<noteq> Some [])
     then Inl (Execution MsgUnconsumed)
     else Inr (wk_books w)))))"

end
