(* ===== verification/Fill_Effects.thy ===== *)
theory Fill_Effects
  imports Engine_Fills Naive_Fill
begin

text \<open>
  What the correlation pass does to the ledger and to the fill stream of the bundle: every
  fill the execution model produced is booked exactly once, in order. \<open>booked\<close> relates the
  books before and after; it composes, so each operation contributes its own fills.
\<close>

definition ledger_after :: "int \<Rightarrow> fill list \<Rightarrow> ledger \<Rightarrow> ledger" where
  "ledger_after m fs l = l\<lparr>
     lg_cash := lg_cash l + sum_list (map (\<lambda>f. cash_flow f m) fs),
     lg_step_slippage := lg_step_slippage l + sum_list (map (\<lambda>f. fl_slippage f * m) fs),
     lg_step_fees := lg_step_fees l + sum_list (map fl_fees fs)\<rparr>"

definition booked :: "int \<Rightarrow> fill list \<Rightarrow> 'e books \<Rightarrow> 'e books \<Rightarrow> bool" where
  "booked m fs b b' \<longleftrightarrow>
     map fr_fill (bd_fills (bk_bundle b')) = map fr_fill (bd_fills (bk_bundle b)) @ fs \<and>
     bk_ledger b' = ledger_after m fs (bk_ledger b)"

lemma ledger_after_Nil [simp]: "ledger_after m [] l = l"
  by (simp add: ledger_after_def)

lemma ledger_after_append: "ledger_after m (fs @ gs) l = ledger_after m gs (ledger_after m fs l)"
  by (simp add: ledger_after_def add.assoc)

lemma booked_same:
  "bd_fills (bk_bundle b') = bd_fills (bk_bundle b) \<Longrightarrow> bk_ledger b' = bk_ledger b \<Longrightarrow> booked m [] b b'"
  by (simp add: booked_def)

lemma booked_refl [simp]: "booked m [] b b"
  by (simp add: booked_same)

lemma booked_trans: "booked m fs b b' \<Longrightarrow> booked m gs b' b'' \<Longrightarrow> booked m (fs @ gs) b b''"
  by (simp add: booked_def ledger_after_append)

text \<open>Changing what the relation does not look at.\<close>

lemma booked_frame:
  assumes "booked m fs b b'"
    and "bd_fills (bk_bundle c) = bd_fills (bk_bundle b)" "bk_ledger c = bk_ledger b"
    and "bd_fills (bk_bundle c') = bd_fills (bk_bundle b')" "bk_ledger c' = bk_ledger b'"
  shows "booked m fs c c'"
  using assms by (simp add: booked_def)

section \<open>Each operation books its own fills\<close>

lemma apply_fill_after: "apply_fill l f m = Inr l' \<Longrightarrow> l' = ledger_after m [f] l"
  using apply_fill_Inr [of l f m l'] by (simp add: ledger_after_def)

lemma book_open_fill_booked:
  assumes "book_open_fill m oid tid pid base lf b = Inr b'"
  shows "booked m [snd lf] b b'"
  using assms
  by (cases lf) (auto simp: book_open_fill_def res_simps booked_def dest: apply_fill_after)

lemma book_close_fill_booked:
  assumes "book_close_fill m oid pid base lf b = Inr b'"
  shows "booked m [snd lf] b b'"
  using assms
  by (cases lf)
    (auto simp: book_close_fill_def res_simps booked_def dest: apply_fill_after
      elim!: record_close_fill_Inr)

lemma fold_booked:
  assumes "\<And>lf b b'. f lf b = Inr b' \<Longrightarrow> booked m [snd lf] b b'"
    and "fold_res f xs b = Inr b'"
  shows "booked m (map snd xs) b b'"
  using assms(2)
proof (induction xs arbitrary: b)
  case (Cons x xs)
  then obtain c where c: "f x b = Inr c" and rest: "fold_res f xs c = Inr b'"
    by (auto simp: res_simps)
  from booked_trans [OF assms(1) [OF c] Cons.IH [OF rest]] show ?case by simp
qed simp

lemma book_open_fills_booked:
  assumes "fold_res (book_open_fill m oid tid pid base) (enumerate 0 fs) b = Inr b'"
  shows "booked m fs b b'"
proof -
  have "booked m (map snd (enumerate 0 fs)) b b'"
    by (rule fold_booked [OF _ assms]) (rule book_open_fill_booked)
  then show ?thesis by simp
qed

lemma book_close_fills_booked:
  assumes "fold_res (book_close_fill m oid pid base) (enumerate 0 fs) b = Inr b'"
  shows "booked m fs b b'"
proof -
  have "booked m (map snd (enumerate 0 fs)) b b'"
    by (rule fold_booked [OF _ assms]) (rule book_close_fill_booked)
  then show ?thesis by simp
qed

lemma open_new_leg_booked: "open_new_leg tid f a ts b = Inr (b', pid) \<Longrightarrow> booked m [] b b'"
  by (auto simp: open_new_leg_def res_simps intro!: booked_same)

lemma extend_leg_booked: "extend_leg tid pid fs f a b = Inr b' \<Longrightarrow> booked m [] b b'"
  by (auto simp: extend_leg_def res_simps intro!: booked_same)

lemma close_position_booked:
  assumes "close_position snap m ts oid pid reason base fs first agg b = Inr b'"
  shows "booked m fs b b'"
proof -
  from assms obtain inventory full log c where
    loop: "fold_res (book_close_fill m oid pid base) (enumerate 0 fs)
      (b\<lparr>bk_inventory := inventory, bk_log := log\<rparr>) = Inr c"
    and fills: "bd_fills (bk_bundle b') = bd_fills (bk_bundle c)" "bk_ledger b' = bk_ledger c"
    by (auto simp: close_position_def res_simps Let_def split: if_splits
        dest: record_close_terminal_Inr)
  show ?thesis
    by (rule booked_frame [OF book_close_fills_booked [OF loop]]) (simp_all add: fills)
qed

lemma carry_open_booked:
  assumes "carry_open m ts oid fs first agg entry b = Inr (b', entry')"
  shows "booked m fs b b'"
proof -
  from assms obtain ids tid c pid where
    leg: "(case pe_position entry of
        Some existing \<Rightarrow> rbind (extend_leg tid existing fs first agg (b\<lparr>bk_ids := ids\<rparr>))
          (\<lambda>b. Inr (b, existing))
      | None \<Rightarrow> open_new_leg tid first agg ts (b\<lparr>bk_ids := ids\<rparr>)) = Inr (c, pid)"
    and loop: "fold_res (book_open_fill m oid tid pid (pe_fills entry)) (enumerate 0 fs) c = Inr b'"
    by (auto simp: carry_open_def res_simps Let_def)
  have "booked m [] (b\<lparr>bk_ids := ids\<rparr>) c"
    using leg by (auto simp: res_simps split: option.splits
        intro: extend_leg_booked open_new_leg_booked)
  then have "booked m [] b c" by (rule booked_frame) simp_all
  from booked_trans [OF this book_open_fills_booked [OF loop]] show ?thesis by simp
qed

lemma apply_carry_group_booked:
  assumes "apply_carry_group R snap m ts oid fs b = Inr b'"
  shows "booked m fs b b'"
proof -
  from assms obtain entry agg first entry' c where
    act: "(case oi_action (po_intent (pe_pending entry)) of
        Open \<Rightarrow> carry_open m ts oid fs first agg entry b
      | Close pid \<Rightarrow> rbind (close_position snap m ts oid pid (unwrap_or (er_manual R) (pe_reason entry))
          (pe_fills entry) fs first agg b) (\<lambda>b. Inr (b, entry))) = Inr (c, entry')"
    and c: "bk_bundle b' = bk_bundle c" "bk_ledger b' = bk_ledger c"
    by (auto simp: apply_carry_group_def res_simps Let_def split: if_splits)
  have "booked m fs b c"
    using act by (auto simp: res_simps split: position_action.splits
        intro: carry_open_booked close_position_booked)
  then show ?thesis by (rule booked_frame) (simp_all add: c)
qed

section \<open>The walk\<close>

lemma take_fills_Inr:
  assumes "take_fills err fills c n = Inr (c', fs)"
  shows "take c' fills = take c fills @ fs \<and> c \<le> c' \<and> c' \<le> length fills \<and> int (length fs) = n"
proof -
  from assms have "fits Usize n" and "c' = nat (int c + n)" and "slice c c' fills = Some fs"
    by (auto simp: take_fills_def res_simps checked_defs)
  with slice_Some [of c c' fills fs] show ?thesis by (auto simp: width_simps)
qed

text \<open>The cursor's fills are booked.\<close>

definition booked_upto :: "int \<Rightarrow> fill list \<Rightarrow> 'e books \<Rightarrow> nat \<Rightarrow> 'e books \<Rightarrow> bool" where
  "booked_upto m fills b0 c b \<longleftrightarrow> c \<le> length fills \<and> booked m (take c fills) b0 b"

lemma booked_upto_next:
  assumes "booked_upto m fills b0 c b" and "take_fills err fills c n = Inr (c', fs)"
    and "booked m fs b b'"
  shows "booked_upto m fills b0 c' b'"
  using assms take_fills_Inr [OF assms(2)] by (auto simp: booked_upto_def intro: booked_trans)

lemma booked_upto_frame:
  assumes "booked_upto m fills b0 c b"
    and "bd_fills (bk_bundle b') = bd_fills (bk_bundle b)" "bk_ledger b' = bk_ledger b"
  shows "booked_upto m fills b0 c b'"
  using assms by (auto simp: booked_upto_def intro: booked_frame)

lemma carry_step_booked:
  assumes "booked_upto (sp_mult (cs_spec snap)) fills b0 c b"
    and "carry_step R snap fills g (c, b) = Inr (c', b')"
  shows "booked_upto (sp_mult (cs_spec snap)) fills b0 c' b'"
  using assms
  by (auto simp: carry_step_def res_simps intro: booked_upto_next apply_carry_group_booked)

lemma step_trade_id_Inr:
  assumes "step_trade_id w = Inr (w', t)"
  shows "wk_cursor w' = wk_cursor w \<and> wk_groups w' = wk_groups w \<and> wk_ordinal w' = wk_ordinal w \<and>
    wk_trade w' = Some t \<and> (\<exists>ids. wk_books w' = (wk_books w)\<lparr>bk_ids := ids\<rparr>)"
  using assms
  by (auto simp: step_trade_id_def res_simps split: option.splits intro: exI [of _ "bk_ids (wk_books w)"])

lemma set_pending_simps [simp]:
  "wk_cursor (set_pending p w) = wk_cursor w" "wk_groups (set_pending p w) = wk_groups w"
  "wk_trade (set_pending p w) = wk_trade w" "wk_ordinal (set_pending p w) = wk_ordinal w"
  "wk_books (set_pending p w) = (wk_books w)\<lparr>bk_pending := p\<rparr>"
  by (simp_all add: set_pending_def)

lemma fill_open_booked:
  assumes "fill_open m ts oid fs first agg w = Inr (w', opened)"
  shows "booked m fs (wk_books w) (wk_books w') \<and> wk_cursor w' = wk_cursor w"
proof -
  from assms obtain w1 tid c pid where w1: "step_trade_id w = Inr (w1, tid)"
    and c: "open_new_leg tid first agg ts (wk_books w1) = Inr (c, pid)"
    and loop: "fold_res (book_open_fill m oid tid pid 0) (enumerate 0 fs) c = Inr (wk_books w')"
    and "wk_cursor w' = wk_cursor w1"
    by (auto simp: fill_open_def res_simps)
  have "booked m [] (wk_books w) c"
    using step_trade_id_Inr [OF w1] open_new_leg_booked [OF c, of m]
    by (auto intro: booked_frame)
  from booked_trans [OF this book_open_fills_booked [OF loop]] show ?thesis
    using step_trade_id_Inr [OF w1] \<open>wk_cursor w' = wk_cursor w1\<close> by simp
qed

lemma fill_close_booked:
  assumes "fill_close R reasons snap idx oid pid fs first agg w = Inr (w', opened)"
  shows "booked (sp_mult (cs_spec snap)) fs (wk_books w) (wk_books w') \<and> wk_cursor w' = wk_cursor w"
  using assms by (auto simp: fill_close_def res_simps intro: close_position_booked)

lemma rest_remainder_books:
  assumes "rest_remainder R reasons idx oid oi fs agg opened w = Inr w'"
  shows "\<exists>p. wk_books w' = (wk_books w)\<lparr>bk_pending := p\<rparr> \<and> wk_cursor w' = wk_cursor w \<and>
    wk_groups w' = wk_groups w"
proof (cases "oi_tif oi = Gtc \<and> fa_quantity agg < oi_quantity oi")
  case True
  with assms obtain p where "w' = set_pending p w"
    by (cases "oi_action oi") (auto simp: rest_remainder_def res_simps)
  then show ?thesis by auto
next
  case False
  with assms show ?thesis
    by (auto simp: rest_remainder_def intro: exI [of _ "bk_pending (wk_books w)"])
qed

lemma rest_whole_books:
  assumes "rest_whole R reasons idx oid oi w = Inr w'"
  shows "\<exists>p ids. wk_books w' = (wk_books w)\<lparr>bk_ids := ids, bk_pending := p\<rparr> \<and>
    wk_cursor w' = wk_cursor w \<and> wk_groups w' = wk_groups w"
proof (cases "oi_action oi")
  case Open
  with assms obtain w1 t p where "step_trade_id w = Inr (w1, t)" and "w' = set_pending p w1"
    by (auto simp: rest_whole_def res_simps)
  moreover from step_trade_id_Inr [OF this(1)] obtain ids where
    "wk_books w1 = (wk_books w)\<lparr>bk_ids := ids\<rparr>" by blast
  ultimately show ?thesis
    using step_trade_id_Inr [of w w1 t] by (intro exI [of _ p] exI [of _ ids]) simp
next
  case (Close pid)
  with assms obtain p where "w' = set_pending p w"
    by (auto simp: rest_whole_def res_simps)
  then show ?thesis by (intro exI [of _ p] exI [of _ "bk_ids (wk_books w)"]) simp
qed

lemma fill_order_booked:
  assumes "booked_upto (sp_mult (cs_spec snap)) fills b0 (wk_cursor w) (wk_books w)"
    and "fill_order R reasons snap fills idx oid oi n w = Inr w'"
  shows "booked_upto (sp_mult (cs_spec snap)) fills b0 (wk_cursor w') (wk_books w')"
proof -
  let ?m = "sp_mult (cs_spec snap)"
  from assms(2) obtain c fs first agg w2 opened where
    tk: "take_fills (Execution MsgPastFills) fills (wk_cursor w) n = Inr (c, fs)"
    and act: "(case oi_action oi of
        Open \<Rightarrow> fill_open ?m (cs_ts snap) oid fs first agg (w\<lparr>wk_cursor := c\<rparr>)
      | Close pid \<Rightarrow> fill_close R reasons snap idx oid pid fs first agg (w\<lparr>wk_cursor := c\<rparr>)) = Inr (w2, opened)"
    and rest: "rest_remainder R reasons idx oid oi fs agg opened w2 = Inr w'"
    by (auto simp: fill_order_def res_simps Let_def)
  have "booked ?m fs (wk_books (w\<lparr>wk_cursor := c\<rparr>)) (wk_books w2) \<and> wk_cursor w2 = wk_cursor (w\<lparr>wk_cursor := c\<rparr>)"
    using act by (cases "oi_action oi") (simp_all only: position_action.case fill_open_booked fill_close_booked)
  then have "booked_upto ?m fills b0 (wk_cursor w2) (wk_books w2)"
    using booked_upto_next [OF assms(1) tk] by simp
  then show ?thesis
    using rest_remainder_books [OF rest] by (auto intro: booked_upto_frame)
qed

lemma command_step_booked:
  assumes "booked_upto (sp_mult (cs_spec snap)) fills b0 (wk_cursor w) (wk_books w)"
    and "command_step R reasons snap fills ids ic w = Inr w'"
  shows "booked_upto (sp_mult (cs_spec snap)) fills b0 (wk_cursor w') (wk_books w')"
proof -
  have route: "booked_upto (sp_mult (cs_spec snap)) fills b0 (wk_cursor v') (wk_books v')"
    if v: "booked_upto (sp_mult (cs_spec snap)) fills b0 (wk_cursor v) (wk_books v)"
      and "route_intent R reasons snap fills ids idx oi v = Inr v'" for idx oi v v'
  proof -
    from that(2) obtain oid n groups ord where r:
      "(if n = 0 then if oi_tif oi = Gtc then rest_whole R reasons idx oid oi (v\<lparr>wk_ordinal := ord, wk_groups := groups\<rparr>)
          else Inl (Execution (MsgZeroFill idx))
        else fill_order R reasons snap fills idx oid oi n (v\<lparr>wk_ordinal := ord, wk_groups := groups\<rparr>)) = Inr v'"
      by (auto simp: route_intent_def res_simps Let_def)
    let ?v = "v\<lparr>wk_ordinal := ord, wk_groups := groups\<rparr>"
    have v1: "booked_upto (sp_mult (cs_spec snap)) fills b0 (wk_cursor ?v) (wk_books ?v)"
      using v by simp
    show ?thesis
    proof (cases "n = 0")
      case True
      with r have "rest_whole R reasons idx oid oi ?v = Inr v'" by (auto split: if_splits)
      from rest_whole_books [OF this] v1 show ?thesis by (auto intro: booked_upto_frame)
    next
      case False
      with r have "fill_order R reasons snap fills idx oid oi n ?v = Inr v'" by simp
      with v1 show ?thesis by (rule fill_order_booked)
    qed
  qed
  obtain idx cmd where ic: "ic = (idx, cmd)" by (cases ic)
  show ?thesis
  proof (cases cmd)
    case (Submit oi)
    with assms ic route show ?thesis by (auto simp: command_step_def)
  next
    case (Cancel oid)
    with assms ic show ?thesis
      by (auto simp: command_step_def intro: booked_upto_frame)
  next
    case (Replace oid oi)
    let ?w = "set_pending (bt_remove oid (bk_pending (wk_books w))) w"
    have "booked_upto (sp_mult (cs_spec snap)) fills b0 (wk_cursor ?w) (wk_books ?w)"
      using assms(1) by (auto intro: booked_upto_frame)
    moreover have "route_intent R reasons snap fills ids idx oi ?w = Inr w'"
      using assms(2) by (simp add: command_step_def ic Replace)
    ultimately show ?thesis by (rule route)
  qed
qed

section \<open>Conservation\<close>

lemma apply_step_fills_booked:
  assumes "apply_step_fills R cmds fills groups carry ids snap reasons b = Inr b'"
  shows "booked (sp_mult (cs_spec snap)) fills b b'"
proof -
  let ?m = "sp_mult (cs_spec snap)"
  from assms obtain c b1 w where
    carried: "fold_res (carry_step R snap fills) carry (0, b) = Inr (c, b1)"
    and commands: "fold_res (command_step R reasons snap fills ids) (enumerate 0 cmds)
      \<lparr>wk_books = b1, wk_cursor = c, wk_groups = groups, wk_trade = None, wk_ordinal = 0\<rparr> = Inr w"
    and w: "wk_cursor w = length fills" "wk_books w = b'"
    by (auto simp: apply_step_fills_def res_simps split: if_splits)
  have "booked_upto ?m fills b (fst (c, b1)) (snd (c, b1))"
  proof (rule fold_res_invariant [OF carried, where P = "\<lambda>(c, x). booked_upto ?m fills b c x", simplified case_prod_beta])
    show "booked_upto ?m fills b (fst (0, b)) (snd (0, b))" by (simp add: booked_upto_def)
  next
    fix g s s'
    assume "booked_upto ?m fills b (fst s) (snd s)" and "carry_step R snap fills g s = Inr s'"
    then show "booked_upto ?m fills b (fst s') (snd s')"
      using carry_step_booked [of snap fills b "fst s" "snd s" R g "fst s'" "snd s'"] by simp
  qed
  then have "booked_upto ?m fills b (wk_cursor w) (wk_books w)"
    by (intro fold_res_invariant [OF commands,
          where P = "\<lambda>w. booked_upto ?m fills b (wk_cursor w) (wk_books w)"])
      (auto intro: command_step_booked)
  then show ?thesis using w by (simp add: booked_upto_def)
qed

text \<open>
  C5. When a step's correlation pass succeeds, every fill the execution model produced has
  been booked exactly once and in order: the bundle's fill stream grows by exactly these
  fills, the cash by the sum of their exact cash flows, and the step's slippage and fee
  accumulators by their sums; marks, greeks, peak and the other ledger fields do not move.
\<close>

theorem step_fills_booked_once:
  assumes "apply_step_fills R cmds fills groups carry ids snap reasons b = Inr b'"
  shows "map fr_fill (bd_fills (bk_bundle b')) = map fr_fill (bd_fills (bk_bundle b)) @ fills \<and>
    bk_ledger b' = (bk_ledger b)\<lparr>
      lg_cash := lg_cash (bk_ledger b) + sum_list (map (\<lambda>f. cash_flow f (sp_mult (cs_spec snap))) fills),
      lg_step_slippage := lg_step_slippage (bk_ledger b) +
        sum_list (map (\<lambda>f. fl_slippage f * sp_mult (cs_spec snap)) fills),
      lg_step_fees := lg_step_fees (bk_ledger b) + sum_list (map fl_fees fills)\<rparr>"
  using apply_step_fills_booked [OF assms] by (simp add: booked_def ledger_after_def)

text \<open>A step that opens a short leg of two contracts.\<close>

definition sample_api :: "nat reason_api" where
  "sample_api = \<lparr>er_manual = 0, er_other = (\<lambda>_. 1)\<rparr>"

definition sample_books :: "nat books" where
  "sample_books = \<lparr>bk_inventory = [], bk_ids = id_counters_new, bk_ledger = ledger_new 1000000,
     bk_log = trade_log_new, bk_bundle = bundle_new, bk_pending = bt_empty\<rparr>"

definition sample_pass :: "nat books res" where
  "sample_pass = apply_step_fills sample_api [Submit sample_intent] [sample_fill] None [] [1]
     sample_snapshot \<lparr>cr_exits_end = 0, cr_on_end_start = 1, cr_policy = 0\<rparr> sample_books"

lemma sample_pass_Inr: "\<exists>b'. sample_pass = Inr b'"
proof -
  have "\<not> isl sample_pass" by code_simp
  then show ?thesis by (metis sum.collapse(2))
qed

theorem step_fills_booked_once_witness:
  "\<exists>b'. sample_pass = Inr b' \<and> lg_cash (bk_ledger b') = 1023870 \<and>
     map fr_fill (bd_fills (bk_bundle b')) = [sample_fill]"
proof -
  from sample_pass_Inr obtain b' where b': "sample_pass = Inr b'" ..
  with step_fills_booked_once [OF b' [unfolded sample_pass_def]] show ?thesis
    by (intro exI [of _ b'])
      (simp add: sample_books_def bundle_new_def ledger_new_def sample_snapshot_def
        cash_flow_def sample_fill_def)
qed

end
