(* ===== verification/Books_Sync.thy ===== *)
theory Books_Sync
  imports Fill_Effects
begin

text \<open>
  The open legs are kept three times: in the inventory, in the trade log and in the bundle
  collector. Each is abstracted to a map from position ids; \<open>books_sync\<close> says that the three
  abstractions agree and that every id in use was minted before. The invariant is lifted from
  the operations on legs through the correlation pass by the locale \<open>books_invariant\<close>.
\<close>

section \<open>The inventory as a map\<close>

definition leg_get :: "open_position list \<Rightarrow> position_id \<Rightarrow> open_position option" where
  "leg_get inventory pid = find (\<lambda>l. op_id l = pid) inventory"

lemma leg_get_simps [simp]:
  "leg_get [] pid = None"
  "leg_get (l # ls) pid = (if op_id l = pid then Some l else leg_get ls pid)"
  by (simp_all add: leg_get_def)

lemma leg_get_None: "leg_get ls pid = None \<longleftrightarrow> pid \<notin> op_id ` set ls"
  by (induction ls) auto

lemma leg_get_Some: "leg_get ls pid = Some l \<Longrightarrow> l \<in> set ls \<and> op_id l = pid"
  by (induction ls) (auto split: if_splits)

lemma leg_get_mem: "distinct (map op_id ls) \<Longrightarrow> l \<in> set ls \<Longrightarrow> leg_get ls (op_id l) = Some l"
  by (induction ls) auto

lemma leg_get_append:
  "op_id l \<notin> op_id ` set ls \<Longrightarrow> leg_get (ls @ [l]) = (leg_get ls)(op_id l \<mapsto> l)"
  by (induction ls) (auto simp: fun_eq_iff)

lemma position_leg_get:
  "position_of (\<lambda>l. op_id l = pid) ls = None \<longleftrightarrow> leg_get ls pid = None"
  "position_of (\<lambda>l. op_id l = pid) ls = Some i \<Longrightarrow> leg_get ls pid = Some (ls ! i)"
proof -
  show "position_of (\<lambda>l. op_id l = pid) ls = None \<longleftrightarrow> leg_get ls pid = None"
    by (auto simp: position_of_None leg_get_None)
  show "position_of (\<lambda>l. op_id l = pid) ls = Some i \<Longrightarrow> leg_get ls pid = Some (ls ! i)"
    by (induction ls arbitrary: i) (auto split: if_splits)
qed

lemma leg_get_update:
  "position_of (\<lambda>l. op_id l = pid) ls = Some i \<Longrightarrow> op_id l' = pid \<Longrightarrow>
     leg_get (ls[i := l']) = (leg_get ls)(pid \<mapsto> l') \<and> map op_id (ls[i := l']) = map op_id ls"
  by (induction ls arbitrary: i) (auto simp: fun_eq_iff split: if_splits)

lemma leg_get_remove:
  "position_of (\<lambda>l. op_id l = pid) ls = Some i \<Longrightarrow> distinct (map op_id ls) \<Longrightarrow>
     leg_get (remove_at i ls) = (leg_get ls)(pid := None) \<and>
     distinct (map op_id (remove_at i ls)) \<and> set (remove_at i ls) \<subseteq> set ls"
proof (induction ls arbitrary: i)
  case (Cons l ls)
  show ?case
  proof (cases "op_id l = pid")
    case True
    with Cons.prems show ?thesis
      using leg_get_None [of ls pid] by (auto simp: remove_at_def fun_eq_iff)
  next
    case False
    with Cons.prems obtain k where k: "position_of (\<lambda>l. op_id l = pid) ls = Some k" "i = Suc k"
      by auto
    with Cons.IH [OF k(1)] Cons.prems(2) False show ?thesis
      by (auto simp: remove_at_def fun_eq_iff)
  qed
qed simp

section \<open>The three views\<close>

type_synonym leg_view = "position_id \<Rightarrow> (contract_key \<times> side \<times> quantity \<times> price_cents) option"

definition inventory_view :: "'e books \<Rightarrow> leg_view" where
  "inventory_view b pid = map_option
     (\<lambda>l. (op_contract l, op_side l, op_quantity l, op_entry_premium l)) (leg_get (bk_inventory b) pid)"

definition log_view :: "'e books \<Rightarrow> leg_view" where
  "log_view b pid = map_option
     (\<lambda>l. (ol_contract l, ol_side l, ol_remaining l, ol_entry_premium l)) (bt_get (tl_open (bk_log b)) pid)"

definition rows_view :: "'e books \<Rightarrow> position_id \<Rightarrow> price_cents option" where
  "rows_view b pid = map_option lm_entry_premium (bt_get (bd_open_legs (bk_bundle b)) pid)"

definition books_sync :: "'e books \<Rightarrow> bool" where
  "books_sync b \<longleftrightarrow> distinct (map op_id (bk_inventory b)) \<and>
     (\<forall>l \<in> set (bk_inventory b). op_id l < ic_position (bk_ids b)) \<and>
     log_view b = inventory_view b \<and>
     rows_view b = (\<lambda>pid. map_option (\<lambda>(_, _, _, p). p) (inventory_view b pid))"

lemma books_sync_frame:
  assumes "books_sync b" and "bk_inventory b' = bk_inventory b" "tl_open (bk_log b') = tl_open (bk_log b)"
    and "bd_open_legs (bk_bundle b') = bd_open_legs (bk_bundle b)"
    and "ic_position (bk_ids b') = ic_position (bk_ids b)"
  shows "books_sync b'"
  using assms
  by (simp add: books_sync_def inventory_view_def [abs_def] log_view_def [abs_def] rows_view_def [abs_def])

lemma books_syncD:
  assumes "books_sync b" and "leg_get (bk_inventory b) pid = Some l"
  obtains o' m where "bt_get (tl_open (bk_log b)) pid = Some o'"
    and "ol_contract o' = op_contract l" "ol_side o' = op_side l" "ol_remaining o' = op_quantity l"
    and "ol_entry_premium o' = op_entry_premium l"
    and "bt_get (bd_open_legs (bk_bundle b)) pid = Some m" "lm_entry_premium m = op_entry_premium l"
proof -
  from assms have "log_view b pid = Some (op_contract l, op_side l, op_quantity l, op_entry_premium l)"
    "rows_view b pid = Some (op_entry_premium l)"
    by (simp_all add: books_sync_def inventory_view_def)
  then show thesis using that by (auto simp: log_view_def rows_view_def)
qed

section \<open>The leg operations keep the views equal\<close>

lemma open_new_leg_sync:
  assumes "books_sync b" and "open_new_leg tid f a ts b = Inr (b', pid)"
  shows "books_sync b'"
proof -
  from assms(2) have pid: "pid = ic_position (bk_ids b)"
    and ids: "ic_position (bk_ids b') = pid + 1"
    and inv: "bk_inventory b' = bk_inventory b @
        [\<lparr>op_id = pid, op_contract = fl_contract f, op_side = fl_side f,
          op_quantity = fa_quantity a, op_entry_premium = fa_vwap a\<rparr>]"
    and log: "bk_log b' = record_open pid tid (fl_contract f) (fl_side f) (fa_quantity a) (fa_vwap a) ts (bk_log b)"
    and rows: "bk_bundle b' = register_open_leg pid tid (fa_vwap a) (fl_side f) (bk_bundle b)"
    by (auto simp: open_new_leg_def mint_position_def res_simps checked_defs)
  have fresh: "pid \<notin> op_id ` set (bk_inventory b)"
    using assms(1) pid by (auto simp: books_sync_def)
  have "leg_get (bk_inventory b') = (leg_get (bk_inventory b))(pid \<mapsto>
      \<lparr>op_id = pid, op_contract = fl_contract f, op_side = fl_side f,
        op_quantity = fa_quantity a, op_entry_premium = fa_vwap a\<rparr>)"
    unfolding inv using fresh by (subst leg_get_append) auto
  moreover have "distinct (map op_id (bk_inventory b'))"
    "\<forall>l \<in> set (bk_inventory b'). op_id l < ic_position (bk_ids b')"
    using assms(1) fresh by (auto simp: inv ids books_sync_def pid)
  ultimately show ?thesis
    using assms(1)
    by (auto simp: books_sync_def inventory_view_def log_view_def rows_view_def log rows fun_eq_iff)
qed

lemma extend_open_leg_Inr:
  assumes "extend_open_leg ls pid fs agg = Inr ls'"
  obtains i premium where "position_of (\<lambda>l. op_id l = pid) ls = Some i"
    and "ls' = ls[i := (ls ! i)\<lparr>op_quantity := op_quantity (ls ! i) + fa_quantity agg,
                               op_entry_premium := premium\<rparr>]"
  using assms
  by (auto simp: extend_open_leg_def res_simps checked_defs Let_def split: option.splits)

lemma extend_leg_sync:
  assumes sync: "books_sync b" and "extend_leg tid pid fs f agg b = Inr b'"
  shows "books_sync b'"
proof -
  from assms(2) obtain inventory l log where
    ext: "extend_open_leg (bk_inventory b) pid fs agg = Inr inventory"
    and l: "leg_get inventory pid = Some l"
    and log: "record_open_extend pid (fa_quantity agg) (op_entry_premium l) (bk_log b) = Inr log"
    and b': "b' = b\<lparr>bk_inventory := inventory, bk_log := log,
      bk_bundle := register_open_leg pid tid (op_entry_premium l) (fl_side f) (bk_bundle b)\<rparr>"
    by (auto simp: extend_leg_def leg_get_def res_simps)
  from extend_open_leg_Inr [OF ext] obtain i premium where
    i: "position_of (\<lambda>l. op_id l = pid) (bk_inventory b) = Some i"
    and inventory: "inventory = (bk_inventory b)[i := (bk_inventory b ! i)
      \<lparr>op_quantity := op_quantity (bk_inventory b ! i) + fa_quantity agg, op_entry_premium := premium\<rparr>]" .
  let ?old = "bk_inventory b ! i"
  have old: "leg_get (bk_inventory b) pid = Some ?old"
    using position_leg_get(2) [OF i] .
  with leg_get_Some have "op_id ?old = pid" by blast
  note upd = leg_get_update [OF i, of "?old\<lparr>op_quantity := op_quantity ?old + fa_quantity agg,
      op_entry_premium := premium\<rparr>", folded inventory, simplified, OF this]
  with l have l': "l = ?old\<lparr>op_quantity := op_quantity ?old + fa_quantity agg,
      op_entry_premium := premium\<rparr>" by simp
  from record_open_extend_Inr [OF log] obtain leg where
    "bt_get (tl_open (bk_log b)) pid = Some leg"
    and log': "bt_get (tl_open log) = (bt_get (tl_open (bk_log b)))(pid \<mapsto>
      leg\<lparr>ol_remaining := ol_remaining leg + fa_quantity agg, ol_entry_premium := op_entry_premium l\<rparr>)" .
  moreover from books_syncD [OF sync old] obtain o' where
    "bt_get (tl_open (bk_log b)) pid = Some o'" "ol_contract o' = op_contract ?old"
    "ol_side o' = op_side ?old" "ol_remaining o' = op_quantity ?old" by blast
  ultimately have "log_view b' = (log_view b)(pid \<mapsto> (op_contract ?old, op_side ?old,
      op_quantity ?old + fa_quantity agg, premium))"
    by (auto simp: log_view_def b' l' fun_eq_iff)
  moreover have "inventory_view b' = (inventory_view b)(pid \<mapsto> (op_contract ?old, op_side ?old,
      op_quantity ?old + fa_quantity agg, premium))"
    using upd by (auto simp: inventory_view_def b' fun_eq_iff)
  moreover have "rows_view b' = (rows_view b)(pid \<mapsto> premium)"
    by (auto simp: rows_view_def b' l' fun_eq_iff)
  moreover have "distinct (map op_id inventory)"
    "\<forall>l \<in> set inventory. op_id l < ic_position (bk_ids b)"
  proof -
    show "distinct (map op_id inventory)" using upd sync by (simp add: books_sync_def)
    have "op_id ` set inventory = op_id ` set (bk_inventory b)" using upd by (metis set_map)
    then show "\<forall>l \<in> set inventory. op_id l < ic_position (bk_ids b)"
      using sync by (force simp: books_sync_def)
  qed
  ultimately show ?thesis using sync by (auto simp: books_sync_def b' fun_eq_iff)
qed

lemma reduce_leg_Inr:
  assumes "reduce_leg ls pid q = Inr (ls', full)"
  obtains i where "position_of (\<lambda>l. op_id l = pid) ls = Some i" and "q \<le> op_quantity (ls ! i)"
    and "full \<longleftrightarrow> q = op_quantity (ls ! i)"
    and "ls' = (if full then remove_at i ls
                else ls[i := (ls ! i)\<lparr>op_quantity := op_quantity (ls ! i) - q\<rparr>])"
  using assms by (auto simp: reduce_leg_def res_simps split: if_splits)

lemma close_loop_frame:
  assumes "fold_res (book_close_fill m oid pid base) lfs b = Inr b'"
  shows "bk_inventory b' = bk_inventory b \<and> bk_log b' = bk_log b \<and> bk_ids b' = bk_ids b \<and>
    bk_pending b' = bk_pending b \<and> bd_open_legs (bk_bundle b') = bd_open_legs (bk_bundle b)"
  using assms
  by (rule fold_res_invariant [where P = "\<lambda>c. bk_inventory c = bk_inventory b \<and> bk_log c = bk_log b \<and>
      bk_ids c = bk_ids b \<and> bk_pending c = bk_pending b \<and>
      bd_open_legs (bk_bundle c) = bd_open_legs (bk_bundle b)"])
    (auto simp: book_close_fill_def res_simps elim!: record_close_fill_Inr)

lemma open_loop_frame:
  assumes "fold_res (book_open_fill m oid tid pid base) lfs b = Inr b'"
  shows "bk_inventory b' = bk_inventory b \<and> bk_log b' = bk_log b \<and> bk_ids b' = bk_ids b \<and>
    bk_pending b' = bk_pending b \<and> bd_open_legs (bk_bundle b') = bd_open_legs (bk_bundle b)"
  using assms
  by (rule fold_res_invariant [where P = "\<lambda>c. bk_inventory c = bk_inventory b \<and> bk_log c = bk_log b \<and>
      bk_ids c = bk_ids b \<and> bk_pending c = bk_pending b \<and>
      bd_open_legs (bk_bundle c) = bd_open_legs (bk_bundle b)"])
    (auto simp: book_open_fill_def res_simps)

lemma close_position_parts:
  assumes "close_position snap m ts oid pid reason base fs first agg b = Inr b'"
  obtains inventory full log where "reduce_leg (bk_inventory b) pid (fa_quantity agg) = Inr (inventory, full)"
    and "record_close pid (fa_vwap agg) (fa_fees agg) (fa_slippage agg) ts (fa_quantity agg) m reason
      (bk_log b) = Inr log"
    and "bk_inventory b' = inventory" "bk_log b' = log" "bk_ids b' = bk_ids b" "bk_pending b' = bk_pending b"
    and "bt_get (bd_open_legs (bk_bundle b')) = (if full then (bt_get (bd_open_legs (bk_bundle b)))(pid := None)
      else bt_get (bd_open_legs (bk_bundle b)))"
proof -
  from assms obtain inventory full log c where
    r: "reduce_leg (bk_inventory b) pid (fa_quantity agg) = Inr (inventory, full)"
    and l: "record_close pid (fa_vwap agg) (fa_fees agg) (fa_slippage agg) ts (fa_quantity agg) m reason
      (bk_log b) = Inr log"
    and loop: "fold_res (book_close_fill m oid pid base) (enumerate 0 fs)
      (b\<lparr>bk_inventory := inventory, bk_log := log\<rparr>) = Inr c"
    and rest: "(if full then rbind (record_close_terminal (fl_contract first) (fl_step first) (fl_ts first) pid
                   (fa_quantity agg) (map_option qv_mid (bt_get (cs_quotes snap) (fl_contract first))) m reason
                   (bk_bundle c)) (\<lambda>bundle. Inr (c\<lparr>bk_bundle := bundle\<rparr>)) else Inr c) = Inr b'"
    by (auto simp: close_position_def res_simps Let_def)
  show thesis
    using close_loop_frame [OF loop] rest
    by (intro that [OF r l]) (auto simp: res_simps split: if_splits dest!: record_close_terminal_Inr)
qed

lemma close_position_sync:
  assumes sync: "books_sync b"
    and "close_position snap m ts oid pid reason base fs first agg b = Inr b'"
  shows "books_sync b'"
proof -
  from close_position_parts [OF assms(2)] obtain inventory full log where
    r: "reduce_leg (bk_inventory b) pid (fa_quantity agg) = Inr (inventory, full)"
    and l: "record_close pid (fa_vwap agg) (fa_fees agg) (fa_slippage agg) ts (fa_quantity agg) m reason
      (bk_log b) = Inr log"
    and b': "bk_inventory b' = inventory" "bk_log b' = log" "bk_ids b' = bk_ids b"
      "bt_get (bd_open_legs (bk_bundle b')) = (if full then (bt_get (bd_open_legs (bk_bundle b)))(pid := None)
        else bt_get (bd_open_legs (bk_bundle b)))" .
  from reduce_leg_Inr [OF r] obtain i where
    i: "position_of (\<lambda>l. op_id l = pid) (bk_inventory b) = Some i"
    and full: "full \<longleftrightarrow> fa_quantity agg = op_quantity (bk_inventory b ! i)"
    and le: "fa_quantity agg \<le> op_quantity (bk_inventory b ! i)"
    and inv: "inventory = (if full then remove_at i (bk_inventory b)
      else (bk_inventory b)[i := (bk_inventory b ! i)\<lparr>op_quantity := op_quantity (bk_inventory b ! i) - fa_quantity agg\<rparr>])" .
  let ?old = "bk_inventory b ! i"
  have old: "leg_get (bk_inventory b) pid = Some ?old" using position_leg_get(2) [OF i] .
  then have id: "op_id ?old = pid" using leg_get_Some by blast
  from books_syncD [OF sync old] obtain o' where o': "bt_get (tl_open (bk_log b)) pid = Some o'"
    "ol_contract o' = op_contract ?old" "ol_side o' = op_side ?old" "ol_remaining o' = op_quantity ?old"
    "ol_entry_premium o' = op_entry_premium ?old" by blast
  have log: "bt_get (tl_open log) = (if full then (bt_get (tl_open (bk_log b)))(pid := None)
      else (bt_get (tl_open (bk_log b)))(pid \<mapsto> o'\<lparr>ol_remaining := op_quantity ?old - fa_quantity agg\<rparr>))"
    using record_close_Inr [OF l] o' full le by (fastforce split: if_splits)
  have sub: "distinct (map op_id inventory) \<and> op_id ` set inventory \<subseteq> op_id ` set (bk_inventory b) \<and>
      leg_get inventory = (if full then (leg_get (bk_inventory b))(pid := None)
        else (leg_get (bk_inventory b))(pid \<mapsto> ?old\<lparr>op_quantity := op_quantity ?old - fa_quantity agg\<rparr>))"
  proof (cases full)
    case True
    with leg_get_remove [OF i] sync show ?thesis by (auto simp: inv books_sync_def)
  next
    case False
    from leg_get_update [OF i, of "?old\<lparr>op_quantity := op_quantity ?old - fa_quantity agg\<rparr>"] id
    have u: "leg_get inventory = (leg_get (bk_inventory b))(pid \<mapsto> ?old\<lparr>op_quantity := op_quantity ?old - fa_quantity agg\<rparr>)"
      "map op_id inventory = map op_id (bk_inventory b)"
      using False by (simp_all add: inv)
    then have "op_id ` set inventory = op_id ` set (bk_inventory b)" by (metis set_map)
    with u False sync show ?thesis by (auto simp: books_sync_def)
  qed
  have "log_view b' = inventory_view b'"
  proof
    fix k
    have "log_view b k = inventory_view b k" using sync by (simp add: books_sync_def)
    with sub log o' show "log_view b' k = inventory_view b' k"
      by (auto simp: log_view_def inventory_view_def b')
  qed
  moreover have "rows_view b' = (\<lambda>pid. map_option (\<lambda>(_, _, _, p). p) (inventory_view b' pid))"
  proof
    fix k
    have "rows_view b k = map_option (\<lambda>(_, _, _, p). p) (inventory_view b k)"
      using sync by (simp add: books_sync_def)
    with sub old show "rows_view b' k = map_option (\<lambda>(_, _, _, p). p) (inventory_view b' k)"
      by (auto simp: rows_view_def inventory_view_def b')
  qed
  moreover have "\<forall>l \<in> set inventory. op_id l < ic_position (bk_ids b)"
    using sub sync by (force simp: books_sync_def)
  ultimately show ?thesis using sub by (simp add: books_sync_def b')
qed

section \<open>Lifting an invariant through the pass\<close>

text \<open>
  An invariant of the books that does not look at the ledger, the row streams, the registry
  or the trade counter is preserved by the whole pass once the three operations
  on legs preserve it.
\<close>

locale books_invariant =
  fixes invar :: "'e books \<Rightarrow> bool"
  assumes frame: "invar b \<Longrightarrow> bk_inventory b' = bk_inventory b \<Longrightarrow> bk_log b' = bk_log b \<Longrightarrow>
      bd_open_legs (bk_bundle b') = bd_open_legs (bk_bundle b) \<Longrightarrow>
      ic_position (bk_ids b') = ic_position (bk_ids b) \<Longrightarrow>
      ic_order (bk_ids b') = ic_order (bk_ids b) \<Longrightarrow> invar b'"
    and open_leg: "invar b \<Longrightarrow> aggregate_fills fs = Inr agg \<Longrightarrow>
      open_new_leg tid f agg ts b = Inr (b', pid) \<Longrightarrow> invar b'"
    and extend: "invar b \<Longrightarrow> aggregate_fills fs = Inr agg \<Longrightarrow>
      extend_leg tid pid fs f agg b = Inr b' \<Longrightarrow> invar b'"
    and close: "invar b \<Longrightarrow> aggregate_fills fs = Inr agg \<Longrightarrow>
      close_position snap m ts oid pid reason base fs f agg b = Inr b' \<Longrightarrow> invar b'"
begin

lemma set_ids:
  "invar b \<Longrightarrow> ic_position ids = ic_position (bk_ids b) \<and> ic_order ids = ic_order (bk_ids b) \<Longrightarrow>
     invar (b\<lparr>bk_ids := ids\<rparr>)"
  by (rule frame) simp_all

lemma set_registry: "invar b \<Longrightarrow> invar (b\<lparr>bk_pending := p\<rparr>)"
  by (rule frame) simp_all

lemma open_loop: "invar b \<Longrightarrow> fold_res (book_open_fill m oid tid pid base) lfs b = Inr b' \<Longrightarrow> invar b'"
  using open_loop_frame [of m oid tid pid base lfs b b'] frame [of b b'] by simp

lemma mint_trade_position:
  "mint_trade ids = Inr (ids', t) \<Longrightarrow> ic_position ids' = ic_position ids \<and> ic_order ids' = ic_order ids"
  by (auto simp: mint_trade_def res_simps)

lemma carry_open_invar:
  assumes "invar b" and agg: "aggregate_fills fs = Inr agg"
    and "carry_open m ts oid fs f agg entry b = Inr (b', entry')"
  shows "invar b'"
proof -
  from assms(3) obtain ids tid c pid where
    ids: "mint_if_none (pe_trade entry) (bk_ids b) = Inr (ids, tid)"
    and leg: "(case pe_position entry of
        Some existing \<Rightarrow> rbind (extend_leg tid existing fs f agg (b\<lparr>bk_ids := ids\<rparr>)) (\<lambda>b. Inr (b, existing))
      | None \<Rightarrow> open_new_leg tid f agg ts (b\<lparr>bk_ids := ids\<rparr>)) = Inr (c, pid)"
    and loop: "fold_res (book_open_fill m oid tid pid (pe_fills entry)) (enumerate 0 fs) c = Inr b'"
    by (auto simp: carry_open_def res_simps Let_def)
  have "ic_position ids = ic_position (bk_ids b) \<and> ic_order ids = ic_order (bk_ids b)"
    using ids by (auto simp: mint_if_none_def dest: mint_trade_position split: option.splits)
  with assms(1) have "invar (b\<lparr>bk_ids := ids\<rparr>)" by (rule set_ids)
  then have "invar c"
    using leg agg by (auto simp: res_simps split: option.splits intro: extend open_leg)
  then show ?thesis using loop by (rule open_loop)
qed

lemma carry_group_invar:
  assumes "invar b" and "apply_carry_group R snap m ts oid fs b = Inr b'"
  shows "invar b'"
proof -
  from assms(2) obtain entry agg f c entry' p where
    agg: "aggregate_fills fs = Inr agg"
    and act: "(case oi_action (po_intent (pe_pending entry)) of
        Open \<Rightarrow> carry_open m ts oid fs f agg entry b
      | Close pid \<Rightarrow> rbind (close_position snap m ts oid pid (unwrap_or (er_manual R) (pe_reason entry))
          (pe_fills entry) fs f agg b) (\<lambda>b. Inr (b, entry))) = Inr (c, entry')"
    and b': "b' = c\<lparr>bk_pending := p\<rparr>"
    by (auto simp: apply_carry_group_def res_simps Let_def split: if_splits)
  have "invar c"
    using act agg assms(1)
    by (cases "oi_action (po_intent (pe_pending entry))")
      (auto simp: res_simps intro: carry_open_invar close)
  then show ?thesis unfolding b' by (rule set_registry)
qed

lemma step_trade_invar:
  "invar (wk_books w) \<Longrightarrow> step_trade_id w = Inr (w', t) \<Longrightarrow> invar (wk_books w')"
  by (auto simp: step_trade_id_def res_simps split: option.splits
      intro!: set_ids dest: mint_trade_position)

lemma fill_order_invar:
  assumes "invar (wk_books w)" and "fill_order R reasons snap fills idx oid oi n w = Inr w'"
  shows "invar (wk_books w')"
proof -
  from assms(2) obtain c fs f agg w2 opened where
    agg: "aggregate_fills fs = Inr agg"
    and act: "(case oi_action oi of
        Open \<Rightarrow> fill_open (sp_mult (cs_spec snap)) (cs_ts snap) oid fs f agg (w\<lparr>wk_cursor := c\<rparr>)
      | Close pid \<Rightarrow> fill_close R reasons snap idx oid pid fs f agg (w\<lparr>wk_cursor := c\<rparr>)) = Inr (w2, opened)"
    and rest: "rest_remainder R reasons idx oid oi fs agg opened w2 = Inr w'"
    by (auto simp: fill_order_def res_simps Let_def)
  have w: "invar (wk_books (w\<lparr>wk_cursor := c\<rparr>))" using assms(1) by simp
  have "invar (wk_books w2)"
  proof (cases "oi_action oi")
    case Open
    with act obtain w1 tid b pid where "step_trade_id (w\<lparr>wk_cursor := c\<rparr>) = Inr (w1, tid)"
      and "open_new_leg tid f agg (cs_ts snap) (wk_books w1) = Inr (b, pid)"
      and "fold_res (book_open_fill (sp_mult (cs_spec snap)) oid tid pid 0) (enumerate 0 fs) b = Inr (wk_books w2)"
      by (auto simp: fill_open_def res_simps)
    with step_trade_invar [OF w] open_leg [OF _ agg] open_loop show ?thesis by blast
  next
    case (Close pid)
    with act w agg show ?thesis by (auto simp: fill_close_def res_simps intro: close)
  qed
  then show ?thesis
    using rest_remainder_books [OF rest] set_registry by auto
qed

lemma route_invar:
  assumes "invar (wk_books w)" and "route_intent R reasons snap fills ids idx oi w = Inr w'"
  shows "invar (wk_books w')"
proof -
  from assms(2) obtain oid n groups ord where r:
    "(if n = 0 then if oi_tif oi = Gtc then rest_whole R reasons idx oid oi (w\<lparr>wk_ordinal := ord, wk_groups := groups\<rparr>)
        else Inl (Execution (MsgZeroFill idx))
      else fill_order R reasons snap fills idx oid oi n (w\<lparr>wk_ordinal := ord, wk_groups := groups\<rparr>)) = Inr w'"
    by (auto simp: route_intent_def res_simps Let_def)
  let ?w = "w\<lparr>wk_ordinal := ord, wk_groups := groups\<rparr>"
  have w: "invar (wk_books ?w)" using assms(1) by simp
  show ?thesis
  proof (cases "n = 0")
    case True
    with r have r': "rest_whole R reasons idx oid oi ?w = Inr w'" by (auto split: if_splits)
    show ?thesis
    proof (cases "oi_action oi")
      case Open
      with r' obtain w1 t p where "step_trade_id ?w = Inr (w1, t)" and "w' = set_pending p w1"
        by (auto simp: rest_whole_def res_simps)
      with step_trade_invar [OF w] show ?thesis by (simp add: set_registry)
    next
      case (Close pid)
      with r' w show ?thesis by (auto simp: rest_whole_def res_simps set_registry)
    qed
  next
    case False
    with r have "fill_order R reasons snap fills idx oid oi n ?w = Inr w'" by simp
    with w show ?thesis by (rule fill_order_invar)
  qed
qed

lemma command_step_invar:
  assumes "invar (wk_books w)" and "command_step R reasons snap fills ids ic w = Inr w'"
  shows "invar (wk_books w')"
proof -
  obtain idx cmd where ic: "ic = (idx, cmd)" by (cases ic)
  have cancelled: "invar (wk_books (set_pending p w))" for p
    using assms(1) by (simp add: set_registry)
  show ?thesis
  proof (cases cmd)
    case (Submit oi)
    with assms ic show ?thesis by (auto simp: command_step_def intro: route_invar)
  next
    case (Cancel oid)
    with assms(2) ic have "w' = set_pending (bt_remove oid (bk_pending (wk_books w))) w"
      by (simp add: command_step_def)
    then show ?thesis using cancelled by (simp only:)
  next
    case (Replace oid oi)
    with assms(2) ic show ?thesis
      using route_invar [OF cancelled] by (simp only: command_step_def prod.case order_command.case)
  qed
qed

theorem step_fills_invar:
  assumes "invar b" and "apply_step_fills R cmds fills groups carry ids snap reasons b = Inr b'"
  shows "invar b'"
proof -
  from assms(2) obtain c b1 w where
    carried: "fold_res (carry_step R snap fills) carry (0, b) = Inr (c, b1)"
    and commands: "fold_res (command_step R reasons snap fills ids) (enumerate 0 cmds)
      \<lparr>wk_books = b1, wk_cursor = c, wk_groups = groups, wk_trade = None, wk_ordinal = 0\<rparr> = Inr w"
    and w: "wk_books w = b'"
    by (auto simp: apply_step_fills_def res_simps split: if_splits)
  have "invar (snd (c, b1))"
    by (rule fold_res_invariant [OF carried, where P = "\<lambda>s. invar (snd s)"])
      (use assms(1) in \<open>auto simp: carry_step_def res_simps intro: carry_group_invar\<close>)
  then have "invar (wk_books w)"
    by (intro fold_res_invariant [OF commands, where P = "\<lambda>w. invar (wk_books w)"])
      (auto intro: command_step_invar)
  then show ?thesis using w by simp
qed

end

interpretation sync: books_invariant books_sync
proof unfold_locales
  fix b b' :: "'e books"
  assume "books_sync b" "bk_inventory b' = bk_inventory b" "bk_log b' = bk_log b"
    "bd_open_legs (bk_bundle b') = bd_open_legs (bk_bundle b)"
    "ic_position (bk_ids b') = ic_position (bk_ids b)"
  then show "books_sync b'" by (auto intro: books_sync_frame)
qed (blast intro: open_new_leg_sync extend_leg_sync close_position_sync)+

text \<open>
  C6. The three records of the open legs never drift apart: if the inventory and the trade log
  describe the same legs (contract, side, remaining quantity, entry premium, under distinct ids
  all minted before) and the bundle collector has exactly these ids with their entry premiums,
  that is still so after any successful correlation pass, whatever opened, was carried, extended,
  reduced or closed in it.
\<close>

theorem step_fills_keep_sync:
  assumes "books_sync b" and "apply_step_fills R cmds fills groups carry ids snap reasons b = Inr b'"
  shows "distinct (map op_id (bk_inventory b')) \<and>
    (\<forall>l \<in> set (bk_inventory b'). op_id l < ic_position (bk_ids b')) \<and>
    log_view b' = inventory_view b' \<and>
    rows_view b' = (\<lambda>pid. map_option (\<lambda>(_, _, _, p). p) (inventory_view b' pid))"
  using sync.step_fills_invar [OF assms] unfolding books_sync_def .

lemma sample_books_sync: "books_sync sample_books"
  by (auto simp: books_sync_def sample_books_def inventory_view_def log_view_def rows_view_def
      trade_log_new_def bundle_new_def fun_eq_iff)

theorem step_fills_keep_sync_witness:
  "\<exists>b'. sample_pass = Inr b' \<and> log_view b' = inventory_view b'"
proof -
  from sample_pass_Inr obtain b' where b': "sample_pass = Inr b'" ..
  with step_fills_keep_sync [OF sample_books_sync b' [unfolded sample_pass_def]] show ?thesis
    by blast
qed

end
