(* ===== verification/Books_Errors.thy ===== *)
theory Books_Errors
  imports Books_Sync
begin

text \<open>
  Which errors the correlation pass can end in. Several branches of the code guard against a
  record of the legs that disagrees with the inventory, or an order without fills; from books
  in sync none of them can be taken.
\<close>

definition defensive :: "execution_message \<Rightarrow> bool" where
  "defensive m = (case m of
      MsgExtendNotTracked _ \<Rightarrow> True | MsgCloseNotTracked _ \<Rightarrow> True
    | MsgBundleCloseNotOpen _ \<Rightarrow> True | MsgBundleTerminalNotOpen _ \<Rightarrow> True
    | MsgExtensionLost _ \<Rightarrow> True | MsgLegVanished \<Rightarrow> True | MsgZeroQuantityAverage \<Rightarrow> True
    | MsgCarryEmpty \<Rightarrow> True | MsgEmptyRun \<Rightarrow> True | _ \<Rightarrow> False)"

definition reachable_error :: "backtest_error \<Rightarrow> bool" where
  "reachable_error e = (case e of Execution m \<Rightarrow> \<not> defensive m | _ \<Rightarrow> True)"

lemma reachable_error_simps [simp]:
  "reachable_error ArithmeticOverflow" "reachable_error (InvalidQuantity q)"
  "reachable_error (Execution m) \<longleftrightarrow> \<not> defensive m"
  by (simp_all add: reachable_error_def)

section \<open>Operations that only fail by arithmetic\<close>

lemma mint_position_Inl: "mint_position ids = Inl e \<Longrightarrow> e = ArithmeticOverflow"
  by (auto simp: mint_position_def res_simps)

lemma mint_trade_Inl: "mint_trade ids = Inl e \<Longrightarrow> e = ArithmeticOverflow"
  by (auto simp: mint_trade_def res_simps)

lemma apply_fill_Inl: "apply_fill l f m = Inl e \<Longrightarrow> e = ArithmeticOverflow"
  by (auto simp: apply_fill_def res_simps cents_checked_add_def)

lemma vwap_Inl: "vwap_cents n q = Inl e \<Longrightarrow> q \<noteq> 0 \<Longrightarrow> e = ArithmeticOverflow"
  by (auto simp: vwap_cents_def res_simps Let_def split: if_splits)

lemma level_seq_Inl: "level_seq base l = Inl e \<Longrightarrow> e = ArithmeticOverflow"
  by (auto simp: level_seq_def res_simps)

lemma realized_pnl_Inl: "realized_pnl_cents sd a b q m f = Inl e \<Longrightarrow> e = ArithmeticOverflow"
  by (auto simp: realized_pnl_cents_def res_simps)

lemma unrealized_Inl: "unrealized_cents a b q m sd = Inl e \<Longrightarrow> e = ArithmeticOverflow"
  by (auto simp: unrealized_cents_def res_simps)

lemma aggregate_fill_Inl: "aggregate_fill f acc = Inl e \<Longrightarrow> e = ArithmeticOverflow"
  by (cases acc) (auto simp: aggregate_fill_def res_simps)

lemma aggregate_fills_Inl: "aggregate_fills fs = Inl e \<Longrightarrow> reachable_error e"
  by (auto simp: aggregate_fills_def res_simps dest!: fold_res_Inl_elem aggregate_fill_Inl vwap_Inl)

lemma aggregate_fills_nonempty: "aggregate_fills fs = Inr a \<Longrightarrow> fs \<noteq> []"
  by (auto simp: aggregate_fills_def res_simps)

lemma carry_notional_Inl: "carry_notional f acc = Inl e \<Longrightarrow> e = ArithmeticOverflow"
  by (auto simp: carry_notional_def res_simps)

lemma extend_open_leg_Inl: "extend_open_leg ls pid fs agg = Inl e \<Longrightarrow> reachable_error e"
  by (auto simp: extend_open_leg_def res_simps Let_def defensive_def split: option.splits
      dest!: fold_res_Inl_elem carry_notional_Inl vwap_Inl)

lemma reduce_leg_Inl: "reduce_leg ls pid q = Inl e \<Longrightarrow> reachable_error e"
  by (auto simp: reduce_leg_def res_simps defensive_def split: if_splits dest!: position_of_Some)

lemma step_trade_id_Inl: "step_trade_id w = Inl e \<Longrightarrow> e = ArithmeticOverflow"
  by (auto simp: step_trade_id_def res_simps split: option.splits dest: mint_trade_Inl)

lemma take_fills_Inl: "take_fills err fills c n = Inl e \<Longrightarrow> e = ArithmeticOverflow \<or> e = err"
  by (auto simp: take_fills_def res_simps)

lemma open_loop_Inl:
  "fold_res (book_open_fill m oid tid pid base) lfs b = Inl e \<Longrightarrow> e = ArithmeticOverflow"
  by (auto simp: book_open_fill_def res_simps dest!: fold_res_Inl_elem level_seq_Inl apply_fill_Inl)

lemma close_loop_Inl:
  assumes "bt_get (bd_open_legs (bk_bundle b)) pid \<noteq> None"
    and "fold_res (book_close_fill m oid pid base) lfs b = Inl e"
  shows "e = ArithmeticOverflow"
  using assms
proof (induction lfs arbitrary: b)
  case (Cons lf lfs)
  then consider "book_close_fill m oid pid base lf b = Inl e"
    | c where "book_close_fill m oid pid base lf b = Inr c"
        "fold_res (book_close_fill m oid pid base) lfs c = Inl e"
    by (auto simp: res_simps)
  then show ?case
  proof cases
    case 1
    with Cons.prems(1) show ?thesis
      by (cases lf) (auto simp: book_close_fill_def res_simps record_close_fill_def
          dest: level_seq_Inl apply_fill_Inl)
  next
    case 2
    then have "bt_get (bd_open_legs (bk_bundle c)) pid \<noteq> None"
      using close_loop_frame [of m oid pid base "[lf]" b c] Cons.prems(1) by simp
    from Cons.IH [OF this 2(2)] show ?thesis .
  qed
qed simp

section \<open>The guards on the records\<close>

lemma extend_leg_Inl:
  assumes sync: "books_sync b" and "extend_leg tid pid fs f agg b = Inl e"
  shows "reachable_error e"
proof (cases "extend_open_leg (bk_inventory b) pid fs agg")
  case (Inr inventory)
  from extend_open_leg_Inr [OF this] obtain i premium where
    i: "position_of (\<lambda>l. op_id l = pid) (bk_inventory b) = Some i"
    and inv: "inventory = (bk_inventory b)[i := (bk_inventory b ! i)
      \<lparr>op_quantity := op_quantity (bk_inventory b ! i) + fa_quantity agg, op_entry_premium := premium\<rparr>]" .
  have old: "leg_get (bk_inventory b) pid = Some (bk_inventory b ! i)"
    using position_leg_get(2) [OF i] .
  then have "op_id (bk_inventory b ! i) = pid" using leg_get_Some by blast
  with leg_get_update [OF i] have "leg_get inventory pid \<noteq> None" by (simp add: inv)
  moreover from books_syncD [OF sync old] have "bt_get (tl_open (bk_log b)) pid \<noteq> None" by blast
  ultimately show ?thesis
    using assms(2) Inr
    by (auto simp: extend_leg_def res_simps leg_get_def [symmetric] record_open_extend_def
        split: option.splits)
qed (use assms(2) in \<open>auto simp: extend_leg_def res_simps intro: extend_open_leg_Inl\<close>)

lemma close_position_Inl:
  assumes sync: "books_sync b"
    and "close_position snap m ts oid pid reason base fs f agg b = Inl e"
  shows "reachable_error e"
proof (cases "reduce_leg (bk_inventory b) pid (fa_quantity agg)")
  case (Inr r)
  obtain inventory full where r: "r = (inventory, full)" by (cases r)
  from reduce_leg_Inr [OF Inr [unfolded r]] obtain i where
    "position_of (\<lambda>l. op_id l = pid) (bk_inventory b) = Some i" .
  from books_syncD [OF sync position_leg_get(2) [OF this]]
  have open_log: "bt_get (tl_open (bk_log b)) pid \<noteq> None"
    and open_rows: "bt_get (bd_open_legs (bk_bundle b)) pid \<noteq> None" by blast+
  show ?thesis
  proof (cases "record_close pid (fa_vwap agg) (fa_fees agg) (fa_slippage agg) ts (fa_quantity agg)
      m reason (bk_log b)")
    case (Inl e')
    with assms(2) Inr r have "e = e'" by (simp add: close_position_def)
    with Inl open_log show ?thesis
      by (auto simp: record_close_def res_simps Let_def dest: realized_pnl_Inl split: if_splits)
  next
    case (Inr log)
    let ?b = "b\<lparr>bk_inventory := inventory, bk_log := log\<rparr>"
    have rows: "bt_get (bd_open_legs (bk_bundle ?b)) pid \<noteq> None" using open_rows by simp
    show ?thesis
    proof (cases "fold_res (book_close_fill m oid pid base) (enumerate 0 fs) ?b")
      case (Inl e')
      with assms(2) Inr r \<open>reduce_leg (bk_inventory b) pid (fa_quantity agg) = Inr r\<close>
      have "e = e'" by (simp add: close_position_def)
      with close_loop_Inl [OF rows Inl] show ?thesis by simp
    next
      case (Inr c)
      then have "bt_get (bd_open_legs (bk_bundle c)) pid \<noteq> None"
        using close_loop_frame [OF Inr] rows by simp
      with Inr assms(2) r \<open>reduce_leg (bk_inventory b) pid (fa_quantity agg) = Inr r\<close>
        \<open>record_close pid (fa_vwap agg) (fa_fees agg) (fa_slippage agg) ts (fa_quantity agg)
          m reason (bk_log b) = Inr log\<close>
      show ?thesis
        by (auto simp: close_position_def record_close_terminal_def res_simps Let_def
            dest!: unrealized_Inl split: if_splits prod.splits)
    qed
  qed
qed (use assms(2) in \<open>auto simp: close_position_def res_simps intro: reduce_leg_Inl\<close>)

section \<open>The pass\<close>

lemma carry_open_Inl:
  assumes sync: "books_sync b" and "carry_open m ts oid fs f agg entry b = Inl e"
  shows "reachable_error e"
proof (cases "mint_if_none (pe_trade entry) (bk_ids b)")
  case (Inl e')
  with assms(2) show ?thesis
    by (auto simp: carry_open_def mint_if_none_def dest!: mint_trade_Inl split: option.splits)
next
  case (Inr r)
  obtain ids tid where r: "r = (ids, tid)" by (cases r)
  have "ic_position ids = ic_position (bk_ids b) \<and> ic_order ids = ic_order (bk_ids b)"
    using Inr r by (auto simp: mint_if_none_def dest: sync.mint_trade_position split: option.splits)
  with sync have "books_sync (b\<lparr>bk_ids := ids\<rparr>)" by (rule sync.set_ids)
  with assms(2) Inr r show ?thesis
    by (auto simp: carry_open_def res_simps Let_def split: option.splits
        dest!: open_loop_Inl mint_position_Inl intro: extend_leg_Inl simp: open_new_leg_def)
qed

lemma carry_group_Inl:
  assumes sync: "books_sync b" and "apply_carry_group R snap m ts oid fs b = Inl e"
  shows "reachable_error e"
proof (cases "bt_get (bk_pending b) oid")
  case None
  with assms(2) show ?thesis by (auto simp: apply_carry_group_def defensive_def)
next
  case (Some entry)
  have act: "reachable_error e'"
    if "(case oi_action (po_intent (pe_pending entry)) of
        Open \<Rightarrow> carry_open m ts oid fs f agg entry b
      | Close pid \<Rightarrow> rbind (close_position snap m ts oid pid (unwrap_or (er_manual R) (pe_reason entry))
          (pe_fills entry) fs f agg b) (\<lambda>b. Inr (b, entry))) = Inl e'" for f agg e'
    using that sync
    by (cases "oi_action (po_intent (pe_pending entry))")
      (auto simp: res_simps intro: carry_open_Inl close_position_Inl)
  from assms(2) Some show ?thesis
    by (auto simp: apply_carry_group_def res_simps Let_def defensive_def first_fill_def
        dest!: aggregate_fills_nonempty aggregate_fills_Inl intro: act split: list.splits if_splits)
qed

lemma carry_step_Inl:
  assumes "books_sync b" and "carry_step R snap fills g (c, b) = Inl e"
  shows "reachable_error e"
  using assms
  by (auto simp: carry_step_def res_simps defensive_def dest!: take_fills_Inl intro: carry_group_Inl)

lemma fill_open_Inl:
  "fill_open m ts oid fs f agg w = Inl e \<Longrightarrow> e = ArithmeticOverflow"
  by (auto simp: fill_open_def open_new_leg_def res_simps
      dest!: step_trade_id_Inl mint_position_Inl open_loop_Inl)

lemma rest_remainder_Inl:
  "rest_remainder R reasons idx oid oi fs agg opened w = Inl e \<Longrightarrow> reachable_error e"
  by (cases "oi_action oi") (auto simp: rest_remainder_def res_simps split: if_splits)

lemma fill_order_Inl:
  assumes "books_sync (wk_books w)" and "n \<noteq> 0"
    and "fill_order R reasons snap fills idx oid oi n w = Inl e"
  shows "reachable_error e"
proof (cases "take_fills (Execution MsgPastFills) fills (wk_cursor w) n")
  case (Inl e')
  with assms(3) show ?thesis
    by (auto simp: fill_order_def defensive_def dest!: take_fills_Inl)
next
  case (Inr r)
  obtain c fs where r: "r = (c, fs)" by (cases r)
  with take_fills_Inr [OF Inr [unfolded r]] assms(2) obtain f fs' where fs: "fs = f # fs'"
    by (cases fs) auto
  have "books_sync (wk_books (w\<lparr>wk_cursor := c\<rparr>))" using assms(1) by simp
  then show ?thesis
    using assms(3) Inr r fs
    by (cases "oi_action oi")
      (auto simp: fill_order_def res_simps Let_def first_fill_def fill_close_def
        dest!: fill_open_Inl rest_remainder_Inl aggregate_fills_Inl intro: close_position_Inl)
qed

lemma route_intent_Inl:
  assumes "books_sync (wk_books w)" and "route_intent R reasons snap fills ids idx oi w = Inl e"
  shows "reachable_error e"
proof -
  have take: "take_group idx g = Inl e' \<Longrightarrow> e' = ArithmeticOverflow" for g e'
    by (auto simp: take_group_def res_simps split: option.splits list.splits if_splits)
  have rest: "rest_whole R reasons idx oid oi v = Inl e' \<Longrightarrow> e' = ArithmeticOverflow" for oid v e'
    by (cases "oi_action oi") (auto simp: rest_whole_def res_simps dest: step_trade_id_Inl)
  have order: "reachable_error e'"
    if "fill_order R reasons snap fills idx oid oi n (w\<lparr>wk_ordinal := o', wk_groups := g\<rparr>) = Inl e'" "n \<noteq> 0"
    for oid n o' g e'
    using fill_order_Inl [OF _ that(2,1)] assms(1) by simp
  show ?thesis
    using assms(2)
    by (auto simp: route_intent_def res_simps Let_def defensive_def split: if_splits
        dest!: take rest order)
qed

lemma command_step_Inl:
  assumes "books_sync (wk_books w)" and "command_step R reasons snap fills ids ic w = Inl e"
  shows "reachable_error e"
proof -
  obtain idx cmd where ic: "ic = (idx, cmd)" by (cases ic)
  have "books_sync (wk_books (set_pending p w))" for p
    using sync.set_registry [OF assms(1)] by simp
  from route_intent_Inl [OF this] route_intent_Inl [OF assms(1)] assms(2) ic show ?thesis
    by (cases cmd) (simp_all only: command_step_def prod.case order_command.case sum.distinct)
qed

lemma fold_res_Inl_invariant:
  assumes "fold_res f xs s = Inl e" and "P s"
    and "\<And>x s s'. P s \<Longrightarrow> f x s = Inr s' \<Longrightarrow> P s'"
  shows "\<exists>x s. P s \<and> f x s = Inl e"
  using assms(1,2)
proof (induction xs arbitrary: s)
  case (Cons x xs)
  then show ?case using assms(3) by (cases "f x s") auto
qed simp

text \<open>
  C7. From books in sync the defensive branches of the correlation pass are dead code: a
  failing pass never reports a close or an extension of a leg the trade log or the bundle has
  lost, a vanished leg, an average over no quantity or an order with an empty run of fills.
  It fails on a seam violation, an invalid command, a quantity of zero or overflow.
\<close>

theorem defensive_errors_unreachable:
  assumes "books_sync b" and "apply_step_fills R cmds fills groups carry ids snap reasons b = Inl e"
  shows "reachable_error e"
proof -
  from assms(2) consider
      "fold_res (\<lambda>cmd _. lifecycle_check (bk_pending b) cmd) cmds () = Inl e"
    | "coverage_check cmds fills groups carry = Inl e"
    | "fold_res (carry_step R snap fills) carry (0, b) = Inl e"
    | c b1 where "fold_res (carry_step R snap fills) carry (0, b) = Inr (c, b1)"
        "fold_res (command_step R reasons snap fills ids) (enumerate 0 cmds)
          \<lparr>wk_books = b1, wk_cursor = c, wk_groups = groups, wk_trade = None, wk_ordinal = 0\<rparr> = Inl e"
    | "e = Execution MsgUnconsumed"
    by (auto simp: apply_step_fills_def res_simps split: if_splits)
  then show ?thesis
  proof cases
    case 1
    then show ?thesis
      by (auto simp: lifecycle_check_def defensive_def dest!: fold_res_Inl_elem
          split: order_command.splits if_splits)
  next
    case 2
    then show ?thesis
      by (auto simp: coverage_check_def add_count_def res_simps defensive_def
          dest!: fold_res_Inl_elem split: if_splits option.splits)
  next
    case 3
    then have "\<exists>g s. books_sync (snd s) \<and> carry_step R snap fills g s = Inl e"
      by (rule fold_res_Inl_invariant)
        (use assms(1) in \<open>auto simp: carry_step_def res_simps intro: sync.carry_group_invar\<close>)
    then show ?thesis using carry_step_Inl by (metis prod.collapse)
  next
    case 4
    have "books_sync (snd (c, b1))"
      by (rule fold_res_invariant [OF 4(1), where P = "\<lambda>s. books_sync (snd s)"])
        (use assms(1) in \<open>auto simp: carry_step_def res_simps intro: sync.carry_group_invar\<close>)
    then have "\<exists>ic w. books_sync (wk_books w) \<and> command_step R reasons snap fills ids ic w = Inl e"
      by (intro fold_res_Inl_invariant [OF 4(2)]) (auto intro: sync.command_step_invar)
    then show ?thesis using command_step_Inl by blast
  next
    case 5
    then show ?thesis by (simp add: defensive_def)
  qed
qed

definition sample_bad_close :: "nat books res" where
  "sample_bad_close = apply_step_fills sample_api
     [Submit (sample_intent\<lparr>oi_action := Close 7, oi_side := Long\<rparr>)] [sample_fill\<lparr>fl_side := Long\<rparr>]
     None [] [1] sample_snapshot \<lparr>cr_exits_end = 0, cr_on_end_start = 1, cr_policy = 0\<rparr> sample_books"

lemma sample_bad_close_Inl: "isl sample_bad_close"
  by code_simp

theorem defensive_errors_unreachable_witness:
  "\<exists>e. sample_bad_close = Inl e \<and> reachable_error e"
proof -
  from sample_bad_close_Inl have e: "sample_bad_close = Inl (projl sample_bad_close)" by simp
  from defensive_errors_unreachable [OF sample_books_sync e [unfolded sample_bad_close_def]] e
  show ?thesis by (metis sample_bad_close_def)
qed

end
