(* ===== verification/Tape_Feed.thy ===== *)
theory Tape_Feed
  imports Market
begin

text \<open>
  The data feed seam (\<open>src/data/feed.rs\<close>): the facts of a tape, derived and validated when a
  feed is built, the feed interface as a record of its operations over its own state, and the
  catalogue of feed kinds.
\<close>

record tape_meta =
  tm_data_identity :: string
  tm_non_empty :: bool
  tm_first_ts :: int
  tm_final_step :: int

text \<open>The walk over the tape after its first snapshot, with the previous timestamp and step.\<close>

definition check_next :: "chain_snapshot \<Rightarrow> int \<times> int \<Rightarrow> (int \<times> int) res" where
  "check_next snap = (\<lambda>(prev, prev_step).
     if cs_ts snap \<le> prev then Inl (DataOutOfOrder (cs_step snap) (cs_ts snap) prev)
     else rbind (checked (checked_add U32 prev_step 1)) (\<lambda>expected.
          if cs_step snap \<noteq> expected then Inl (Conversion (MsgTapeStep (cs_step snap) expected))
          else Inr (cs_ts snap, cs_step snap)))"

definition tape_meta_from_tape :: "string \<Rightarrow> chain_snapshot list \<Rightarrow> tape_meta res" where
  "tape_meta_from_tape identity tape =
     (case tape of
        [] \<Rightarrow> Inl (Conversion MsgTapeEmpty)
      | first # rest \<Rightarrow>
          if cs_step first \<noteq> 0 then Inl (Conversion (MsgTapeStart (cs_step first)))
          else rbind (fold_res check_next rest (cs_ts first, cs_step first)) (\<lambda>(_, prev_step).
               Inr \<lparr>tm_data_identity = identity, tm_non_empty = True, tm_first_ts = cs_ts first,
                    tm_final_step = prev_step\<rparr>))"

record ('f, 'd) data_feed =
  df_next :: "'f \<Rightarrow> ('f \<times> chain_snapshot option) res"
  df_meta :: "'f \<Rightarrow> 'd"
  df_tape_meta :: "'f \<Rightarrow> tape_meta"

datatype feed_kind = CsvKind | ParquetKind | SimulatorKind

definition feature_flag :: "feed_kind \<Rightarrow> string" where
  "feature_flag k = (case k of SimulatorKind \<Rightarrow> ''simulator'' | _ \<Rightarrow> ''default'')"

definition is_reproducible :: "feed_kind \<Rightarrow> bool" where
  "is_reproducible k = (case k of SimulatorKind \<Rightarrow> False | _ \<Rightarrow> True)"

definition feed_catalogue :: "feed_kind list" where
  "feed_catalogue = [CsvKind, ParquetKind, SimulatorKind]"

section \<open>What a valid tape is\<close>

lemma check_next_Inr [res_simps]:
  "check_next snap (p, n) = Inr r \<longleftrightarrow>
     p < cs_ts snap \<and> fits U32 (n + 1) \<and> cs_step snap = n + 1 \<and> r = (cs_ts snap, n + 1)"
  by (auto simp: check_next_def res_simps checked_defs)

lemma steps_Cons:
  "map (\<lambda>i. n + int i) [0..<Suc k] = n # map (\<lambda>i. n + 1 + int i) [0..<k]"
  by (simp add: upt_conv_Cons map_Suc_upt [symmetric] del: upt_Suc)

lemma check_tail:
  "fold_res check_next tape (p, n) = Inr r \<Longrightarrow> fits U32 n \<Longrightarrow>
     sorted_wrt (<) (p # map cs_ts tape) \<and>
     map cs_step tape = map (\<lambda>i. n + 1 + int i) [0..<length tape] \<and>
     snd r = n + int (length tape) \<and> fits U32 (snd r)"
proof (induction tape arbitrary: p n)
  case (Cons s tape)
  then have s: "p < cs_ts s" "cs_step s = n + 1" and fits: "fits U32 (n + 1)"
    and rest: "fold_res check_next tape (cs_ts s, n + 1) = Inr r"
    by (auto simp: res_simps)
  from Cons.IH [OF rest fits] s show ?case by (auto simp: steps_Cons simp del: upt_Suc)
qed auto

lemma check_tail_complete:
  "sorted_wrt (<) (p # map cs_ts tape) \<Longrightarrow>
     map cs_step tape = map (\<lambda>i. n + 1 + int i) [0..<length tape] \<Longrightarrow>
     0 \<le> n \<Longrightarrow> fits U32 (n + int (length tape)) \<Longrightarrow>
     \<exists>ts. fold_res check_next tape (p, n) = Inr (ts, n + int (length tape))"
proof (induction tape arbitrary: p n)
  case (Cons s tape)
  have "cs_step s = n + 1" and lt: "p < cs_ts s"
    and steps: "map cs_step tape = map (\<lambda>i. n + 1 + 1 + int i) [0..<length tape]"
    using Cons.prems(1,2) by (auto simp: steps_Cons simp del: upt_Suc)
  moreover have "fits U32 (n + 1)" using Cons.prems(3,4) by (auto simp: width_simps)
  ultimately have here: "check_next s (p, n) = Inr (cs_ts s, n + 1)" by (simp add: res_simps)
  have "\<exists>ts. fold_res check_next tape (cs_ts s, n + 1) = Inr (ts, n + 1 + int (length tape))"
    using Cons.prems steps by (intro Cons.IH) (auto simp: algebra_simps)
  with here show ?case by (simp add: algebra_simps)
qed simp

lemma tape_meta_Inr_iff:
  "tape_meta_from_tape identity tape = Inr m \<longleftrightarrow>
     tape \<noteq> [] \<and> sorted_wrt (<) (map cs_ts tape) \<and>
     map cs_step tape = map int [0..<length tape] \<and> length tape \<le> 2 ^ 32 \<and>
     m = \<lparr>tm_data_identity = identity, tm_non_empty = True, tm_first_ts = cs_ts (hd tape),
          tm_final_step = int (length tape) - 1\<rparr>"
proof (cases tape)
  case Nil
  then show ?thesis by (simp add: tape_meta_from_tape_def)
next
  case (Cons first rest)
  have steps: "map int [0..<length tape] = 0 # map (\<lambda>i. 1 + int i) [0..<length rest]"
    using steps_Cons [of 0 "length rest"] by (simp add: Cons del: upt_Suc)
  show ?thesis
  proof
    assume "tape_meta_from_tape identity tape = Inr m"
    then obtain r where "cs_step first = 0" and r: "fold_res check_next rest (cs_ts first, 0) = Inr r"
      and m: "m = \<lparr>tm_data_identity = identity, tm_non_empty = True, tm_first_ts = cs_ts first,
          tm_final_step = snd r\<rparr>"
      by (auto simp: tape_meta_from_tape_def Cons res_simps split: if_splits)
    with check_tail [OF r] show "tape \<noteq> [] \<and> sorted_wrt (<) (map cs_ts tape) \<and>
     map cs_step tape = map int [0..<length tape] \<and> length tape \<le> 2 ^ 32 \<and>
     m = \<lparr>tm_data_identity = identity, tm_non_empty = True, tm_first_ts = cs_ts (hd tape),
          tm_final_step = int (length tape) - 1\<rparr>"
      unfolding steps by (simp add: Cons width_simps)
  next
    assume t: "tape \<noteq> [] \<and> sorted_wrt (<) (map cs_ts tape) \<and>
     map cs_step tape = map int [0..<length tape] \<and> length tape \<le> 2 ^ 32 \<and>
     m = \<lparr>tm_data_identity = identity, tm_non_empty = True, tm_first_ts = cs_ts (hd tape),
          tm_final_step = int (length tape) - 1\<rparr>"
    then have "cs_step first = 0" and tail: "map cs_step rest = map (\<lambda>i. 0 + 1 + int i) [0..<length rest]"
      unfolding steps by (simp_all add: Cons)
    moreover have "\<exists>ts. fold_res check_next rest (cs_ts first, 0) = Inr (ts, 0 + int (length rest))"
      using t by (intro check_tail_complete tail) (auto simp: Cons width_simps)
    ultimately show "tape_meta_from_tape identity tape = Inr m"
      using t by (auto simp: tape_meta_from_tape_def Cons)
  qed
qed

text \<open>
  C10. A tape is accepted exactly when it is not empty, its timestamps increase strictly and
  its steps are 0, 1, 2 and so on without a gap, within \<open>u32\<close>; its facts are then those of
  the tape: the first timestamp, and a final step that is the number of snapshots less one.
\<close>

theorem tape_accepted_iff:
  "tape_meta_from_tape identity tape = Inr m \<longleftrightarrow>
     tape \<noteq> [] \<and> sorted_wrt (<) (map cs_ts tape) \<and>
     map cs_step tape = map int [0..<length tape] \<and> length tape \<le> 2 ^ 32 \<and>
     m = \<lparr>tm_data_identity = identity, tm_non_empty = True, tm_first_ts = cs_ts (hd tape),
          tm_final_step = int (length tape) - 1\<rparr>"
  by (rule tape_meta_Inr_iff)

end
