(* ===== verification/Data_Source.thy ===== *)
theory Data_Source
  imports Backtest_Error
begin

text \<open>
  Where a tape comes from (\<open>src/data/mod.rs\<close>): the source specification recorded with a run,
  and the redaction of credentials from the simulator's base url before it is recorded. The
  simulator's session request is a record of the service's wire format, a type parameter here.
\<close>

record 'q simulator_source_spec =
  ss_session :: 'q
  ss_base_url :: string
  ss_data_seed :: int
  ss_tape_sha256 :: string
  ss_version :: "string option"

datatype 'q data_source_spec =
    CsvSource (ds_path: string) (ds_sha256: string)
  | ParquetSource (ds_path: string) (ds_sha256: string)
  | SimulatorSource "'q simulator_source_spec"

section \<open>Searching a string\<close>

text \<open>\<open>str::find\<close> of a pattern; characters outside ASCII never match the patterns used here.\<close>

fun find_str :: "string \<Rightarrow> string \<Rightarrow> nat option" where
  "find_str pat [] = (if pat = [] then Some 0 else None)"
| "find_str pat (c # s) =
     (if take (length pat) (c # s) = pat then Some 0 else map_option Suc (find_str pat s))"

text \<open>\<open>str::rfind\<close> of a character.\<close>

fun rfind_char :: "char \<Rightarrow> string \<Rightarrow> nat option" where
  "rfind_char a [] = None"
| "rfind_char a (c # s) =
     (case rfind_char a s of Some i \<Rightarrow> Some (Suc i) | None \<Rightarrow> if c = a then Some 0 else None)"

definition authority_stop :: "char \<Rightarrow> bool" where
  "authority_stop c \<longleftrightarrow> c = CHR ''/'' \<or> c = CHR ''?'' \<or> c = CHR ''#''"

definition authority_end :: "string \<Rightarrow> nat" where
  "authority_end s = unwrap_or (length s) (position_of authority_stop s)"

section \<open>Redaction\<close>

definition redact_url_userinfo :: "string \<Rightarrow> string" where
  "redact_url_userinfo url =
     (case find_str ''://'' url of
        None \<Rightarrow>
          if CHR ''@'' \<in> set (take (authority_end url) url) then ''[redacted-url]'' else url
      | Some scheme_sep \<Rightarrow>
          let authority_start = scheme_sep + 3;
              prefix = take authority_start url;
              rest = drop authority_start url;
              authority = take (authority_end rest) rest in
          (case rfind_char CHR ''@'' authority of
             None \<Rightarrow> url
           | Some i \<Rightarrow> prefix @ drop (i + 1) rest))"

text \<open>What the recorded specification shows of a source: the base url redacted.\<close>

definition recorded_source :: "'q simulator_source_spec \<Rightarrow> 'q simulator_source_spec" where
  "recorded_source s = s\<lparr>ss_base_url := redact_url_userinfo (ss_base_url s)\<rparr>"

section \<open>No credentials are recorded\<close>

text \<open>
  The reading of a url by RFC 3986, independent of the search above: a scheme of letters, digits,
  \<open>+\<close>, \<open>-\<close> and \<open>.\<close> that starts with a letter, the separator, the authority up to the path, query or
  fragment, and the rest. The host is what follows the last at sign of the authority.
\<close>

definition is_letter :: "char \<Rightarrow> bool" where
  "is_letter c \<longleftrightarrow> c \<in> set ''abcdefghijklmnopqrstuvwxyzABCDEFGHIJKLMNOPQRSTUVWXYZ''"

definition scheme_char :: "char \<Rightarrow> bool" where
  "scheme_char c \<longleftrightarrow> is_letter c \<or> c \<in> set ''0123456789+-.''"

definition absolute_url :: "string \<Rightarrow> (string \<times> string \<times> string) option" where
  "absolute_url url =
     (let scheme = takeWhile scheme_char url; rest = dropWhile scheme_char url; hier = drop 3 rest in
      if scheme \<noteq> [] \<and> is_letter (hd scheme) \<and> take 3 rest = ''://''
      then Some (scheme, takeWhile (Not \<circ> authority_stop) hier, dropWhile (Not \<circ> authority_stop) hier)
      else None)"

definition host_part :: "string \<Rightarrow> string" where
  "host_part authority = rev (takeWhile (\<lambda>c. c \<noteq> CHR ''@'') (rev authority))"

lemma take_authority_end: "take (authority_end s) s = takeWhile (Not \<circ> authority_stop) s"
proof (induction s)
  case (Cons c s)
  then show ?case
    by (cases "position_of authority_stop s") (auto simp: authority_end_def)
qed (simp add: authority_end_def)

lemma rfind_char_None: "rfind_char a s = None \<longleftrightarrow> a \<notin> set s"
  by (induction s) (auto split: option.splits)

lemma rfind_char_Some:
  "rfind_char a s = Some i \<Longrightarrow> i < length s \<and> a \<notin> set (drop (Suc i) s)"
proof (induction s arbitrary: i)
  case (Cons c s)
  show ?case
  proof (cases "rfind_char a s")
    case None
    with Cons.prems show ?thesis by (auto simp: rfind_char_None split: if_splits)
  next
    case (Some j)
    with Cons.prems Cons.IH [of j] show ?thesis by auto
  qed
qed simp

lemma rfind_char_host: "rfind_char CHR ''@'' s = Some i \<Longrightarrow> drop (i + 1) s = host_part s"
proof (induction s arbitrary: i)
  case (Cons c s)
  show ?case
  proof (cases "rfind_char CHR ''@'' s")
    case None
    then have "CHR ''@'' \<notin> set s" by (simp only: rfind_char_None not_False_eq_True)
    then have "takeWhile (\<lambda>c. c \<noteq> CHR ''@'') (rev s) = rev s" by (auto simp: takeWhile_eq_all_conv)
    moreover have "c = CHR ''@''" "i = 0" using Cons.prems None by (simp_all split: if_splits)
    ultimately show ?thesis by (simp add: host_part_def takeWhile_append)
  next
    case (Some j)
    then have "CHR ''@'' \<in> set s" using rfind_char_None [of "CHR ''@''" s] by force
    then have "host_part (c # s) = host_part s"
      by (simp add: host_part_def takeWhile_append1)
    with Cons Some show ?thesis by simp
  qed
qed simp

lemma host_part_id: "CHR ''@'' \<notin> set s \<Longrightarrow> host_part s = s"
proof -
  assume "CHR ''@'' \<notin> set s"
  then have "takeWhile (\<lambda>c. c \<noteq> CHR ''@'') (rev s) = rev s"
    by (auto simp: takeWhile_eq_all_conv)
  then show ?thesis by (simp only: host_part_def rev_rev_ident)
qed

lemma host_part_clean: "CHR ''@'' \<notin> set (host_part s)"
  by (auto simp: host_part_def dest: set_takeWhileD)

text \<open>In an absolute url the first separator is the one after the scheme.\<close>

lemma find_scheme_separator:
  assumes "\<forall>c \<in> set scheme. scheme_char c"
  shows "find_str ''://'' (scheme @ ''://'' @ rest) = Some (length scheme)"
  using assms
proof (induction scheme)
  case (Cons c scheme)
  then have "c \<noteq> CHR '':''" by (auto simp: scheme_char_def is_letter_def)
  with Cons show ?case by simp
qed simp

lemma absolute_url_Some:
  "absolute_url url = Some (scheme, authority, tail) \<longleftrightarrow>
     url = scheme @ ''://'' @ authority @ tail \<and> scheme \<noteq> [] \<and> is_letter (hd scheme) \<and>
     (\<forall>c \<in> set scheme. scheme_char c) \<and> (\<forall>c \<in> set authority. \<not> authority_stop c) \<and>
     (tail = [] \<or> authority_stop (hd tail))"
  (is "_ \<longleftrightarrow> ?rhs")
proof
  assume url: "absolute_url url = Some (scheme, authority, tail)"
  let ?rest = "dropWhile scheme_char url"
  have "take 3 ?rest = ''://''" and scheme: "scheme = takeWhile scheme_char url" "scheme \<noteq> []" "is_letter (hd scheme)"
    and parts: "authority = takeWhile (Not \<circ> authority_stop) (drop 3 ?rest)"
      "tail = dropWhile (Not \<circ> authority_stop) (drop 3 ?rest)"
    using url by (auto simp: absolute_url_def Let_def split: if_splits)
  then have "url = scheme @ ''://'' @ authority @ tail"
    by (metis append_take_drop_id takeWhile_dropWhile_id)
  moreover have "tail = [] \<or> authority_stop (hd tail)"
    using hd_dropWhile [of "Not \<circ> authority_stop" "drop 3 ?rest"] by (auto simp: parts(2))
  ultimately show ?rhs
    using scheme(2,3) by (auto simp: scheme(1) parts(1) dest: set_takeWhileD)
next
  assume rhs: ?rhs
  have "\<not> scheme_char CHR '':''" by (simp add: scheme_char_def is_letter_def)
  then have "takeWhile scheme_char url = scheme" "dropWhile scheme_char url = ''://'' @ authority @ tail"
    using rhs by (auto simp: takeWhile_append2 dropWhile_append2)
  moreover have "takeWhile (Not \<circ> authority_stop) (authority @ tail) = authority"
    "dropWhile (Not \<circ> authority_stop) (authority @ tail) = tail"
    using rhs by (cases tail; simp add: takeWhile_append2 dropWhile_append2)+
  ultimately show "absolute_url url = Some (scheme, authority, tail)"
    using rhs by (simp add: absolute_url_def Let_def)
qed

text \<open>
  C34. A recorded absolute url carries no user information: if the configured base url is
  \<open>scheme://authority\<close> followed by a path, query or fragment, in the sense of RFC 3986, the recorded
  one has the same scheme and the same tail, and its authority is the host of the configured
  one, which has no at sign. Nothing is said of a text that is not an absolute url: the code
  documents to fail closed there, and does not always.
\<close>

theorem recorded_url_has_no_userinfo:
  assumes "absolute_url (ss_base_url s) = Some (scheme, authority, tail)"
  shows "ss_base_url (recorded_source s) = scheme @ ''://'' @ host_part authority @ tail \<and>
    absolute_url (ss_base_url (recorded_source s)) = Some (scheme, host_part authority, tail) \<and>
    CHR ''@'' \<notin> set (host_part authority)"
proof -
  note url = assms [unfolded absolute_url_Some]
  have scan: "takeWhile (Not \<circ> authority_stop) (authority @ tail) = authority"
    using url by (cases tail) (simp_all add: takeWhile_append2)
  have "find_str ''://'' (ss_base_url s) = Some (length scheme)"
    using url find_scheme_separator [of scheme "authority @ tail"] by simp
  moreover have "take (length scheme + 3) (ss_base_url s) = scheme @ ''://''"
    and rest: "drop (length scheme + 3) (ss_base_url s) = authority @ tail"
    using url by simp_all
  ultimately have redact: "redact_url_userinfo (ss_base_url s) = (case rfind_char CHR ''@'' authority of
      None \<Rightarrow> ss_base_url s | Some i \<Rightarrow> (scheme @ ''://'') @ drop (i + 1) (authority @ tail))"
    by (simp only: redact_url_userinfo_def option.case Let_def take_authority_end scan)
  have "redact_url_userinfo (ss_base_url s) = scheme @ ''://'' @ host_part authority @ tail"
  proof (cases "rfind_char CHR ''@'' authority")
    case None
    then have "host_part authority = authority"
      by (intro host_part_id) (simp only: rfind_char_None not_False_eq_True)
    then show ?thesis using url redact None by simp
  next
    case (Some i)
    have "drop (i + 1) (authority @ tail) = host_part authority @ tail"
      using rfind_char_host [OF Some] rfind_char_Some [OF Some] by simp
    with Some show ?thesis by (simp only: redact option.case append_assoc)
  qed
  moreover have "\<forall>c \<in> set (host_part authority). \<not> authority_stop c"
    using url by (auto simp: host_part_def dest: set_takeWhileD)
  ultimately show ?thesis
    using url host_part_clean [of authority] by (simp add: recorded_source_def absolute_url_Some)
qed

theorem recorded_url_has_no_userinfo_witness:
  "redact_url_userinfo ''https://user:to@ken@sim.example:8080/v1?next=http://a@b''
     = ''https://sim.example:8080/v1?next=http://a@b''"
proof -
  let ?url = "''https://user:to@ken@sim.example:8080/v1?next=http://a@b''"
  have "absolute_url ?url = Some (''https'', ''user:to@ken@sim.example:8080'', ''/v1?next=http://a@b'')"
    by code_simp
  moreover have "host_part ''user:to@ken@sim.example:8080'' = ''sim.example:8080''" by code_simp
  ultimately show ?thesis
    using recorded_url_has_no_userinfo [of "\<lparr>ss_session = (), ss_base_url = ?url, ss_data_seed = 0,
        ss_tape_sha256 = [], ss_version = None\<rparr>"]
    by (simp add: recorded_source_def)
qed

text \<open>
  A text that is not an absolute url keeps its credential when its path or query holds a scheme
  separator: the authority is then looked for after that separator.
\<close>

lemma schemeless_credential_recorded:
  "redact_url_userinfo ''u:secret@h/?next=http://x'' = ''u:secret@h/?next=http://x''"
  by code_simp

end
