(* ===== verification/Replay_Feed.thy ===== *)
theory Replay_Feed
  imports Tape_Feed Data_Source
begin

text \<open>
  The historical feeds as replays of a tape in memory (\<open>src/data/historical.rs\<close>): the shared
  Parquet tape with one cursor per feed, and the feed over a directory of CSV files. How the
  tapes are read is in \<open>Parquet_Tape\<close> and \<open>Csv_Tape\<close>. A feed that replays a list has its own
  interface: what it still yields is a suffix of that list.
\<close>

text \<open>\<open>FeedKind::of\<close>: the kind of feed a recorded source names.\<close>

definition feed_kind_of :: "'q data_source_spec \<Rightarrow> feed_kind" where
  "feed_kind_of spec =
     (case spec of CsvSource _ _ \<Rightarrow> CsvKind | ParquetSource _ _ \<Rightarrow> ParquetKind
      | SimulatorSource _ \<Rightarrow> SimulatorKind)"

section \<open>The Parquet feed\<close>

record parquet_tape =
  pt_snapshots :: "chain_snapshot list"
  pt_meta :: tape_meta
  pt_path :: string
  pt_sha256 :: string

record parquet_feed =
  pf_tape :: parquet_tape
  pf_cursor :: nat

definition parquet_next :: "parquet_feed \<Rightarrow> (parquet_feed \<times> chain_snapshot option) res" where
  "parquet_next f =
     (if pf_cursor f < length (pt_snapshots (pf_tape f))
      then Inr (f\<lparr>pf_cursor := pf_cursor f + 1\<rparr>, Some (pt_snapshots (pf_tape f) ! pf_cursor f))
      else Inr (f, None))"

definition parquet_meta :: "parquet_feed \<Rightarrow> 'q data_source_spec" where
  "parquet_meta f = ParquetSource (pt_path (pf_tape f)) (pt_sha256 (pf_tape f))"

definition parquet_tape_meta :: "parquet_feed \<Rightarrow> tape_meta" where
  "parquet_tape_meta f = pt_meta (pf_tape f)"

definition parquet_data_feed :: "(parquet_feed, 'q data_source_spec) data_feed" where
  "parquet_data_feed = \<lparr>df_next = parquet_next, df_meta = parquet_meta, df_tape_meta = parquet_tape_meta\<rparr>"

text \<open>Opening with a recorded hash; \<open>opened\<close> is the result of opening the path.\<close>

definition parquet_open_verified :: "parquet_feed res \<Rightarrow> string \<Rightarrow> parquet_feed res" where
  "parquet_open_verified opened expected =
     rbind opened (\<lambda>feed.
       if expected \<noteq> [] \<and> pt_sha256 (pf_tape feed) \<noteq> expected
       then Inl (Conversion (MsgFile (MsgShaMismatch ''parquet file'' expected (pt_sha256 (pf_tape feed)))))
       else Inr feed)"

text \<open>The parse cache of a batch: the tape of an opened feed, shared by feeds that start anew.\<close>

record shared_parquet_tape =
  sp_tape :: parquet_tape

definition materialise :: "parquet_feed res \<Rightarrow> string \<Rightarrow> shared_parquet_tape res" where
  "materialise opened expected =
     rbind (parquet_open_verified opened expected) (\<lambda>feed. Inr \<lparr>sp_tape = pf_tape feed\<rparr>)"

definition shared_data_identity :: "shared_parquet_tape \<Rightarrow> string" where
  "shared_data_identity t = pt_sha256 (sp_tape t)"

definition shared_feed :: "shared_parquet_tape \<Rightarrow> parquet_feed" where
  "shared_feed t = \<lparr>pf_tape = sp_tape t, pf_cursor = 0\<rparr>"

section \<open>The CSV feed\<close>

record csv_feed =
  cv_tape :: "chain_snapshot list"
  cv_cursor :: nat
  cv_meta :: tape_meta
  cv_path :: string
  cv_sha256 :: string

definition csv_next :: "csv_feed \<Rightarrow> (csv_feed \<times> chain_snapshot option) res" where
  "csv_next f =
     (if cv_cursor f < length (cv_tape f)
      then Inr (f\<lparr>cv_cursor := cv_cursor f + 1\<rparr>, Some (cv_tape f ! cv_cursor f))
      else Inr (f, None))"

definition csv_feed_meta :: "csv_feed \<Rightarrow> 'q data_source_spec" where
  "csv_feed_meta f = CsvSource (cv_path f) (cv_sha256 f)"

definition csv_data_feed :: "(csv_feed, 'q data_source_spec) data_feed" where
  "csv_data_feed = \<lparr>df_next = csv_next, df_meta = csv_feed_meta, df_tape_meta = cv_meta\<rparr>"

definition csv_open_verified :: "csv_feed res \<Rightarrow> string \<Rightarrow> csv_feed res" where
  "csv_open_verified opened expected =
     rbind opened (\<lambda>feed.
       if expected \<noteq> [] \<and> cv_sha256 feed \<noteq> expected
       then Inl (Conversion (MsgFile (MsgShaMismatch ''csv directory'' expected (cv_sha256 feed))))
       else Inr feed)"

section \<open>Replaying\<close>

locale replay_feed =
  fixes next_op :: "'f \<Rightarrow> ('f \<times> chain_snapshot option) res"
    and remaining :: "'f \<Rightarrow> chain_snapshot list"
  assumes next_Nil: "remaining f = [] \<Longrightarrow> next_op f = Inr (f, None)"
    and next_Cons: "remaining f = s # ss \<Longrightarrow> \<exists>f'. next_op f = Inr (f', Some s) \<and> remaining f' = ss"
begin

text \<open>The snapshots of the first \<open>n\<close> calls.\<close>

fun pulled :: "nat \<Rightarrow> 'f \<Rightarrow> chain_snapshot list res" where
  "pulled 0 f = Inr []"
| "pulled (Suc n) f =
     rbind (next_op f) (\<lambda>(f, s).
     rbind (pulled n f) (\<lambda>ss. Inr (case s of None \<Rightarrow> ss | Some s \<Rightarrow> s # ss)))"

lemma pulled_take: "pulled n f = Inr (take n (remaining f))"
proof (induction n arbitrary: f)
  case (Suc n)
  show ?case
  proof (cases "remaining f")
    case Nil
    with Suc next_Nil [OF Nil] show ?thesis by simp
  next
    case (Cons s ss)
    with Suc next_Cons [OF Cons] show ?thesis by auto
  qed
qed simp

lemma next_Some: "next_op f = Inr (f', Some s) \<Longrightarrow> remaining f = s # remaining f'"
  using next_Nil [of f] next_Cons [of f] by (cases "remaining f") auto

lemma next_None: "next_op f = Inr (f', None) \<Longrightarrow> remaining f = []"
  using next_Cons [of f] by (cases "remaining f") auto

lemma next_never_fails: "\<exists>r. next_op f = Inr r"
  using next_Nil [of f] next_Cons [of f] by (cases "remaining f") auto

end

definition parquet_remaining :: "parquet_feed \<Rightarrow> chain_snapshot list" where
  "parquet_remaining f = drop (pf_cursor f) (pt_snapshots (pf_tape f))"

definition csv_remaining :: "csv_feed \<Rightarrow> chain_snapshot list" where
  "csv_remaining f = drop (cv_cursor f) (cv_tape f)"

interpretation parquet: replay_feed parquet_next parquet_remaining
proof
  fix f s ss
  assume "parquet_remaining f = s # ss"
  then show "\<exists>f'. parquet_next f = Inr (f', Some s) \<and> parquet_remaining f' = ss"
    by (cases "pf_cursor f < length (pt_snapshots (pf_tape f))")
      (auto simp: parquet_remaining_def parquet_next_def Cons_nth_drop_Suc [symmetric])
qed (simp add: parquet_remaining_def parquet_next_def)

interpretation csv: replay_feed csv_next csv_remaining
proof
  fix f s ss
  assume "csv_remaining f = s # ss"
  then show "\<exists>f'. csv_next f = Inr (f', Some s) \<and> csv_remaining f' = ss"
    by (cases "cv_cursor f < length (cv_tape f)")
      (auto simp: csv_remaining_def csv_next_def Cons_nth_drop_Suc [symmetric])
qed (simp add: csv_remaining_def csv_next_def)

text \<open>Every feed of a shared tape replays the whole tape, whatever the others have read.\<close>

lemma shared_feed_replays: "parquet.pulled n (shared_feed t) = Inr (take n (pt_snapshots (sp_tape t)))"
  by (simp add: parquet.pulled_take parquet_remaining_def shared_feed_def)

end
