(* ===== verification/Strategy_Seam.thy ===== *)
theory Strategy_Seam
  imports Market Orders
begin

text \<open>
  The strategy seam (\<open>src/engine/strategy.rs\<close>): what a strategy sees of a step, and its
  operations over its own state. Commands are appended to the step's queue. The random
  generator is a value of \<open>rand_chacha\<close> that the context lends to the strategy: the operations
  with a mutable context return it, \<open>exits\<close> cannot change it.
\<close>

record 'r chain_context =
  cx_snapshot :: chain_snapshot
  cx_open :: "open_position list"
  cx_pending :: "pending_order list"
  cx_marks :: "(contract_key, price_cents) btmap"
  cx_rng :: 'r
  cx_step :: int

record ('s, 'r, 'e) strategy =
  sy_on_start :: "'r chain_context \<Rightarrow> order_command list \<Rightarrow> 's \<Rightarrow> ('s \<times> 'r \<times> order_command list) res"
  sy_exits :: "'r chain_context \<Rightarrow> order_command list \<Rightarrow> 's \<Rightarrow> ('s \<times> order_command list) res"
  sy_on_snapshot :: "'r chain_context \<Rightarrow> order_command list \<Rightarrow> 's \<Rightarrow> ('s \<times> 'r \<times> order_command list) res"
  sy_on_end :: "'r chain_context \<Rightarrow> order_command list \<Rightarrow> 's \<Rightarrow> ('s \<times> 'r \<times> order_command list) res"
  sy_exit_reason :: "'s \<Rightarrow> 'e"

end
