(* ===== verification/Engine.thy ===== *)
theory Engine
  imports Books_Errors Tape_Feed Strategy_Seam Sim_Clock Substrate Run_Config
begin

text \<open>
  The replay engine (\<open>src/engine/backtest.rs\<close>): the run's state, \<open>on_start\<close>, one step in the
  order of the code (clock, pending view, exits, entries, end of data, ids, execution,
  correlation, settlement, recording) and the loop over the feed. The strategy, the execution
  model, the feed and the random generator are the components the engine is generic in.
\<close>

record ('s, 'x, 'r, 'e) run_state =
  rs_strategy :: 's
  rs_execution :: 'x
  rs_clock :: sim_clock
  rs_rng :: 'r
  rs_books :: "'e books"
  rs_equity_curve :: "equity_point list"
  rs_attribution :: attribution_collector

definition run_state_new :: "'s \<Rightarrow> 'x \<Rightarrow> 'r \<Rightarrow> cents \<Rightarrow> ('s, 'x, 'r, 'e) run_state" where
  "run_state_new s x rng capital = \<lparr>
     rs_strategy = s, rs_execution = x, rs_clock = sim_clock_new, rs_rng = rng,
     rs_books = \<lparr>bk_inventory = [], bk_ids = id_counters_new, bk_ledger = ledger_new capital,
       bk_log = trade_log_new, bk_bundle = bundle_new, bk_pending = bt_empty\<rparr>,
     rs_equity_curve = [], rs_attribution = attribution_collector_new\<rparr>"

definition is_close_submit :: "order_command \<Rightarrow> bool" where
  "is_close_submit cmd =
     (case cmd of
        Submit oi \<Rightarrow> (case oi_action oi of Close _ \<Rightarrow> True | Open \<Rightarrow> False)
      | _ \<Rightarrow> False)"

definition reject_non_close :: "order_command list \<Rightarrow> unit res" where
  "reject_non_close cmds =
     fold_res (\<lambda>cmd _. if is_close_submit cmd then Inr () else Inl (Execution MsgOnEndNonClose)) cmds ()"

section \<open>Startup\<close>

definition run_on_start ::
    "'e reason_api \<Rightarrow> ('s, 'r, 'e) strategy \<Rightarrow> 'x execution_model \<Rightarrow> chain_snapshot
      \<Rightarrow> ('s, 'x, 'r, 'e) run_state \<Rightarrow> ('s, 'x, 'r, 'e) run_state res" where
  "run_on_start R SY EM snap st =
     (let b = rs_books st;
          ctx = \<lparr>cx_snapshot = snap, cx_open = bk_inventory b, cx_pending = [],
                 cx_marks = lg_marks (bk_ledger b), cx_rng = rs_rng st, cx_step = cs_step snap\<rparr> in
     rbind (sy_on_start SY ctx [] (rs_strategy st)) (\<lambda>(s, rng, cmds).
     rbind (mint_submit_ids cmds (bk_ids b)) (\<lambda>(ids, submit_ids).
     rbind (ex_fill EM cmds submit_ids snap [] (rs_execution st)) (\<lambda>(x, fills).
     rbind (apply_step_fills R cmds fills (ex_groups EM x) (ex_carry EM x) submit_ids snap
              \<lparr>cr_exits_end = 0, cr_on_end_start = length cmds, cr_policy = er_manual R\<rparr>
              (b\<lparr>bk_ids := ids\<rparr>)) (\<lambda>b.
     Inr (st\<lparr>rs_strategy := s, rs_execution := x, rs_rng := rng, rs_books := b\<rparr>))))))"

section \<open>One step\<close>

text \<open>The command queue of the step and the ranges of its closes: exits, then entries, then the end of data.\<close>

definition step_queue ::
    "'e reason_api \<Rightarrow> ('s, 'r, 'e) strategy \<Rightarrow> chain_snapshot \<Rightarrow> bool \<Rightarrow> ('s, 'x, 'r, 'e) run_state
      \<Rightarrow> ('s \<times> 'r \<times> order_command list \<times> 'e close_reasons) res" where
  "step_queue R SY snap is_last st =
     (let b = rs_books st;
          ctx = \<lparr>cx_snapshot = snap, cx_open = bk_inventory b,
                 cx_pending = rebuild_pending_view (bk_pending b),
                 cx_marks = lg_marks (bk_ledger b), cx_rng = rs_rng st, cx_step = cs_step snap\<rparr> in
     rbind (sy_exits SY ctx [] (rs_strategy st)) (\<lambda>(s, cmds).
     let exits_end = length cmds in
     rbind (sy_on_snapshot SY ctx cmds s) (\<lambda>(s, rng, cmds).
     let on_end_start = length cmds in
     rbind (if is_last
            then rbind (sy_on_end SY (ctx\<lparr>cx_rng := rng\<rparr>) cmds s) (\<lambda>(s, rng, cmds).
                 rbind (reject_non_close (drop on_end_start cmds)) (\<lambda>_. Inr (s, rng, cmds)))
            else Inr (s, rng, cmds)) (\<lambda>(s, rng, cmds).
     Inr (s, rng, cmds,
          \<lparr>cr_exits_end = exits_end, cr_on_end_start = on_end_start,
           cr_policy = (if exits_end > 0 then sy_exit_reason SY s else er_manual R)\<rparr>)))))"

definition engine_step ::
    "ext \<Rightarrow> 'e reason_api \<Rightarrow> ('s, 'r, 'e) strategy \<Rightarrow> 'x execution_model \<Rightarrow> chain_snapshot \<Rightarrow> bool
      \<Rightarrow> ('s, 'x, 'r, 'e) run_state \<Rightarrow> ('s, 'x, 'r, 'e) run_state res" where
  "engine_step X R SY EM snap is_last st =
     rbind (advance_to (rs_clock st) (cs_ts snap) (cs_step snap)) (\<lambda>clock.
     rbind (step_queue R SY snap is_last st) (\<lambda>(s, rng, cmds, reasons).
     let b = rs_books st in
     rbind (mint_submit_ids cmds (bk_ids b)) (\<lambda>(ids, submit_ids).
     rbind (ex_fill EM cmds submit_ids snap [] (rs_execution st)) (\<lambda>(x, fills).
     let begin_legs = bk_inventory b in
     rbind (apply_step_fills R cmds fills (ex_groups EM x) (ex_carry EM x) submit_ids snap reasons
              (b\<lparr>bk_ids := ids\<rparr>)) (\<lambda>b.
     let l = collect_attribution_marks (bk_ledger b) begin_legs (sp_mult (cs_spec snap)) in
     rbind (settle X l (cs_step snap) (cs_ts snap) (bk_inventory b) snap) (\<lambda>(l, point).
     let attribution = collect snap (lg_attribution_marks l) (lg_spread_capture l) (lg_last_fees l)
                         (lg_step_pnl l) (rs_attribution st) in
     rbind (collect_step (cs_step snap) (cs_ts snap) (lg_position_marks l) is_last (bk_bundle b)) (\<lambda>bundle.
     Inr \<lparr>rs_strategy = s, rs_execution = x, rs_clock = clock, rs_rng = rng,
          rs_books = b\<lparr>bk_ledger := l, bk_bundle := bundle\<rparr>,
          rs_equity_curve = rs_equity_curve st @ [point], rs_attribution = attribution\<rparr>)))))))"

section \<open>The run\<close>

text \<open>
  The loop over the feed. It may not end for an arbitrary step function, so it is a partial
  function whose value \<open>None\<close> is "does not return".
\<close>

partial_function (option) run_loop ::
    "(chain_snapshot \<Rightarrow> bool \<Rightarrow> 'st \<Rightarrow> 'st res) \<Rightarrow> ('f \<Rightarrow> ('f \<times> chain_snapshot option) res)
      \<Rightarrow> int \<Rightarrow> chain_snapshot \<Rightarrow> 'f \<Rightarrow> 'st \<Rightarrow> ('st \<times> int) res option" where
  "run_loop step_op next_op final current f st =
     (case step_op current (cs_step current = final) st of
        Inl e \<Rightarrow> Some (Inl e)
      | Inr st \<Rightarrow>
          if cs_step current = final then Some (Inr (st, cs_ts current))
          else (case next_op f of
                  Inl e \<Rightarrow> Some (Inl e)
                | Inr (f, None) \<Rightarrow> Some (Inl (Data MsgFeedExhausted))
                | Inr (f, Some snap) \<Rightarrow> run_loop step_op next_op final snap f st))"

record ('d, 'e) backtest_run =
  br_strategy_name :: string
  br_initial_capital :: rat
  br_final_capital :: rat
  br_period_start :: int
  br_period_end :: int
  br_equity_curve :: "equity_point list"
  br_open_at_end :: "open_position list"
  br_trade_log :: "'e closed_trade list"
  br_substrate :: attribution_substrate
  br_fills :: "fill_record list"
  br_positions :: "'e position_snapshot list"
  br_data_source :: 'd
  br_data_identity :: string

text \<open>\<open>Decimal::from_i128_with_scale(cents, 2)\<close>.\<close>

definition dollars :: "int \<Rightarrow> rat" where
  "dollars c = of_int c / 100"

definition assemble_run ::
    "ext \<Rightarrow> string \<Rightarrow> cents \<Rightarrow> tape_meta \<Rightarrow> 'd \<Rightarrow> ('s, 'x, 'r, 'e) run_state \<Rightarrow> int
      \<Rightarrow> ('d, 'e) backtest_run" where
  "assemble_run X name initial tm source st last_ts = \<lparr>
     br_strategy_name = name,
     br_initial_capital = dollars initial,
     br_final_capital = dollars (if rs_equity_curve st = [] then initial
                                 else ep_equity (last (rs_equity_curve st))),
     br_period_start = dt_from_nanos X (tm_first_ts tm),
     br_period_end = dt_from_nanos X last_ts,
     br_equity_curve = rs_equity_curve st,
     br_open_at_end = bk_inventory (rs_books st),
     br_trade_log = tl_closed (bk_log (rs_books st)),
     br_substrate = into_substrate (rs_attribution st),
     br_fills = bd_fills (bk_bundle (rs_books st)),
     br_positions = bd_positions (bk_bundle (rs_books st)),
     br_data_source = source,
     br_data_identity = tm_data_identity tm\<rparr>"

definition run_backtest ::
    "ext \<Rightarrow> 'e reason_api \<Rightarrow> (int \<Rightarrow> 'r) \<Rightarrow> 'c backtest_config \<Rightarrow> ('f, 'd) data_feed \<Rightarrow> 'f
      \<Rightarrow> 'x execution_model \<Rightarrow> 'x \<Rightarrow> ('s, 'r, 'e) strategy \<Rightarrow> 's \<Rightarrow> string
      \<Rightarrow> ('d, 'e) backtest_run res option" where
  "run_backtest X R seed config F f EM x SY s name =
     (case try_into I64 (bc_initial_capital config) of
        None \<Rightarrow> Some (Inl (Config MsgCapitalRange))
      | Some initial \<Rightarrow>
          if initial \<le> 0 then Some (Inl (Config MsgCapitalNotPositive))
          else let tm = df_tape_meta F f in
          if \<not> tm_non_empty tm then Some (Inl (Data MsgNoTape))
          else let final = tm_final_step tm; source = df_meta F f in
          (case rbind (checked (try_into Usize final)) (\<lambda>steps. checked (checked_add Usize steps 1)) of
             Inl e \<Rightarrow> Some (Inl e)
           | Inr _ \<Rightarrow>
          (case df_next F f of
             Inl e \<Rightarrow> Some (Inl e)
           | Inr (f, None) \<Rightarrow> Some (Inl (Data MsgNoFirstSnapshot))
           | Inr (f, Some current) \<Rightarrow>
               (case run_on_start R SY EM current (run_state_new s x (seed (bc_seed config)) initial) of
                  Inl e \<Rightarrow> Some (Inl e)
                | Inr st \<Rightarrow>
                    map_option (\<lambda>r. rbind r (\<lambda>(st, last_ts).
                        Inr (assemble_run X name initial tm source st last_ts)))
                      (run_loop (engine_step X R SY EM) (df_next F) final current f st)))))"

end
