(* ===== verification/Engine_Run.thy ===== *)
theory Engine_Run
  imports Engine Attribution Replay_Feed Naive_Fill
begin

text \<open>
  Whole runs: the loop always returns, because every step moves the clock forward inside
  \<open>i64\<close>; a run that succeeds is a trace of steps, and the invariants of a step hold of it by
  induction on the trace.
\<close>

section \<open>What a step does\<close>

lemma mint_submit_ids_position:
  assumes "mint_submit_ids cmds ids = Inr (ids', oids)"
  shows "ic_position ids' = ic_position ids \<and> ic_trade ids' = ic_trade ids"
proof -
  have "ic_position (fst (ids', oids)) = ic_position ids \<and> ic_trade (fst (ids', oids)) = ic_trade ids"
    by (rule fold_res_invariant [OF assms [unfolded mint_submit_ids_def],
          where P = "\<lambda>s. ic_position (fst s) = ic_position ids \<and> ic_trade (fst s) = ic_trade ids"])
      (auto simp: mint_for_def mint_order_def res_simps split: order_command.splits)
  then show ?thesis by simp
qed

lemma run_on_start_Inr:
  assumes "run_on_start R SY EM snap st = Inr st'"
  obtains cmds ids oids x fills groups carry reasons where
    "mint_submit_ids cmds (bk_ids (rs_books st)) = Inr (ids, oids)"
    and "apply_step_fills R cmds fills groups carry oids snap reasons ((rs_books st)\<lparr>bk_ids := ids\<rparr>)
      = Inr (rs_books st')"
    and "rs_clock st' = rs_clock st" "rs_equity_curve st' = rs_equity_curve st"
    and "rs_attribution st' = rs_attribution st" "rs_execution st' = x"
    and "ex_fill EM cmds oids snap [] (rs_execution st) = Inr (x, fills)"
    and "groups = ex_groups EM x" "carry = ex_carry EM x"
  using assms by (fastforce simp: run_on_start_def res_simps Let_def)

lemma engine_step_Inr:
  assumes "engine_step X R SY EM snap is_last st = Inr st'"
  obtains cmds ids oids x fills reasons b l point rows where
    "ck_ts (rs_clock st) < cs_ts snap" "ck_step (rs_clock st) \<le> cs_step snap"
    and "ck_ts (rs_clock st') = cs_ts snap" "ck_step (rs_clock st') = cs_step snap"
    and "mint_submit_ids cmds (bk_ids (rs_books st)) = Inr (ids, oids)"
    and "ex_fill EM cmds oids snap [] (rs_execution st) = Inr (x, fills)"
    and "apply_step_fills R cmds fills (ex_groups EM x) (ex_carry EM x) oids snap reasons
      ((rs_books st)\<lparr>bk_ids := ids\<rparr>) = Inr b"
    and "settle X (collect_attribution_marks (bk_ledger b) (bk_inventory (rs_books st)) (sp_mult (cs_spec snap)))
      (cs_step snap) (cs_ts snap) (bk_inventory b) snap = Inr (l, point)"
    and "collect_step (cs_step snap) (cs_ts snap) (lg_position_marks l) is_last (bk_bundle b) = Inr rows"
    and "rs_execution st' = x" "rs_books st' = b\<lparr>bk_ledger := l, bk_bundle := rows\<rparr>"
    and "rs_equity_curve st' = rs_equity_curve st @ [point]"
    and "rs_attribution st' = collect snap (lg_attribution_marks l) (lg_spread_capture l)
      (lg_last_fees l) (lg_step_pnl l) (rs_attribution st)"
  using assms
  by (auto simp: engine_step_def res_simps Let_def intro: that)

section \<open>The loop returns\<close>

text \<open>
  The type of a timestamp: from the states of a feed that satisfy \<open>good\<close>, a feed only yields
  \<open>i64\<close> nanoseconds and stays in them.
\<close>

definition typed_feed :: "('f \<Rightarrow> bool) \<Rightarrow> ('f \<Rightarrow> ('f \<times> chain_snapshot option) res) \<Rightarrow> bool" where
  "typed_feed good next_op \<longleftrightarrow> (\<forall>f f' snap. good f \<longrightarrow> next_op f = Inr (f', Some snap) \<longrightarrow>
     good f' \<and> fits I64 (cs_ts snap))"

lemma typed_feedD:
  "typed_feed good next_op \<Longrightarrow> good f \<Longrightarrow> next_op f = Inr (f', Some snap) \<Longrightarrow>
     good f' \<and> fits I64 (cs_ts snap)"
  by (auto simp: typed_feed_def)

lemma run_loop_total:
  assumes feed: "typed_feed good next_op" and "good f" and "fits I64 (cs_ts current)"
  shows "\<exists>r. run_loop (engine_step X R SY EM) next_op final current f st = Some r"
  using assms(2,3)
proof (induction "nat (w_max I64 - ck_ts (rs_clock st))" arbitrary: current f st rule: less_induct)
  case less
  show ?case
  proof (cases "engine_step X R SY EM current (cs_step current = final) st")
    case (Inl e)
    then show ?thesis by (subst run_loop.simps) simp
  next
    case (Inr st')
    have clock: "ck_ts (rs_clock st) < cs_ts current" "ck_ts (rs_clock st') = cs_ts current"
      by (rule engine_step_Inr [OF Inr], assumption)+
    then have smaller: "nat (w_max I64 - ck_ts (rs_clock st')) < nat (w_max I64 - ck_ts (rs_clock st))"
      using less.prems by (simp add: width_simps)
    show ?thesis
    proof (cases "\<exists>f' s. next_op f = Inr (f', Some s)")
      case True
      then obtain f' s where s: "next_op f = Inr (f', Some s)" by blast
      with typed_feedD [OF feed less.prems(1) s] less.hyps [OF smaller] obtain r where
        "run_loop (engine_step X R SY EM) next_op final s f' st' = Some r" by blast
      with Inr s show ?thesis by (subst run_loop.simps) simp
    next
      case False
      then have "(\<exists>e. next_op f = Inl e) \<or> (\<exists>f'. next_op f = Inr (f', None))"
        by (metis (no_types) not_Some_eq obj_sumE prod.exhaust_sel)
      with Inr show ?thesis by (subst run_loop.simps) auto
    qed
  qed
qed

text \<open>
  C8. Every run returns, with a result or an error, whatever the strategy and the execution
  model do and even if the feed never ends: a step is only taken at a timestamp after the
  previous one, and the timestamps of a feed are \<open>i64\<close> nanoseconds.
\<close>

theorem run_returns:
  assumes "typed_feed good (df_next F)" and "good f"
  shows "\<exists>r. run_backtest X R seed config F f EM x SY s name = Some r"
proof (cases "\<exists>f' current. df_next F f = Inr (f', Some current)")
  case True
  then obtain f' current where c: "df_next F f = Inr (f', Some current)" by blast
  have "run_loop (engine_step X R SY EM) (df_next F) final current f' st \<noteq> None" for final st
    using run_loop_total [OF assms(1)] typed_feedD [OF assms c] by (metis option.discI)
  with c show ?thesis
    by (auto simp: run_backtest_def Let_def split: option.splits sum.splits)
next
  case False
  then show ?thesis
    by (auto simp: run_backtest_def Let_def split: option.splits sum.splits)
qed

text \<open>A feed that yields the same snapshot for ever: its runs return too.\<close>

definition endless_feed :: "(unit, unit) data_feed" where
  "endless_feed = \<lparr>df_next = (\<lambda>f. Inr (f, Some sample_snapshot)), df_meta = (\<lambda>_. ()),
     df_tape_meta = (\<lambda>_. \<lparr>tm_data_identity = [], tm_non_empty = True, tm_first_ts = 5,
       tm_final_step = 9\<rparr>)\<rparr>"

theorem run_returns_witness:
  "\<forall>X R seed config EM x SY s name. \<exists>r. run_backtest X R seed config endless_feed () EM x SY s name = Some r"
  by (intro allI run_returns [where good = "\<lambda>_. True"])
    (auto simp: typed_feed_def endless_feed_def sample_snapshot_def width_simps)

section \<open>The loop over a tape\<close>

text \<open>The reference: the loop over the snapshots that follow, as a recursion over their list.\<close>

fun tape_loop ::
    "(chain_snapshot \<Rightarrow> bool \<Rightarrow> 'st \<Rightarrow> 'st res) \<Rightarrow> int \<Rightarrow> chain_snapshot \<Rightarrow> chain_snapshot list
      \<Rightarrow> 'st \<Rightarrow> ('st \<times> int) res" where
  "tape_loop step_op final current rest st =
     rbind (step_op current (cs_step current = final) st) (\<lambda>st.
       if cs_step current = final then Inr (st, cs_ts current)
       else (case rest of [] \<Rightarrow> Inl (Data MsgFeedExhausted)
             | s # ss \<Rightarrow> tape_loop step_op final s ss st))"

declare tape_loop.simps [simp del]

context replay_feed
begin

lemma run_loop_replays:
  "run_loop step_op next_op final current f st = Some (tape_loop step_op final current (remaining f) st)"
proof (induction "remaining f" arbitrary: current f st)
  case Nil
  with next_Nil [of f] show ?case
    by (subst run_loop.simps, subst tape_loop.simps) (auto split: sum.splits)
next
  case (Cons s ss)
  then obtain f' where f': "next_op f = Inr (f', Some s)" "remaining f' = ss"
    using next_Cons [of f s ss] by auto
  have rec: "run_loop step_op next_op final s f' st = Some (tape_loop step_op final s ss st)" for st
    using Cons.hyps(1) [of f'] f'(2) by simp
  show ?case
    by (subst run_loop.simps, subst tape_loop.simps)
      (auto simp: f' rec Cons.hyps(2) [symmetric] split: sum.splits)
qed

end

text \<open>On a valid tape the final step is the last one: every snapshot is processed exactly once.\<close>

lemma tape_loop_fold:
  assumes "map cs_step (current # rest) = map (\<lambda>i. n + int i) [0..<Suc (length rest)]"
    and "final = n + int (length rest)"
  shows "tape_loop step_op final current rest st =
    rbind (fold_res (\<lambda>s. step_op s (cs_step s = final)) (current # rest) st)
      (\<lambda>st. Inr (st, cs_ts (last (current # rest))))"
  using assms
proof (induction rest arbitrary: current n st)
  case Nil
  then show ?case by (subst tape_loop.simps) (simp add: rbind_assoc)
next
  case (Cons s rest)
  have tl: "map cs_step (s # rest) = map (\<lambda>i. n + 1 + int i) [0..<Suc (length rest)]"
    and n: "cs_step current = n"
    using Cons.prems(1) by (simp_all add: steps_Cons del: upt_Suc)
  then have "cs_step current \<noteq> final" using Cons.prems(2) by simp
  moreover have "tape_loop step_op final s rest st' =
    rbind (fold_res (\<lambda>s. step_op s (cs_step s = final)) (s # rest) st')
      (\<lambda>st. Inr (st, cs_ts (last (s # rest))))" for st'
    using Cons.prems(2) by (intro Cons.IH [OF tl]) simp
  ultimately show ?case
    by (subst tape_loop.simps) (simp add: rbind_assoc)
qed

text \<open>
  The reference of a whole run over a list of snapshots, without a feed: the checks of the
  capital, the startup on the first snapshot, one step for every snapshot in order, only the last
  one as the last step, and the result.
\<close>

definition tape_run ::
    "ext \<Rightarrow> 'e reason_api \<Rightarrow> (int \<Rightarrow> 'r) \<Rightarrow> 'c backtest_config \<Rightarrow> chain_snapshot list \<Rightarrow> tape_meta \<Rightarrow> 'd
      \<Rightarrow> 'x execution_model \<Rightarrow> 'x \<Rightarrow> ('s, 'r, 'e) strategy \<Rightarrow> 's \<Rightarrow> string \<Rightarrow> ('d, 'e) backtest_run res" where
  "tape_run X R seed config tape tm source EM x SY s name =
     (let capital = bc_initial_capital config; step = engine_step X R SY EM in
      if \<not> fits I64 capital then Inl (Config MsgCapitalRange)
      else if capital \<le> 0 then Inl (Config MsgCapitalNotPositive)
      else rbind (run_on_start R SY EM (hd tape) (run_state_new s x (seed (bc_seed config)) capital)) (\<lambda>st.
           rbind (fold_res (\<lambda>snap. step snap False) (butlast tape) st) (\<lambda>st.
           rbind (step (last tape) True st) (\<lambda>st.
           Inr (assemble_run X name capital tm source st (cs_ts (last tape)))))))"

lemma fold_res_cong: "(\<And>x s. x \<in> set xs \<Longrightarrow> f x s = g x s) \<Longrightarrow> fold_res f xs s = fold_res g xs s"
proof (induction xs arbitrary: s)
  case (Cons x xs)
  then have "fold_res f xs = fold_res g xs" by (intro ext) simp
  with Cons.prems show ?case by simp
qed simp

text \<open>On a valid tape only the last snapshot is at the final step.\<close>

lemma steps_before_last:
  assumes "map cs_step (xs @ [x]) = map int [0..<length (xs @ [x])]"
  shows "cs_step x = int (length xs)" and "s \<in> set xs \<Longrightarrow> cs_step s < int (length xs)"
proof -
  have steps: "map cs_step xs = map int [0..<length xs] \<and> cs_step x = int (length xs)"
    using assms by simp
  then show "cs_step x = int (length xs)" by simp
  show "cs_step s < int (length xs)" if "s \<in> set xs"
  proof -
    from that have "cs_step s \<in> set (map cs_step xs)" by simp
    then have "cs_step s \<in> set (map int [0..<length xs])" using steps by simp
    then show ?thesis by auto
  qed
qed

lemma fold_res_single: "fold_res f [x] = f x"
  by (rule ext) (simp add: rbind_def split: sum.split)

lemma fold_last_step:
  assumes "tape \<noteq> []" and "map cs_step tape = map int [0..<length tape]" and "final = int (length tape) - 1"
  shows "fold_res (\<lambda>s. step_op s (cs_step s = final)) tape st =
    rbind (fold_res (\<lambda>s. step_op s False) (butlast tape) st) (step_op (last tape) True)"
proof -
  obtain xs x where tape: "tape = xs @ [x]" using assms(1) by (cases tape rule: rev_cases) auto
  have "fold_res (\<lambda>s. step_op s (cs_step s = final)) xs st = fold_res (\<lambda>s. step_op s False) xs st"
    using steps_before_last(2) [OF assms(2) [unfolded tape]] assms(3)
    by (intro fold_res_cong) (force simp: tape)
  moreover have "cs_step x = final"
    using steps_before_last(1) [OF assms(2) [unfolded tape]] assms(3) by (simp add: tape)
  ultimately show ?thesis by (simp add: tape fold_res_append fold_res_single del: fold_res.simps)
qed

context replay_feed
begin

lemma run_replays:
  assumes "df_next F = next_op" and "remaining f = tape"
    and "tape_meta_from_tape identity tape = Inr (df_tape_meta F f)"
  shows "run_backtest X R seed config F f EM x SY s name =
    Some (tape_run X R seed config tape (df_tape_meta F f) (df_meta F f) EM x SY s name)"
proof -
  let ?m = "df_tape_meta F f" and ?step = "engine_step X R SY EM"
  note valid = assms(3) [unfolded tape_meta_Inr_iff]
  then obtain first rest where tape: "tape = first # rest" by (cases tape) auto
  obtain f' where f': "next_op f = Inr (f', Some first)" "remaining f' = rest"
    using next_Cons [of f first rest] assms(2) by (auto simp: tape)
  have final: "tm_final_step ?m = int (length tape) - 1" "tm_non_empty ?m" using valid by simp_all
  have "fits U32 (tm_final_step ?m)" using valid by (simp add: final width_simps tape)
  then have fits: "fits Usize (tm_final_step ?m)" "fits Usize (tm_final_step ?m + 1)"
    by (simp_all add: width_simps)
  have "map cs_step (first # rest) = map (\<lambda>i. 0 + int i) [0..<Suc (length rest)]"
    using valid by (simp add: tape del: upt_Suc)
  from tape_loop_fold [OF this, of "tm_final_step ?m" ?step]
  have "run_loop ?step next_op (tm_final_step ?m) first f' st = Some
      (rbind (rbind (fold_res (\<lambda>s. ?step s False) (butlast tape) st) (?step (last tape) True))
        (\<lambda>st. Inr (st, cs_ts (last tape))))" for st
    using fold_last_step [of tape "tm_final_step ?m" ?step st] valid
    by (simp add: run_loop_replays f'(2) final(1) tape del: upt_Suc)
  moreover have "capital < w_min I64 \<Longrightarrow> capital \<le> 0" for capital by (simp add: width_simps)
  ultimately show ?thesis
    using final(2) fits
    by (auto simp: run_backtest_def tape_run_def Let_def assms(1) f'(1) tape checked_add_def try_into_def
        rbind_assoc split: sum.split)
qed

end

definition sample_tape :: parquet_tape where
  "sample_tape = \<lparr>pt_snapshots = [sample_snapshot, sample_snapshot\<lparr>cs_ts := 6, cs_step := 1\<rparr>],
     pt_meta = \<lparr>tm_data_identity = ''id'', tm_non_empty = True, tm_first_ts = 5, tm_final_step = 1\<rparr>,
     pt_path = ''chain.parquet'', pt_sha256 = ''id''\<rparr>"

end
