(* ===== verification/Convert.thy ===== *)
theory Convert
  imports Market
begin

text \<open>
  The conversion boundary (\<open>src/data/convert.rs\<close>): raw quotes of one snapshot, whatever feed
  they come from, are validated and turned into a chain snapshot, and a snapshot is folded
  back into the arguments of an option chain. A property gives the exact set of inputs the
  validation accepts and the snapshot it then returns.
\<close>

definition convert_nanos_per_day :: int where
  "convert_nanos_per_day = 86400000000000"

record snapshot_meta =
  sm_ts :: int
  sm_step :: int
  sm_anchor_ts :: int
  sm_underlying :: underlying
  sm_underlying_price :: price_cents
  sm_tick :: price_cents
  sm_mult :: int

record raw_quote =
  rq_expiration :: expiration
  rq_strike :: price_cents
  rq_style :: option_style
  rq_bid :: price_cents
  rq_ask :: price_cents
  rq_bid_size :: quantity
  rq_ask_size :: quantity
  rq_iv :: double
  rq_delta :: double
  rq_gamma :: double
  rq_theta :: double
  rq_vega :: double

section \<open>Decimal edges\<close>

definition dollars_f64_to_price_cents :: "ext \<Rightarrow> string \<Rightarrow> double \<Rightarrow> price_cents res" where
  "dollars_f64_to_price_cents X field value =
     (case value of
        NotFinite \<Rightarrow> Inl (Conversion (MsgNonFinite field))
      | Finite v \<Rightarrow> rbind (ok_or (dec_from_f64 X v) (Conversion (MsgNotDecimal field v)))
          (from_decimal_dollars X))"

definition analytic_f64_to_decimal :: "ext \<Rightarrow> string \<Rightarrow> double \<Rightarrow> rat res" where
  "analytic_f64_to_decimal X field value =
     (case value of
        NotFinite \<Rightarrow> Inl (Conversion (MsgNonFinite field))
      | Finite v \<Rightarrow> ok_or (dec_from_f64 X v) (Conversion (MsgNotDecimal field v)))"

section \<open>Integer and expiry helpers\<close>

definition floor_to_tick :: "int \<Rightarrow> int \<Rightarrow> int" where
  "floor_to_tick value tick = value - value mod tick"

definition check_tick_aligned :: "int \<Rightarrow> int \<Rightarrow> unit res" where
  "check_tick_aligned price tick = (if tick dvd price then Inr () else Inl (PriceNotTickAligned price tick))"

definition resolve_expiration :: "ext \<Rightarrow> expiration \<Rightarrow> int \<Rightarrow> expiration res" where
  "resolve_expiration X e anchor =
     (case e of
        DateTime instant \<Rightarrow> Inr (DateTime instant)
      | Days d \<Rightarrow>
          rbind (ok_or (dec_mul X d (of_int convert_nanos_per_day)) ArithmeticOverflow) (\<lambda>product.
          rbind (checked (dec_to X I128 (dec_round0 X product))) (\<lambda>offset.
          rbind (checked (checked_add I128 anchor offset)) (\<lambda>ns.
          rbind (checked (try_into I64 ns)) (\<lambda>ns.
          Inr (DateTime (dt_from_nanos X ns)))))))"

section \<open>From raw quotes to a snapshot\<close>

definition convert_quote ::
    "ext \<Rightarrow> snapshot_meta \<Rightarrow> price_cents \<Rightarrow> raw_quote \<Rightarrow> (contract_key, quote_view) btmap
      \<Rightarrow> (contract_key, quote_view) btmap res" where
  "convert_quote X meta tick raw m =
     (if rq_strike raw = 0 then Inl (Conversion MsgZeroStrike)
      else rbind (check_tick_aligned (rq_strike raw) tick) (\<lambda>_.
      rbind (check_tick_aligned (rq_bid raw) tick) (\<lambda>_.
      rbind (check_tick_aligned (rq_ask raw) tick) (\<lambda>_.
      if rq_bid raw > rq_ask raw then Inl (CrossedQuote (rq_bid raw) (rq_ask raw))
      else rbind (checked (checked_add U64 (rq_bid raw) (rq_ask raw))) (\<lambda>total.
      let mid = floor_to_tick (total div 2) tick in
      rbind (analytic_f64_to_decimal X ''implied_volatility'' (rq_iv raw)) (\<lambda>iv.
      rbind (analytic_f64_to_decimal X ''delta'' (rq_delta raw)) (\<lambda>delta.
      rbind (analytic_f64_to_decimal X ''gamma'' (rq_gamma raw)) (\<lambda>gamma.
      rbind (analytic_f64_to_decimal X ''theta'' (rq_theta raw)) (\<lambda>theta.
      rbind (analytic_f64_to_decimal X ''vega'' (rq_vega raw)) (\<lambda>vega.
      rbind (resolve_expiration X (rq_expiration raw) (sm_anchor_ts meta)) (\<lambda>e.
      let contract = ContractKey (sm_underlying meta) e (rq_strike raw) (rq_style raw);
          view = \<lparr>qv_contract = contract, qv_bid = rq_bid raw, qv_ask = rq_ask raw, qv_mid = mid,
                  qv_bid_size = rq_bid_size raw, qv_ask_size = rq_ask_size raw, qv_iv = iv,
                  qv_delta = delta, qv_gamma = gamma, qv_theta = theta, qv_vega = vega\<rparr> in
      if bt_get m contract \<noteq> None then Inl (Conversion (MsgDuplicateContract (rq_strike raw)))
      else Inr (bt_insert contract view m))))))))))))"

definition raw_quotes_to_snapshot :: "ext \<Rightarrow> snapshot_meta \<Rightarrow> raw_quote list \<Rightarrow> chain_snapshot res" where
  "raw_quotes_to_snapshot X meta quotes =
     rbind (instrument_spec_new (sm_tick meta) (sm_mult meta)) (\<lambda>spec.
     rbind (fold_res (convert_quote X meta (sp_tick spec)) quotes bt_empty) (\<lambda>m.
     Inr \<lparr>cs_ts = sm_ts meta, cs_step = sm_step meta, cs_underlying = sm_underlying meta,
          cs_price = sm_underlying_price meta, cs_spec = spec, cs_quotes = m\<rparr>))"

section \<open>What one raw quote becomes\<close>

text \<open>The view of a raw quote, where it has one; \<open>None\<close> when the quote alone is refused.\<close>

definition decimal_of :: "ext \<Rightarrow> double \<Rightarrow> rat option" where
  "decimal_of X d = (case d of NotFinite \<Rightarrow> None | Finite v \<Rightarrow> dec_from_f64 X v)"

definition all_decimals :: "ext \<Rightarrow> double list \<Rightarrow> rat list option" where
  "all_decimals X ds = those (map (decimal_of X) ds)"

definition anchored :: "ext \<Rightarrow> expiration \<Rightarrow> int \<Rightarrow> expiration option" where
  "anchored X e anchor = (case resolve_expiration X e anchor of Inl _ \<Rightarrow> None | Inr e \<Rightarrow> Some e)"

definition view_of :: "ext \<Rightarrow> snapshot_meta \<Rightarrow> raw_quote \<Rightarrow> quote_view option" where
  "view_of X meta raw =
     (if rq_strike raw \<noteq> 0 \<and> sm_tick meta dvd rq_strike raw \<and> sm_tick meta dvd rq_bid raw \<and>
         sm_tick meta dvd rq_ask raw \<and> rq_bid raw \<le> rq_ask raw \<and> fits U64 (rq_bid raw + rq_ask raw)
      then Option.bind (all_decimals X [rq_iv raw, rq_delta raw, rq_gamma raw, rq_theta raw, rq_vega raw])
        (\<lambda>ds. map_option (\<lambda>e.
           \<lparr>qv_contract = ContractKey (sm_underlying meta) e (rq_strike raw) (rq_style raw),
            qv_bid = rq_bid raw, qv_ask = rq_ask raw,
            qv_mid = (rq_bid raw + rq_ask raw) div 2 div sm_tick meta * sm_tick meta,
            qv_bid_size = rq_bid_size raw, qv_ask_size = rq_ask_size raw, qv_iv = ds ! 0,
            qv_delta = ds ! 1, qv_gamma = ds ! 2, qv_theta = ds ! 3, qv_vega = ds ! 4\<rparr>)
          (anchored X (rq_expiration raw) (sm_anchor_ts meta)))
      else None)"

lemma analytic_Inr [res_simps]:
  "analytic_f64_to_decimal X field d = Inr v \<longleftrightarrow> decimal_of X d = Some v"
  by (auto simp: analytic_f64_to_decimal_def decimal_of_def res_simps split: double.splits)

lemma all_decimals_Some:
  "all_decimals X [] = Some ds \<longleftrightarrow> ds = []"
  "all_decimals X (d # rest) = Some ds \<longleftrightarrow>
     (\<exists>v vs. decimal_of X d = Some v \<and> all_decimals X rest = Some vs \<and> ds = v # vs)"
  by (auto simp: all_decimals_def split: option.splits)

lemma check_tick_Inr [res_simps]: "check_tick_aligned p t = Inr u \<longleftrightarrow> t dvd p"
  by (auto simp: check_tick_aligned_def)

lemma anchored_Some: "anchored X e a = Some e' \<longleftrightarrow> resolve_expiration X e a = Inr e'"
  by (auto simp: anchored_def split: sum.splits)

lemma floor_to_tick_div: "floor_to_tick v t = v div t * t"
  by (simp add: floor_to_tick_def minus_mod_eq_div_mult)

lemma convert_quote_Inr:
  "convert_quote X meta (sm_tick meta) raw m = Inr m' \<longleftrightarrow>
     (\<exists>v. view_of X meta raw = Some v \<and> bt_get m (qv_contract v) = None \<and>
          m' = bt_insert (qv_contract v) v m)"
proof (cases "rq_strike raw \<noteq> 0 \<and> sm_tick meta dvd rq_strike raw \<and> sm_tick meta dvd rq_bid raw \<and>
    sm_tick meta dvd rq_ask raw \<and> rq_bid raw \<le> rq_ask raw \<and> fits U64 (rq_bid raw + rq_ask raw)")
  case True
  then show ?thesis
    by (auto simp: convert_quote_def view_of_def res_simps Let_def bind_eq_Some_conv
        all_decimals_Some anchored_Some checked_add_def floor_to_tick_div check_tick_aligned_def)
next
  case False
  then show ?thesis
    by (auto simp: convert_quote_def view_of_def res_simps Let_def checked_add_def split: if_splits)
qed

section \<open>What a list of raw quotes becomes\<close>

definition quote_map :: "quote_view list \<Rightarrow> (contract_key, quote_view) btmap \<Rightarrow> (contract_key, quote_view) btmap" where
  "quote_map vs m = fold (\<lambda>v. bt_insert (qv_contract v) v) vs m"

lemma quote_map_inv: "bt_inv m \<Longrightarrow> bt_inv (quote_map vs m)"
  by (induction vs arbitrary: m) (auto simp: quote_map_def)

lemma quote_map_get:
  "distinct (map qv_contract vs) \<Longrightarrow>
     bt_get (quote_map vs m) k = (case find (\<lambda>v. qv_contract v = k) vs of None \<Rightarrow> bt_get m k | Some v \<Rightarrow> Some v)"
proof (induction vs arbitrary: m)
  case (Cons v vs)
  then have "\<forall>w \<in> set vs. qv_contract w \<noteq> qv_contract v" by (simp, metis image_eqI)
  then have "find (\<lambda>w. qv_contract w = qv_contract v) vs = None"
    by (auto simp: find_None_iff)
  with Cons show ?case by (auto simp: quote_map_def split: option.splits)
qed (simp add: quote_map_def)

lemma fresh_after_insert:
  "(\<forall>w \<in> set vs. bt_get (bt_insert c v m) (qv_contract w) = None) \<longleftrightarrow>
     c \<notin> qv_contract ` set vs \<and> (\<forall>w \<in> set vs. bt_get m (qv_contract w) = None)"
proof -
  have "bt_get (bt_insert c v m) k = None \<longleftrightarrow> k \<noteq> c \<and> bt_get m k = None" for k by simp
  then show ?thesis by blast
qed

lemma ex_views_Cons:
  "(\<exists>vs. map f (raw # raws) = map Some vs \<and> P vs) \<longleftrightarrow>
     (\<exists>v vs. f raw = Some v \<and> map f raws = map Some vs \<and> P (v # vs))"
proof
  assume "\<exists>vs. map f (raw # raws) = map Some vs \<and> P vs"
  then obtain vs where "map f (raw # raws) = map Some vs" "P vs" by blast
  then show "\<exists>v vs. f raw = Some v \<and> map f raws = map Some vs \<and> P (v # vs)"
    by (cases vs) auto
next
  assume "\<exists>v vs. f raw = Some v \<and> map f raws = map Some vs \<and> P (v # vs)"
  then obtain v vs where "f raw = Some v" "map f raws = map Some vs" "P (v # vs)" by blast
  then show "\<exists>vs. map f (raw # raws) = map Some vs \<and> P vs"
    by (intro exI [of _ "v # vs"]) simp
qed

lemma convert_fold_Inr:
  "fold_res (convert_quote X meta (sm_tick meta)) raws m = Inr m' \<longleftrightarrow>
     (\<exists>vs. map (view_of X meta) raws = map Some vs \<and> distinct (map qv_contract vs) \<and>
        (\<forall>v \<in> set vs. bt_get m (qv_contract v) = None) \<and> m' = quote_map vs m)"
proof (induction raws arbitrary: m)
  case Nil
  then show ?case by (auto simp: quote_map_def)
next
  case (Cons raw raws)
  have "fold_res (convert_quote X meta (sm_tick meta)) (raw # raws) m = Inr m' \<longleftrightarrow>
    (\<exists>v vs. view_of X meta raw = Some v \<and> bt_get m (qv_contract v) = None \<and>
       map (view_of X meta) raws = map Some vs \<and> distinct (map qv_contract vs) \<and>
       (\<forall>w \<in> set vs. bt_get (bt_insert (qv_contract v) v m) (qv_contract w) = None) \<and>
       m' = quote_map vs (bt_insert (qv_contract v) v m))"
    unfolding fold_res.simps rbind_Inr convert_quote_Inr Cons.IH by blast
  also have "\<dots> \<longleftrightarrow> (\<exists>vs. map (view_of X meta) (raw # raws) = map Some vs \<and>
      distinct (map qv_contract vs) \<and> (\<forall>w \<in> set vs. bt_get m (qv_contract w) = None) \<and>
      m' = quote_map vs m)"
    unfolding fresh_after_insert ex_views_Cons by (auto simp: quote_map_def)
  finally show ?case .
qed

lemma conversion_Inr_iff:
  "raw_quotes_to_snapshot X meta raws = Inr snap \<longleftrightarrow>
     sm_tick meta \<noteq> 0 \<and> sm_mult meta \<noteq> 0 \<and>
     (\<exists>vs. map (view_of X meta) raws = map Some vs \<and> distinct (map qv_contract vs) \<and>
        snap = \<lparr>cs_ts = sm_ts meta, cs_step = sm_step meta, cs_underlying = sm_underlying meta,
          cs_price = sm_underlying_price meta,
          cs_spec = \<lparr>sp_tick = sm_tick meta, sp_mult = sm_mult meta\<rparr>, cs_quotes = quote_map vs bt_empty\<rparr>)"
proof (cases "sm_tick meta = 0 \<or> sm_mult meta = 0")
  case True
  then show ?thesis by (auto simp: raw_quotes_to_snapshot_def instrument_spec_new_def)
next
  case False
  have fold: "fold_res (convert_quote X meta (sm_tick meta)) raws bt_empty = Inr m \<longleftrightarrow>
      (\<exists>vs. map (view_of X meta) raws = map Some vs \<and> distinct (map qv_contract vs) \<and>
        m = quote_map vs bt_empty)" for m
    unfolding convert_fold_Inr by simp
  from False show ?thesis
    by (auto simp: raw_quotes_to_snapshot_def instrument_spec_new_def res_simps fold)
qed

text \<open>
  C17. The validation accepts a list of raw quotes exactly when the tick and the multiplier are
  not zero, every quote has a view (a positive strike, prices on the tick grid, not crossed,
  finite analytics that are decimals, an expiry inside \<open>i64\<close>) and no two quotes name the same
  contract; the snapshot then holds exactly these views, in contract order.
\<close>

theorem conversion_accepts_iff:
  "raw_quotes_to_snapshot X meta raws = Inr snap \<longleftrightarrow>
     sm_tick meta \<noteq> 0 \<and> sm_mult meta \<noteq> 0 \<and>
     (\<exists>vs. map (view_of X meta) raws = map Some vs \<and> distinct (map qv_contract vs) \<and>
        snap = \<lparr>cs_ts = sm_ts meta, cs_step = sm_step meta, cs_underlying = sm_underlying meta,
          cs_price = sm_underlying_price meta,
          cs_spec = \<lparr>sp_tick = sm_tick meta, sp_mult = sm_mult meta\<rparr>, cs_quotes = quote_map vs bt_empty\<rparr>)"
  by (rule conversion_Inr_iff)

text \<open>The types of the inputs.\<close>

definition typed_raw :: "raw_quote \<Rightarrow> bool" where
  "typed_raw raw \<longleftrightarrow> is_price (rq_strike raw) \<and> is_price (rq_bid raw) \<and> is_price (rq_ask raw) \<and>
     is_quantity (rq_bid_size raw) \<and> is_quantity (rq_ask_size raw)"

definition typed_meta :: "snapshot_meta \<Rightarrow> bool" where
  "typed_meta meta \<longleftrightarrow> fits I64 (sm_ts meta) \<and> fits U32 (sm_step meta) \<and>
     is_price (sm_underlying_price meta) \<and> is_price (sm_tick meta) \<and> fits U32 (sm_mult meta)"

text \<open>The quote a raw quote is turned into: the spread is kept and the mid lies in it, on the grid.\<close>

definition converted :: "price_cents \<Rightarrow> raw_quote \<Rightarrow> quote_view \<Rightarrow> bool" where
  "converted tick raw v \<longleftrightarrow>
     qv_bid v = rq_bid raw \<and> qv_ask v = rq_ask raw \<and> qv_bid_size v = rq_bid_size raw \<and>
     qv_ask_size v = rq_ask_size raw \<and> ck_strike (qv_contract v) = rq_strike raw \<and>
     ck_style (qv_contract v) = rq_style raw \<and> 0 < rq_strike raw \<and>
     tick dvd rq_strike raw \<and> tick dvd qv_bid v \<and> tick dvd qv_mid v \<and> tick dvd qv_ask v \<and>
     qv_bid v \<le> qv_mid v \<and> qv_mid v \<le> qv_ask v \<and>
     2 * qv_mid v \<le> qv_bid v + qv_ask v \<and> qv_bid v + qv_ask v < 2 * (qv_mid v + tick)"

lemma tick_floor_bounds:
  fixes a b t :: int
  assumes "0 < t" and "t dvd b" and "b \<le> a"
  shows "b \<le> (b + a) div 2 div t * t" "2 * ((b + a) div 2 div t * t) \<le> b + a"
    "b + a < 2 * ((b + a) div 2 div t * t + t)"
proof -
  let ?h = "(b + a) div 2"
  have h: "b \<le> ?h" "2 * ?h \<le> b + a" "b + a < 2 * (?h + 1)" using assms(3) by auto
  have floor: "?h = ?h div t * t + ?h mod t" "0 \<le> ?h mod t" "?h mod t < t"
    using assms(1) by auto
  have "b div t \<le> ?h div t" using h(1) assms(1) by (intro zdiv_mono1)
  then have "b div t * t \<le> ?h div t * t" using assms(1) by (intro mult_right_mono) auto
  then show "b \<le> ?h div t * t" using assms(2) by simp
  have low: "2 * q \<le> b + a" and high: "b + a < 2 * (q + t)"
    if "h = q + r" "0 \<le> r" "r < t" "2 * h \<le> b + a" "b + a < 2 * (h + 1)" for h q r :: int
    using that by presburger+
  show "2 * (?h div t * t) \<le> b + a" by (rule low [OF floor h(2,3)])
  show "b + a < 2 * (?h div t * t + t)" by (rule high [OF floor h(2,3)])
qed

lemma view_of_converted:
  assumes "view_of X meta raw = Some v" and "typed_raw raw" and "0 < sm_tick meta"
  shows "converted (sm_tick meta) raw v \<and> wf_quote v"
proof -
  from assms(1) have raw: "rq_strike raw \<noteq> 0" "sm_tick meta dvd rq_strike raw"
    "sm_tick meta dvd rq_bid raw" "sm_tick meta dvd rq_ask raw" "rq_bid raw \<le> rq_ask raw"
    and v: "qv_bid v = rq_bid raw" "qv_ask v = rq_ask raw" "qv_bid_size v = rq_bid_size raw"
      "qv_ask_size v = rq_ask_size raw" "ck_strike (qv_contract v) = rq_strike raw"
      "ck_style (qv_contract v) = rq_style raw"
      "qv_mid v = (rq_bid raw + rq_ask raw) div 2 div sm_tick meta * sm_tick meta"
    by (auto simp: view_of_def bind_eq_Some_conv split: if_splits)
  note bounds = tick_floor_bounds [OF assms(3) raw(3,5)]
  from bounds(2) raw(5) v(7) have "qv_mid v \<le> rq_ask raw" by linarith
  with assms(2) raw v bounds show ?thesis
    by (auto simp: converted_def wf_quote_def typed_raw_def is_price_def width_simps)
qed

lemma conversion_wf:
  assumes "raw_quotes_to_snapshot X meta raws = Inr snap"
    and "typed_meta meta" and "\<forall>raw \<in> set raws. typed_raw raw"
  shows "wf_snapshot snap \<and> length (cs_quotes snap) = length raws \<and>
    (\<forall>q \<in> set (bt_values (cs_quotes snap)). \<exists>raw \<in> set raws. converted (sm_tick meta) raw q)"
proof -
  from assms(1) obtain vs where ok: "sm_tick meta \<noteq> 0" "sm_mult meta \<noteq> 0"
    and vs: "map (view_of X meta) raws = map Some vs" "distinct (map qv_contract vs)"
    and snap: "snap = \<lparr>cs_ts = sm_ts meta, cs_step = sm_step meta, cs_underlying = sm_underlying meta,
          cs_price = sm_underlying_price meta,
          cs_spec = \<lparr>sp_tick = sm_tick meta, sp_mult = sm_mult meta\<rparr>, cs_quotes = quote_map vs bt_empty\<rparr>"
    unfolding conversion_Inr_iff by blast
  let ?m = "quote_map vs bt_empty"
  have tick: "0 < sm_tick meta" using ok(1) assms(2) by (auto simp: typed_meta_def is_price_def width_simps)
  have inv: "bt_inv ?m" by (rule quote_map_inv) simp
  have entry: "q \<in> set vs \<and> qv_contract q = k" if "(k, q) \<in> set ?m" for k q
    using bt_mem_get [OF inv that] quote_map_get [OF vs(2), of bt_empty k]
    by (auto simp: find_Some_iff split: option.splits)
  have from_raw: "\<exists>raw \<in> set raws. view_of X meta raw = Some q" if "q \<in> set vs" for q
  proof -
    have "Some q \<in> set (map (view_of X meta) raws)" using that vs(1) by simp
    then show ?thesis by auto
  qed
  have conv: "\<exists>raw \<in> set raws. converted (sm_tick meta) raw q \<and> wf_quote q" if "q \<in> set vs" for q
    using from_raw [OF that] assms(3) view_of_converted [OF _ _ tick] by blast
  have "set (map fst ?m) = qv_contract ` set vs"
  proof (intro set_eqI iffI)
    fix k assume "k \<in> qv_contract ` set vs"
    then have "bt_get ?m k \<noteq> None"
      using quote_map_get [OF vs(2), of bt_empty k] by (auto simp: find_None_iff split: option.splits)
    then show "k \<in> set (map fst ?m)" unfolding bt_keys_get [symmetric] bt_keys_def .
  qed (use entry in force)
  then have "length ?m = length vs"
    using bt_inv_distinct [OF inv] vs(2) by (metis distinct_card length_map set_map)
  moreover have "length vs = length raws" using arg_cong [OF vs(1), of length] by simp
  moreover have "wf_snapshot snap"
    using assms(2) tick ok inv entry conv
    by (fastforce simp: wf_snapshot_def snap typed_meta_def wf_spec_def is_quantity_def width_simps)
  moreover have "\<forall>q \<in> set (bt_values (cs_quotes snap)). \<exists>raw \<in> set raws. converted (sm_tick meta) raw q"
    using entry conv by (fastforce simp: snap bt_values_def)
  ultimately show ?thesis by (simp add: snap)
qed

text \<open>
  C18. A converted snapshot is well formed, and every quote of it comes from a raw quote with
  the spread and the sizes unchanged: all its prices lie on the tick grid and the mid is the
  highest grid price not above the midpoint of the spread, so it is never outside it. No
  quote is lost: there are as many as raw ones.
\<close>

theorem conversion_well_formed:
  assumes "raw_quotes_to_snapshot X meta raws = Inr snap"
    and "typed_meta meta" and "\<forall>raw \<in> set raws. typed_raw raw"
  shows "wf_snapshot snap \<and> length (cs_quotes snap) = length raws \<and>
    (\<forall>q \<in> set (bt_values (cs_quotes snap)). \<exists>raw \<in> set raws. converted (sm_tick meta) raw q)"
  by (rule conversion_wf [OF assms])

text \<open>Two quotes of one strike; the half cent of the midpoint is floored to the grid.\<close>

definition sample_meta :: snapshot_meta where
  "sample_meta = \<lparr>sm_ts = 5, sm_step = 0, sm_anchor_ts = 5, sm_underlying = ''SPX'',
     sm_underlying_price = 510000, sm_tick = 5, sm_mult = 100\<rparr>"

definition sample_raw :: "option_style \<Rightarrow> raw_quote" where
  "sample_raw sty = \<lparr>rq_expiration = DateTime 1000, rq_strike = 500000, rq_style = sty,
     rq_bid = 200, rq_ask = 215, rq_bid_size = 10, rq_ask_size = 10, rq_iv = Finite (1 / 5),
     rq_delta = Finite (1 / 2), rq_gamma = Finite 0, rq_theta = Finite 0, rq_vega = Finite 0\<rparr>"

lemma sample_conversion: "\<exists>snap. raw_quotes_to_snapshot exact_ext sample_meta [sample_raw Call, sample_raw Put] = Inr snap"
proof -
  have "\<not> isl (raw_quotes_to_snapshot exact_ext sample_meta [sample_raw Call, sample_raw Put])"
    by code_simp
  then show ?thesis by (metis sum.collapse(2))
qed

theorem conversion_well_formed_witness:
  "\<exists>snap. raw_quotes_to_snapshot exact_ext sample_meta [sample_raw Call, sample_raw Put] = Inr snap \<and>
     wf_snapshot snap \<and> length (cs_quotes snap) = 2"
proof -
  obtain snap where snap: "raw_quotes_to_snapshot exact_ext sample_meta [sample_raw Call, sample_raw Put] = Inr snap"
    using sample_conversion by blast
  with conversion_well_formed [OF snap] show ?thesis
    by (simp add: typed_meta_def sample_meta_def typed_raw_def sample_raw_def is_price_def
        is_quantity_def width_simps)
qed

end
