(* ===== verification/Tape_Build.thy ===== *)
theory Tape_Build
  imports Convert Tape_Feed Run_Config
begin

text \<open>
  What the two historical readers share (\<open>src/data/historical.rs\<close>): the reading of a style, the
  constancy of a snapshot's fields over its rows, and the ceilings of a tape, tested before a
  snapshot is appended. The sizes of the Rust structures are constants of the platform.
\<close>

record layout =
  sz_contract_key :: int
  sz_quote_view :: int
  sz_snapshot :: int

definition snapshot_byte_estimate :: "layout \<Rightarrow> chain_snapshot \<Rightarrow> int res" where
  "snapshot_byte_estimate Z snap =
     rbind (checked (try_into U64 (sz_contract_key Z + sz_quote_view Z))) (\<lambda>per_quote.
     rbind (checked (try_into U64 (sz_snapshot Z))) (\<lambda>overhead.
     rbind (checked (try_into U64 (int (length (cs_quotes snap))))) (\<lambda>quotes.
     checked (Option.bind (checked_mul U64 quotes per_quote) (\<lambda>q. checked_add U64 q overhead)))))"

definition push_checked ::
    "layout \<Rightarrow> resource_limits \<Rightarrow> chain_snapshot \<Rightarrow> chain_snapshot list \<times> int
      \<Rightarrow> (chain_snapshot list \<times> int) res" where
  "push_checked Z limits snap = (\<lambda>(tape, total_bytes).
     rbind (checked (try_into U64 (int (length tape)))) (\<lambda>len.
     rbind (checked (checked_add U64 len 1)) (\<lambda>next_len.
     if next_len > rl_max_steps limits then Inl (TapeTooLarge ''max_steps'' next_len (rl_max_steps limits))
     else rbind (snapshot_byte_estimate Z snap) (\<lambda>snapshot_bytes.
          rbind (checked (checked_add U64 total_bytes snapshot_bytes)) (\<lambda>next_total.
          if next_total > rl_max_total_bytes limits
          then Inl (TapeTooLarge ''max_total_bytes'' next_total (rl_max_total_bytes limits))
          else Inr (tape @ [snap], next_total))))))"

definition to_ascii_lower :: "char \<Rightarrow> char" where
  "to_ascii_lower c = (if is_ascii_uppercase c then char_of ((of_char c :: nat) + 32) else c)"

definition eq_ignore_ascii_case :: "string \<Rightarrow> string \<Rightarrow> bool" where
  "eq_ignore_ascii_case a b \<longleftrightarrow> map to_ascii_lower a = map to_ascii_lower b"

definition parse_style :: "string \<Rightarrow> option_style res" where
  "parse_style style =
     (if eq_ignore_ascii_case style ''call'' then Inr Call
      else if eq_ignore_ascii_case style ''put'' then Inr Put
      else Inl (Conversion (MsgFile (MsgStyle style))))"

definition ensure_const :: "string \<Rightarrow> int \<Rightarrow> shown \<Rightarrow> shown \<Rightarrow> unit res" where
  "ensure_const field step got want =
     (if got = want then Inr () else Inl (Conversion (MsgFile (MsgInconsistent field step got want))))"

text \<open>\<open>usize\<close> to \<open>u64\<close>, plus one, against the ceiling of a snapshot.\<close>

definition contract_ceiling :: "resource_limits \<Rightarrow> raw_quote list \<Rightarrow> unit res" where
  "contract_ceiling limits quotes =
     rbind (checked (try_into U64 (int (length quotes)))) (\<lambda>len.
     rbind (checked (checked_add U64 len 1)) (\<lambda>next_count.
     if next_count > rl_max_contracts_per_snapshot limits
     then Inl (TapeTooLarge ''max_contracts_per_snapshot'' next_count (rl_max_contracts_per_snapshot limits))
     else Inr ()))"

section \<open>A tape within its limits\<close>

text \<open>
  The invariant of a tape under construction: well-formed snapshots, no more of them and of
  their quotes than the ceilings allow, and the running byte count is their estimate.
\<close>

definition snapshot_bytes :: "layout \<Rightarrow> chain_snapshot \<Rightarrow> int" where
  "snapshot_bytes Z snap =
     int (length (cs_quotes snap)) * (sz_contract_key Z + sz_quote_view Z) + sz_snapshot Z"

definition bounded_tape :: "layout \<Rightarrow> resource_limits \<Rightarrow> chain_snapshot list \<Rightarrow> int \<Rightarrow> bool" where
  "bounded_tape Z limits tape total_bytes \<longleftrightarrow>
     (\<forall>s \<in> set tape. wf_snapshot s \<and> int (length (cs_quotes s)) \<le> rl_max_contracts_per_snapshot limits) \<and>
     (tape \<noteq> [] \<longrightarrow> int (length tape) \<le> rl_max_steps limits \<and> total_bytes \<le> rl_max_total_bytes limits) \<and>
     total_bytes = sum_list (map (snapshot_bytes Z) tape)"

lemma bounded_tape_Nil [simp]: "bounded_tape Z limits [] 0"
  by (simp add: bounded_tape_def)

lemma snapshot_byte_estimate_Inr [res_simps]:
  "snapshot_byte_estimate Z snap = Inr n \<Longrightarrow> n = snapshot_bytes Z snap"
  by (auto simp: snapshot_byte_estimate_def snapshot_bytes_def res_simps bind_eq_Some_conv checked_defs)

lemma push_checked_Inr:
  assumes "push_checked Z limits snap (tape, total_bytes) = Inr (tape', total')"
  shows "tape' = tape @ [snap] \<and> total' = total_bytes + snapshot_bytes Z snap \<and>
    int (length tape') \<le> rl_max_steps limits \<and> total' \<le> rl_max_total_bytes limits"
  using assms
  by (auto simp: push_checked_def res_simps checked_defs split: if_splits
      dest!: snapshot_byte_estimate_Inr)

lemma push_checked_bounded:
  assumes "push_checked Z limits snap (tape, total_bytes) = Inr (tape', total')"
    and "bounded_tape Z limits tape total_bytes" and "wf_snapshot snap"
    and "int (length (cs_quotes snap)) \<le> rl_max_contracts_per_snapshot limits"
  shows "bounded_tape Z limits tape' total'"
  using push_checked_Inr [OF assms(1)] assms(2-) by (auto simp: bounded_tape_def)

lemma contract_ceiling_Inr:
  "contract_ceiling limits quotes = Inr u \<Longrightarrow>
     int (Suc (length quotes)) \<le> rl_max_contracts_per_snapshot limits"
  by (auto simp: contract_ceiling_def res_simps checked_defs split: if_splits)

end
