(* ===== verification/Parquet_Tape.thy ===== *)
theory Parquet_Tape
  imports Tape_Build Replay_Feed
begin

text \<open>
  Reading a Parquet tape (\<open>src/data/historical.rs\<close>): the checks on the file and its schema, the
  columns of a batch, the grouping of rows into snapshots by step, and the ceilings. What the
  operating system and the \<open>parquet\<close> and \<open>arrow\<close> crates report of a file is an input: the results
  of their calls, an I/O error being already the crate's error. A call into \<open>parquet\<close> may also
  panic, which the code contains.
\<close>

section \<open>What the crates report\<close>

datatype 'a guarded = Panicked string | Failed string | Done 'a

datatype arrow_type = Int32 | Int64 | Utf8 | Float16 | Float32 | Float64 | OtherType string

datatype arrow_array =
    Int32Array "int option list"
  | Int64Array "int option list"
  | StringArray "string option list"
  | Float64Array "double option list"
  | OtherArray string

record record_batch =
  rb_columns :: "(string \<times> arrow_array) list"
  rb_rows :: nat
  rb_bytes :: int

record row_group =
  rg_columns :: "(int \<times> int \<times> int option) list" \<comment> \<open>compressed size, data and dictionary offset\<close>
  rg_byte_size :: int

record parquet_source =
  pq_path :: string
  pq_path_is_file :: "bool res"
  pq_open :: "unit res"
  pq_handle :: "(bool \<times> int) res"
  pq_reads :: "nat list res list"
  pq_rewind :: "unit res"
  pq_metadata :: "(row_group list \<times> (string \<times> arrow_type) list) guarded"
  pq_reader :: "unit guarded"
  pq_batches :: "record_batch guarded list"

record 'h sha_api =
  sha_new :: 'h
  sha_update :: "nat list \<Rightarrow> 'h \<Rightarrow> 'h"
  sha_final :: "'h \<Rightarrow> nat list"

text \<open>\<open>guard_parquet\<close>, then \<open>map_err\<close> with \<open>conv\<close>.\<close>

definition guard_parquet :: "string \<Rightarrow> 'a guarded \<Rightarrow> (string + 'a) res" where
  "guard_parquet op r =
     (case r of Panicked msg \<Rightarrow> Inl (Data (MsgContained op msg)) | Failed e \<Rightarrow> Inr (Inl e) | Done x \<Rightarrow> Inr (Inr x))"

definition conv :: "string \<Rightarrow> string \<Rightarrow> backtest_error" where
  "conv context error = Data (MsgDecode context error)"

definition guarded_call :: "string \<Rightarrow> string \<Rightarrow> 'a guarded \<Rightarrow> 'a res" where
  "guarded_call op context r =
     rbind (guard_parquet op r) (\<lambda>r. case r of Inl e \<Rightarrow> Inl (conv context e) | Inr x \<Rightarrow> Inr x)"

section \<open>Hashing\<close>

text \<open>
  The reads of the handle, of which \<open>Read::take\<close> lets at most \<open>max_bytes\<close> bytes through: a
  read of no bytes, or the exhausted budget, is the end. A read never returns more than its
  buffer holds, so the branch for that case has no counterpart.
\<close>

definition bounded_read :: "int \<Rightarrow> nat list \<Rightarrow> nat list" where
  "bounded_read remaining buffer =
     (if int (length buffer) \<le> remaining then buffer else take (nat remaining) buffer)"

fun hash_chunks :: "'h sha_api \<Rightarrow> int \<Rightarrow> nat list res list \<Rightarrow> 'h \<Rightarrow> 'h res" where
  "hash_chunks S remaining [] h = Inr h"
| "hash_chunks S remaining (r # rs) h =
     (if remaining = 0 then Inr h
      else rbind r (\<lambda>buffer. let chunk = bounded_read remaining buffer in
        if chunk = [] then Inr h
        else hash_chunks S (remaining - int (length chunk)) rs (sha_update S chunk h)))"

definition hex_digit :: "nat \<Rightarrow> char" where
  "hex_digit d = (if d < 10 then char_of (48 + d) else char_of (87 + d))"

definition to_hex :: "nat list \<Rightarrow> string" where
  "to_hex bytes = concat (map (\<lambda>b. [hex_digit (b div 16), hex_digit (b mod 16)]) bytes)"

definition hash_reader :: "'h sha_api \<Rightarrow> nat list res list \<Rightarrow> int \<Rightarrow> string res" where
  "hash_reader S reads max_bytes =
     rbind (hash_chunks S max_bytes reads (sha_new S)) (\<lambda>h. Inr (to_hex (sha_final S h)))"

section \<open>The schema\<close>

definition expected_schema :: "(string \<times> arrow_type) list" where
  "expected_schema =
     [(''step'', Int32), (''ts'', Int64), (''underlying'', Utf8), (''underlying_price'', Int64),
      (''tick_size'', Int64), (''contract_multiplier'', Int32), (''expiration'', Int64),
      (''strike'', Int64), (''style'', Utf8), (''bid'', Int64), (''ask'', Int64),
      (''bid_size'', Int32), (''ask_size'', Int32), (''implied_volatility'', Float64),
      (''delta'', Float64), (''gamma'', Float64), (''theta'', Float64), (''vega'', Float64)]"

definition is_money_column :: "string \<Rightarrow> bool" where
  "is_money_column name \<longleftrightarrow>
     name \<in> {''underlying_price'', ''tick_size'', ''strike'', ''bid'', ''ask''}"

definition is_float :: "arrow_type \<Rightarrow> bool" where
  "is_float t \<longleftrightarrow> t \<in> {Float16, Float32, Float64}"

fun type_name :: "arrow_type \<Rightarrow> string" where
  "type_name Int32 = ''Int32''" | "type_name Int64 = ''Int64''" | "type_name Utf8 = ''Utf8''"
| "type_name Float16 = ''Float16''" | "type_name Float32 = ''Float32''"
| "type_name Float64 = ''Float64''" | "type_name (OtherType t) = t"

definition check_column :: "(string \<times> arrow_type) list \<Rightarrow> string \<times> arrow_type \<Rightarrow> unit \<Rightarrow> unit res" where
  "check_column schema = (\<lambda>(name, want) _.
     rbind (ok_or (map_of schema name) (Conversion (MsgFile (MsgSchemaMissing name)))) (\<lambda>actual.
     if actual \<noteq> want
     then Inl (Conversion (MsgFile (MsgSchemaType name (type_name actual) (type_name want)
            (is_money_column name \<and> is_float actual))))
     else Inr ()))"

definition validate_schema :: "(string \<times> arrow_type) list \<Rightarrow> unit res" where
  "validate_schema schema =
     (if length schema \<noteq> length expected_schema
      then Inl (Conversion (MsgFile (MsgSchemaWidth (length schema) (length expected_schema))))
      else fold_res (check_column schema) expected_schema ())"

section \<open>The columns of a batch\<close>

record columns =
  co_step :: "int option list"
  co_ts :: "int option list"
  co_underlying :: "string option list"
  co_underlying_price :: "int option list"
  co_tick_size :: "int option list"
  co_mult :: "int option list"
  co_expiration :: "int option list"
  co_strike :: "int option list"
  co_style :: "string option list"
  co_bid :: "int option list"
  co_ask :: "int option list"
  co_bid_size :: "int option list"
  co_ask_size :: "int option list"
  co_iv :: "double option list"
  co_delta :: "double option list"
  co_gamma :: "double option list"
  co_theta :: "double option list"
  co_vega :: "double option list"
  co_len :: nat

definition downcast :: "(arrow_array \<Rightarrow> 'a option) \<Rightarrow> record_batch \<Rightarrow> string \<Rightarrow> 'a res" where
  "downcast select batch name =
     rbind (ok_or (map_of (rb_columns batch) name) (Conversion (MsgFile (MsgBatchColumn name)))) (\<lambda>column.
     ok_or (select column) (Conversion (MsgFile (MsgColumnType name))))"

fun as_i32 :: "arrow_array \<Rightarrow> int option list option" where
  "as_i32 (Int32Array xs) = Some xs" | "as_i32 _ = None"

fun as_i64 :: "arrow_array \<Rightarrow> int option list option" where
  "as_i64 (Int64Array xs) = Some xs" | "as_i64 _ = None"

fun as_str :: "arrow_array \<Rightarrow> string option list option" where
  "as_str (StringArray xs) = Some xs" | "as_str _ = None"

fun as_f64 :: "arrow_array \<Rightarrow> double option list option" where
  "as_f64 (Float64Array xs) = Some xs" | "as_f64 _ = None"

definition columns_new :: "record_batch \<Rightarrow> columns res" where
  "columns_new b =
     rbind (downcast as_i32 b ''step'') (\<lambda>step.
     rbind (downcast as_i64 b ''ts'') (\<lambda>ts.
     rbind (downcast as_str b ''underlying'') (\<lambda>underlying.
     rbind (downcast as_i64 b ''underlying_price'') (\<lambda>underlying_price.
     rbind (downcast as_i64 b ''tick_size'') (\<lambda>tick_size.
     rbind (downcast as_i32 b ''contract_multiplier'') (\<lambda>mult.
     rbind (downcast as_i64 b ''expiration'') (\<lambda>e.
     rbind (downcast as_i64 b ''strike'') (\<lambda>strike.
     rbind (downcast as_str b ''style'') (\<lambda>style.
     rbind (downcast as_i64 b ''bid'') (\<lambda>bid.
     rbind (downcast as_i64 b ''ask'') (\<lambda>ask.
     rbind (downcast as_i32 b ''bid_size'') (\<lambda>bid_size.
     rbind (downcast as_i32 b ''ask_size'') (\<lambda>ask_size.
     rbind (downcast as_f64 b ''implied_volatility'') (\<lambda>iv.
     rbind (downcast as_f64 b ''delta'') (\<lambda>delta.
     rbind (downcast as_f64 b ''gamma'') (\<lambda>gamma.
     rbind (downcast as_f64 b ''theta'') (\<lambda>theta.
     rbind (downcast as_f64 b ''vega'') (\<lambda>vega.
     Inr \<lparr>co_step = step, co_ts = ts, co_underlying = underlying,
          co_underlying_price = underlying_price, co_tick_size = tick_size, co_mult = mult,
          co_expiration = e, co_strike = strike, co_style = style, co_bid = bid, co_ask = ask,
          co_bid_size = bid_size, co_ask_size = ask_size, co_iv = iv, co_delta = delta,
          co_gamma = gamma, co_theta = theta, co_vega = vega, co_len = rb_rows b\<rparr>))))))))))))))))))"

text \<open>
  Reading a cell; the columns of a batch have \<open>co_len\<close> rows, which the readers stay below. A
  null cell is \<open>None\<close>.
\<close>

definition cell :: "'a option list \<Rightarrow> nat \<Rightarrow> 'a option" where
  "cell xs row = (if row < length xs then xs ! row else None)"

definition req_cell_of :: "'a option list \<Rightarrow> nat \<Rightarrow> string \<Rightarrow> 'a res" where
  "req_cell_of xs row column = ok_or (cell xs row) (Conversion (MsgFile (MsgNullCell column row)))"

definition greek_f64 :: "double option list \<Rightarrow> nat \<Rightarrow> double" where
  "greek_f64 xs row = unwrap_or (Finite 0) (cell xs row)"

definition price_cents_from :: "int \<Rightarrow> string \<Rightarrow> price_cents res" where
  "price_cents_from value column =
     ok_or (try_into U64 value) (Conversion (MsgFile (MsgNegativeMoney column value)))"

definition count_u32 :: "int \<Rightarrow> string \<Rightarrow> int res" where
  "count_u32 value column =
     ok_or (try_into U32 value) (Conversion (MsgFile (MsgNegativeCount column value)))"

section \<open>Grouping rows into snapshots\<close>

record group_builder =
  gb_step :: int
  gb_step_raw :: int
  gb_ts :: int
  gb_underlying :: underlying
  gb_underlying_price :: price_cents
  gb_tick :: price_cents
  gb_mult :: int
  gb_quotes :: "raw_quote list"

definition group_start :: "columns \<Rightarrow> nat \<Rightarrow> int \<Rightarrow> group_builder res" where
  "group_start c row step_raw =
     rbind (count_u32 step_raw ''step'') (\<lambda>step.
     rbind (req_cell_of (co_ts c) row ''ts'') (\<lambda>ts.
     rbind (rbind (req_cell_of (co_underlying c) row ''underlying'') underlying_new) (\<lambda>u.
     rbind (rbind (req_cell_of (co_underlying_price c) row ''underlying_price'')
              (\<lambda>v. price_cents_from v ''underlying_price'')) (\<lambda>price.
     rbind (rbind (req_cell_of (co_tick_size c) row ''tick_size'')
              (\<lambda>v. price_cents_from v ''tick_size'')) (\<lambda>tick.
     rbind (rbind (req_cell_of (co_mult c) row ''contract_multiplier'')
              (\<lambda>v. count_u32 v ''contract_multiplier'')) (\<lambda>mult.
     Inr \<lparr>gb_step = step, gb_step_raw = step_raw, gb_ts = ts, gb_underlying = u,
          gb_underlying_price = price, gb_tick = tick, gb_mult = mult, gb_quotes = []\<rparr>))))))"

text \<open>The snapshot-level fields of a row must be those of its group.\<close>

definition same_snapshot :: "columns \<Rightarrow> nat \<Rightarrow> group_builder \<Rightarrow> unit res" where
  "same_snapshot c row g =
     rbind (req_cell_of (co_ts c) row ''ts'') (\<lambda>ts.
     rbind (ensure_const ''ts'' (gb_step_raw g) (ShownInt ts) (ShownInt (gb_ts g))) (\<lambda>_.
     rbind (req_cell_of (co_underlying c) row ''underlying'') (\<lambda>u.
     rbind (ensure_const ''underlying'' (gb_step_raw g) (ShownText u) (ShownText (gb_underlying g))) (\<lambda>_.
     rbind (rbind (req_cell_of (co_underlying_price c) row ''underlying_price'')
              (\<lambda>v. price_cents_from v ''underlying_price'')) (\<lambda>price.
     rbind (ensure_const ''underlying_price'' (gb_step_raw g) (ShownInt price) (ShownInt (gb_underlying_price g))) (\<lambda>_.
     rbind (rbind (req_cell_of (co_tick_size c) row ''tick_size'')
              (\<lambda>v. price_cents_from v ''tick_size'')) (\<lambda>tick.
     rbind (ensure_const ''tick_size'' (gb_step_raw g) (ShownInt tick) (ShownInt (gb_tick g))) (\<lambda>_.
     rbind (rbind (req_cell_of (co_mult c) row ''contract_multiplier'')
              (\<lambda>v. count_u32 v ''contract_multiplier'')) (\<lambda>mult.
     ensure_const ''contract_multiplier'' (gb_step_raw g) (ShownInt mult) (ShownInt (gb_mult g)))))))))))"

definition price_at :: "int option list \<Rightarrow> nat \<Rightarrow> string \<Rightarrow> price_cents res" where
  "price_at xs row column = rbind (req_cell_of xs row column) (\<lambda>v. price_cents_from v column)"

definition size_at :: "int option list \<Rightarrow> nat \<Rightarrow> string \<Rightarrow> quantity res" where
  "size_at xs row column =
     rbind (rbind (req_cell_of xs row column) (\<lambda>v. count_u32 v column)) quantity_new"

definition quote_of_row :: "ext \<Rightarrow> columns \<Rightarrow> nat \<Rightarrow> raw_quote res" where
  "quote_of_row X c row =
     rbind (req_cell_of (co_expiration c) row ''expiration'') (\<lambda>expiration_ns.
     rbind (price_at (co_strike c) row ''strike'') (\<lambda>strike.
     rbind (rbind (req_cell_of (co_style c) row ''style'') parse_style) (\<lambda>style.
     rbind (price_at (co_bid c) row ''bid'') (\<lambda>bid.
     rbind (price_at (co_ask c) row ''ask'') (\<lambda>ask.
     rbind (size_at (co_bid_size c) row ''bid_size'') (\<lambda>bid_size.
     rbind (size_at (co_ask_size c) row ''ask_size'') (\<lambda>ask_size.
     rbind (req_cell_of (co_iv c) row ''implied_volatility'') (\<lambda>iv.
     Inr \<lparr>rq_expiration = DateTime (dt_from_nanos X expiration_ns), rq_strike = strike,
          rq_style = style, rq_bid = bid, rq_ask = ask, rq_bid_size = bid_size,
          rq_ask_size = ask_size, rq_iv = iv, rq_delta = greek_f64 (co_delta c) row,
          rq_gamma = greek_f64 (co_gamma c) row, rq_theta = greek_f64 (co_theta c) row,
          rq_vega = greek_f64 (co_vega c) row\<rparr>))))))))"

definition push_row ::
    "ext \<Rightarrow> resource_limits \<Rightarrow> columns \<Rightarrow> nat \<Rightarrow> group_builder \<Rightarrow> group_builder res" where
  "push_row X limits c row g =
     rbind (same_snapshot c row g) (\<lambda>_.
     rbind (contract_ceiling limits (gb_quotes g)) (\<lambda>_.
     rbind (quote_of_row X c row) (\<lambda>q. Inr (g\<lparr>gb_quotes := gb_quotes g @ [q]\<rparr>))))"

definition group_finish :: "ext \<Rightarrow> group_builder \<Rightarrow> int \<Rightarrow> chain_snapshot res" where
  "group_finish X g anchor =
     raw_quotes_to_snapshot X
       \<lparr>sm_ts = gb_ts g, sm_step = gb_step g, sm_anchor_ts = anchor, sm_underlying = gb_underlying g,
        sm_underlying_price = gb_underlying_price g, sm_tick = gb_tick g, sm_mult = gb_mult g\<rparr>
       (gb_quotes g)"

section \<open>The tape\<close>

record tape_builder =
  tb_tape :: "chain_snapshot list"
  tb_anchor :: "int option"
  tb_current :: "group_builder option"
  tb_prev_step :: "int option"
  tb_decoded :: int
  tb_total :: int

definition tape_builder_new :: tape_builder where
  "tape_builder_new = \<lparr>tb_tape = [], tb_anchor = None, tb_current = None, tb_prev_step = None,
     tb_decoded = 0, tb_total = 0\<rparr>"

definition push_snapshot ::
    "ext \<Rightarrow> layout \<Rightarrow> resource_limits \<Rightarrow> group_builder \<Rightarrow> tape_builder \<Rightarrow> tape_builder res" where
  "push_snapshot X Z limits g t =
     (let anchor = unwrap_or (gb_ts g) (tb_anchor t) in
      rbind (group_finish X g anchor) (\<lambda>snapshot.
      rbind (push_checked Z limits snapshot (tb_tape t, tb_total t)) (\<lambda>(tape, total_bytes).
      Inr (t\<lparr>tb_tape := tape, tb_total := total_bytes, tb_anchor := Some anchor\<rparr>))))"

text \<open>The group in progress is flushed: at a new step, and at the end.\<close>

definition flush_group ::
    "ext \<Rightarrow> layout \<Rightarrow> resource_limits \<Rightarrow> tape_builder \<Rightarrow> tape_builder res" where
  "flush_group X Z limits t =
     (case tb_current t of
        None \<Rightarrow> Inr t
      | Some g \<Rightarrow> push_snapshot X Z limits g (t\<lparr>tb_current := None\<rparr>))"

definition check_step_order :: "int \<Rightarrow> int option \<Rightarrow> unit res" where
  "check_step_order step_raw prev =
     (case prev of
        Some previous \<Rightarrow>
          if step_raw \<le> previous then Inl (Conversion (MsgFile (MsgStepOrder step_raw previous)))
          else Inr ()
      | None \<Rightarrow> Inr ())"

definition enter_group ::
    "ext \<Rightarrow> layout \<Rightarrow> resource_limits \<Rightarrow> columns \<Rightarrow> nat \<Rightarrow> int \<Rightarrow> tape_builder \<Rightarrow> tape_builder res" where
  "enter_group X Z limits c row step_raw t =
     (let new_group = (case tb_current t of Some g \<Rightarrow> gb_step_raw g \<noteq> step_raw | None \<Rightarrow> True) in
      if new_group
      then rbind (flush_group X Z limits t) (\<lambda>t.
           rbind (check_step_order step_raw (tb_prev_step t)) (\<lambda>_.
           rbind (group_start c row step_raw) (\<lambda>g.
           Inr (t\<lparr>tb_prev_step := Some step_raw, tb_current := Some g\<rparr>))))
      else Inr t)"

definition decode_row ::
    "ext \<Rightarrow> layout \<Rightarrow> resource_limits \<Rightarrow> columns \<Rightarrow> nat \<Rightarrow> tape_builder \<Rightarrow> tape_builder res" where
  "decode_row X Z limits c row t =
     rbind (req_cell_of (co_step c) row ''step'') (\<lambda>step_raw.
     rbind (enter_group X Z limits c row step_raw t) (\<lambda>t.
     rbind (ok_or (tb_current t) (Conversion (MsgFile MsgGrouping))) (\<lambda>g.
     rbind (push_row X limits c row g) (\<lambda>g. Inr (t\<lparr>tb_current := Some g\<rparr>)))))"

definition decode_batch ::
    "ext \<Rightarrow> layout \<Rightarrow> resource_limits \<Rightarrow> record_batch guarded \<Rightarrow> tape_builder \<Rightarrow> tape_builder res" where
  "decode_batch X Z limits item t =
     rbind (guarded_call ''row-group decode'' ''failed to decode a parquet row group'' item) (\<lambda>batch.
     rbind (checked (try_into U64 (rb_bytes batch))) (\<lambda>batch_bytes.
     rbind (checked (checked_add U64 (tb_decoded t) batch_bytes)) (\<lambda>decoded.
     if decoded > rl_max_decompressed_bytes limits
     then Inl (TapeTooLarge ''max_decompressed_bytes'' decoded (rl_max_decompressed_bytes limits))
     else rbind (columns_new batch) (\<lambda>c.
          fold_res (decode_row X Z limits c) [0..<co_len c] (t\<lparr>tb_decoded := decoded\<rparr>)))))"

definition check_row_group :: "row_group \<Rightarrow> int \<Rightarrow> int res" where
  "check_row_group g declared =
     (if \<exists>(size, data, dict) \<in> set (rg_columns g).
           size < 0 \<or> data < 0 \<or> (case dict of Some off \<Rightarrow> off < 0 | None \<Rightarrow> False)
      then Inl (Data MsgNegativeOffset)
      else rbind (ok_or (try_into U64 (rg_byte_size g)) (Data MsgNegativeSize)) (\<lambda>size.
           checked (checked_add U64 declared size)))"

definition read_tape ::
    "ext \<Rightarrow> layout \<Rightarrow> resource_limits \<Rightarrow> record_batch guarded list \<Rightarrow> chain_snapshot list res" where
  "read_tape X Z limits items =
     rbind (fold_res (decode_batch X Z limits) items tape_builder_new) (\<lambda>t.
     rbind (flush_group X Z limits t) (\<lambda>t. Inr (tb_tape t)))"

definition parquet_open ::
    "ext \<Rightarrow> layout \<Rightarrow> 'h sha_api \<Rightarrow> resource_limits \<Rightarrow> parquet_source \<Rightarrow> parquet_feed res" where
  "parquet_open X Z S limits src =
     rbind (pq_path_is_file src) (\<lambda>is_file.
     if \<not> is_file then Inl (Conversion (MsgFile (MsgNotRegular (pq_path src))))
     else rbind (pq_open src) (\<lambda>_.
     rbind (pq_handle src) (\<lambda>(is_file, file_len).
     if \<not> is_file then Inl (Conversion (MsgFile (MsgNotRegular (pq_path src))))
     else if file_len > rl_max_file_bytes limits
     then Inl (TapeTooLarge ''max_file_bytes'' file_len (rl_max_file_bytes limits))
     else rbind (hash_reader S (pq_reads src) (rl_max_file_bytes limits)) (\<lambda>sha256.
     rbind (pq_rewind src) (\<lambda>_.
     rbind (guarded_call ''metadata read''
              ''failed to read parquet metadata (truncated or corrupt footer)'' (pq_metadata src)) (\<lambda>(groups, schema).
     rbind (fold_res check_row_group groups 0) (\<lambda>declared.
     if declared > rl_max_decompressed_bytes limits
     then Inl (TapeTooLarge ''max_decompressed_bytes'' declared (rl_max_decompressed_bytes limits))
     else rbind (validate_schema schema) (\<lambda>_.
     rbind (guarded_call ''reader build'' ''failed to build parquet reader'' (pq_reader src)) (\<lambda>_.
     rbind (read_tape X Z limits (pq_batches src)) (\<lambda>tape.
     rbind (tape_meta_from_tape sha256 tape) (\<lambda>meta.
     Inr \<lparr>pf_tape = \<lparr>pt_snapshots = tape, pt_meta = meta, pt_path = pq_path src, pt_sha256 = sha256\<rparr>,
          pf_cursor = 0\<rparr>)))))))))))"

section \<open>An opened tape is valid\<close>

text \<open>The types of the cells: an array holds integers of its width.\<close>

fun typed_array :: "arrow_array \<Rightarrow> bool" where
  "typed_array (Int32Array xs) = (\<forall>v. Some v \<in> set xs \<longrightarrow> fits I32 v)"
| "typed_array (Int64Array xs) = (\<forall>v. Some v \<in> set xs \<longrightarrow> fits I64 v)"
| "typed_array _ = True"

definition typed_batch :: "record_batch \<Rightarrow> bool" where
  "typed_batch b \<longleftrightarrow> (\<forall>a \<in> snd ` set (rb_columns b). typed_array a)"

fun item_rows :: "record_batch guarded \<Rightarrow> nat" where
  "item_rows (Done b) = rb_rows b" | "item_rows _ = 0"

fun item_bytes :: "record_batch guarded \<Rightarrow> int" where
  "item_bytes (Done b) = rb_bytes b" | "item_bytes _ = 0"

fun typed_item :: "record_batch guarded \<Rightarrow> bool" where
  "typed_item (Done b) = typed_batch b" | "typed_item _ = True"

definition group_inv :: "resource_limits \<Rightarrow> group_builder \<Rightarrow> bool" where
  "group_inv limits g \<longleftrightarrow> fits I64 (gb_ts g) \<and> fits U32 (gb_step g) \<and>
     is_price (gb_underlying_price g) \<and> is_price (gb_tick g) \<and> fits U32 (gb_mult g) \<and>
     (\<forall>q \<in> set (gb_quotes g). typed_raw q) \<and>
     int (length (gb_quotes g)) \<le> rl_max_contracts_per_snapshot limits"

definition quotes_so_far :: "tape_builder \<Rightarrow> nat" where
  "quotes_so_far t = sum_list (map (length \<circ> cs_quotes) (tb_tape t)) +
     (case tb_current t of None \<Rightarrow> 0 | Some g \<Rightarrow> length (gb_quotes g))"

definition builder_inv :: "layout \<Rightarrow> resource_limits \<Rightarrow> nat \<Rightarrow> tape_builder \<Rightarrow> bool" where
  "builder_inv Z limits n t \<longleftrightarrow> bounded_tape Z limits (tb_tape t) (tb_total t) \<and>
     (\<forall>g. tb_current t = Some g \<longrightarrow> group_inv limits g) \<and> quotes_so_far t = n"

lemma req_cell_Inr [res_simps]: "req_cell_of xs row column = Inr v \<longleftrightarrow> cell xs row = Some v"
  by (simp add: req_cell_of_def res_simps)

lemma cell_mem: "cell xs row = Some v \<Longrightarrow> Some v \<in> set xs"
  by (auto simp: cell_def split: if_splits) (metis nth_mem)

lemma price_cents_from_Inr [res_simps]: "price_cents_from v column = Inr p \<longleftrightarrow> is_price v \<and> p = v"
  by (auto simp: price_cents_from_def res_simps is_price_def)

lemma count_u32_Inr [res_simps]: "count_u32 v column = Inr n \<longleftrightarrow> fits U32 v \<and> n = v"
  by (auto simp: count_u32_def res_simps)

lemma quantity_new_typed: "quantity_new n = Inr q \<Longrightarrow> fits U32 n \<Longrightarrow> is_quantity q"
  by (auto simp: quantity_new_def is_quantity_def width_simps split: if_splits)

lemma group_start_inv:
  assumes "group_start c row step_raw = Inr g" and "\<forall>v. Some v \<in> set (co_ts c) \<longrightarrow> fits I64 v"
    and "0 \<le> rl_max_contracts_per_snapshot limits"
  shows "group_inv limits g \<and> gb_quotes g = []"
  using assms by (auto simp: group_start_def res_simps group_inv_def dest!: cell_mem)

lemma quote_of_row_typed: "quote_of_row X c row = Inr q \<Longrightarrow> typed_raw q"
  by (auto simp: quote_of_row_def res_simps price_at_def size_at_def typed_raw_def
      intro: quantity_new_typed)

lemma push_row_inv:
  assumes "push_row X limits c row g = Inr g'" and "group_inv limits g"
  shows "group_inv limits g' \<and> length (gb_quotes g') = Suc (length (gb_quotes g))"
proof -
  from assms(1) obtain u q where "contract_ceiling limits (gb_quotes g) = Inr u"
    and q: "quote_of_row X c row = Inr q" and g': "g' = g\<lparr>gb_quotes := gb_quotes g @ [q]\<rparr>"
    by (auto simp: push_row_def res_simps)
  with contract_ceiling_Inr quote_of_row_typed [OF q] assms(2) show ?thesis
    by (fastforce simp: group_inv_def)
qed

lemma flush_group_inv:
  assumes "flush_group X Z limits t = Inr t'" and "builder_inv Z limits n t"
  shows "builder_inv Z limits n t' \<and> tb_current t' = None \<and> tb_prev_step t' = tb_prev_step t"
proof (cases "tb_current t")
  case None
  with assms show ?thesis by (simp add: flush_group_def)
next
  case (Some g)
  let ?t = "t\<lparr>tb_current := None\<rparr>"
  from assms(1) Some obtain snap tape total_bytes anchor where
    snap: "group_finish X g anchor = Inr snap"
    and push: "push_checked Z limits snap (tb_tape t, tb_total t) = Inr (tape, total_bytes)"
    and t': "t' = ?t\<lparr>tb_tape := tape, tb_total := total_bytes, tb_anchor := Some anchor\<rparr>"
    by (auto simp: flush_group_def push_snapshot_def res_simps Let_def)
  have g: "group_inv limits g" and tape: "bounded_tape Z limits (tb_tape t) (tb_total t)"
    using assms(2) Some by (auto simp: builder_inv_def)
  have "wf_snapshot snap \<and> length (cs_quotes snap) = length (gb_quotes g)"
    using conversion_wf [OF snap [unfolded group_finish_def]] g
    by (simp add: typed_meta_def group_inv_def)
  with push_checked_bounded [OF push tape] push_checked_Inr [OF push] g assms(2) Some show ?thesis
    by (auto simp: t' builder_inv_def group_inv_def quotes_so_far_def)
qed

lemma enter_group_inv:
  assumes "enter_group X Z limits c row step_raw t = Inr t'" and "builder_inv Z limits n t"
    and "\<forall>v. Some v \<in> set (co_ts c) \<longrightarrow> fits I64 v" and "0 \<le> rl_max_contracts_per_snapshot limits"
  shows "builder_inv Z limits n t'"
proof (cases "case tb_current t of Some g \<Rightarrow> gb_step_raw g \<noteq> step_raw | None \<Rightarrow> True")
  case False
  with assms(1,2) show ?thesis by (simp add: enter_group_def)
next
  case True
  with assms(1) obtain t1 g where t1: "flush_group X Z limits t = Inr t1"
    and g: "group_start c row step_raw = Inr g"
    and t': "t' = t1\<lparr>tb_prev_step := Some step_raw, tb_current := Some g\<rparr>"
    by (auto simp: enter_group_def res_simps)
  from flush_group_inv [OF t1 assms(2)] group_start_inv [OF g assms(3,4)] show ?thesis
    by (auto simp: t' builder_inv_def quotes_so_far_def)
qed

lemma decode_row_inv:
  assumes "decode_row X Z limits c row t = Inr t'" and "builder_inv Z limits n t"
    and "\<forall>v. Some v \<in> set (co_ts c) \<longrightarrow> fits I64 v" and "0 \<le> rl_max_contracts_per_snapshot limits"
  shows "builder_inv Z limits (Suc n) t'"
proof -
  from assms(1) obtain step_raw t1 g g' where t1: "enter_group X Z limits c row step_raw t = Inr t1"
    and g: "tb_current t1 = Some g" "push_row X limits c row g = Inr g'"
    and t': "t' = t1\<lparr>tb_current := Some g'\<rparr>"
    by (auto simp: decode_row_def res_simps)
  from enter_group_inv [OF t1 assms(2-4)] g(1) push_row_inv [OF g(2)] show ?thesis
    by (auto simp: t' builder_inv_def quotes_so_far_def)
qed

lemma decode_rows_inv:
  assumes "fold_res (decode_row X Z limits c) rows t = Inr t'" and "builder_inv Z limits n t"
    and "\<forall>v. Some v \<in> set (co_ts c) \<longrightarrow> fits I64 v" and "0 \<le> rl_max_contracts_per_snapshot limits"
  shows "builder_inv Z limits (n + length rows) t'"
  using assms(1,2)
proof (induction rows arbitrary: t n)
  case (Cons row rows)
  from Cons.prems(1) obtain t1 where "decode_row X Z limits c row t = Inr t1"
    and "fold_res (decode_row X Z limits c) rows t1 = Inr t'" by (auto simp: res_simps)
  with Cons.IH decode_row_inv [OF _ Cons.prems(2) assms(3,4)] show ?case by fastforce
qed simp

lemma columns_new_typed:
  assumes "columns_new b = Inr c" and "typed_batch b"
  shows "(\<forall>v. Some v \<in> set (co_ts c) \<longrightarrow> fits I64 v) \<and> co_len c = rb_rows b"
proof -
  from assms(1) obtain xs where ts: "downcast as_i64 b ''ts'' = Inr xs" and "co_ts c = xs" "co_len c = rb_rows b"
    by (auto simp: columns_new_def res_simps)
  moreover from ts have "map_of (rb_columns b) ''ts'' = Some (Int64Array xs)"
    by (auto simp: downcast_def res_simps elim!: as_i64.elims)
  then have "typed_array (Int64Array xs)"
    using assms(2) by (fastforce simp: typed_batch_def dest: map_of_SomeD)
  ultimately show ?thesis by simp
qed

lemma decode_batch_inv:
  assumes "decode_batch X Z limits item t = Inr t'" and "builder_inv Z limits n t"
    and "typed_item item" and "0 \<le> rl_max_contracts_per_snapshot limits"
  shows "builder_inv Z limits (n + item_rows item) t'"
proof -
  from assms(1) obtain b decoded c where item: "item = Done b" and c: "columns_new b = Inr c"
    and rows: "fold_res (decode_row X Z limits c) [0..<co_len c] (t\<lparr>tb_decoded := decoded\<rparr>) = Inr t'"
    by (auto simp: decode_batch_def guarded_call_def guard_parquet_def res_simps
        split: guarded.splits if_splits)
  have "builder_inv Z limits n (t\<lparr>tb_decoded := decoded\<rparr>)"
    using assms(2) by (simp add: builder_inv_def quotes_so_far_def)
  with decode_rows_inv [OF rows _ _ assms(4)] columns_new_typed [OF c] assms(3) show ?thesis
    by (simp add: item)
qed

lemma decode_batches_inv:
  assumes "fold_res (decode_batch X Z limits) items t = Inr t'" and "builder_inv Z limits n t"
    and "\<forall>item \<in> set items. typed_item item" and "0 \<le> rl_max_contracts_per_snapshot limits"
  shows "builder_inv Z limits (n + sum_list (map item_rows items)) t'"
  using assms(1-3)
proof (induction items arbitrary: t n)
  case (Cons item items)
  from Cons.prems(1) obtain t1 where "decode_batch X Z limits item t = Inr t1"
    and rest: "fold_res (decode_batch X Z limits) items t1 = Inr t'" by (auto simp: res_simps)
  then have "builder_inv Z limits (n + item_rows item) t1"
    using Cons.prems(2,3) assms(4) by (auto intro: decode_batch_inv)
  from Cons.IH [OF rest this] Cons.prems(3) show ?case by (simp add: add.assoc)
qed simp

text \<open>The decoded bytes are added up over the batches and checked after each.\<close>

lemma flush_group_decoded: "flush_group X Z limits t = Inr t' \<Longrightarrow> tb_decoded t' = tb_decoded t"
  by (auto simp: flush_group_def push_snapshot_def res_simps Let_def split: option.splits)

lemma decode_rows_decoded:
  "fold_res (decode_row X Z limits c) rows t = Inr t' \<Longrightarrow> tb_decoded t' = tb_decoded t"
proof (induction rows arbitrary: t)
  case (Cons row rows)
  from Cons.prems obtain t1 where t1: "decode_row X Z limits c row t = Inr t1"
    and rest: "fold_res (decode_row X Z limits c) rows t1 = Inr t'" by (auto simp: res_simps)
  have "tb_decoded t1 = tb_decoded t"
    using t1 by (auto simp: decode_row_def enter_group_def res_simps Let_def dest: flush_group_decoded split: if_splits)
  with Cons.IH [OF rest] show ?case by simp
qed simp

lemma decode_batches_decoded:
  assumes "fold_res (decode_batch X Z limits) items t = Inr t'"
  shows "tb_decoded t' = tb_decoded t + sum_list (map item_bytes items) \<and>
    (items \<noteq> [] \<longrightarrow> tb_decoded t' \<le> rl_max_decompressed_bytes limits)"
  using assms
proof (induction items arbitrary: t)
  case (Cons item items)
  from Cons.prems obtain t1 where t1: "decode_batch X Z limits item t = Inr t1"
    and rest: "fold_res (decode_batch X Z limits) items t1 = Inr t'" by (auto simp: res_simps)
  from t1 have "tb_decoded t1 = tb_decoded t + item_bytes item \<and> tb_decoded t1 \<le> rl_max_decompressed_bytes limits"
    by (auto simp: decode_batch_def guarded_call_def guard_parquet_def res_simps checked_add_def
        dest!: decode_rows_decoded split: guarded.splits if_splits)
  with Cons.IH [OF rest] show ?case by (cases items) (use rest in auto)
qed simp

lemma read_tape_decoded:
  assumes "read_tape X Z limits items = Inr tape" and "tape \<noteq> []"
  shows "sum_list (map item_bytes items) \<le> rl_max_decompressed_bytes limits"
proof -
  from assms(1) obtain t where t: "fold_res (decode_batch X Z limits) items tape_builder_new = Inr t"
    by (auto simp: read_tape_def res_simps)
  have "items \<noteq> []"
    using assms by (auto simp: read_tape_def tape_builder_new_def flush_group_def)
  with decode_batches_decoded [OF t] show ?thesis by (simp add: tape_builder_new_def)
qed

lemma declared_bytes:
  "fold_res check_row_group groups declared = Inr total_bytes \<Longrightarrow>
     (\<forall>g \<in> set groups. 0 \<le> rg_byte_size g) \<and> total_bytes = declared + sum_list (map rg_byte_size groups)"
proof (induction groups arbitrary: declared)
  case (Cons g groups)
  from Cons.prems obtain d where d: "check_row_group g declared = Inr d"
    and rest: "fold_res check_row_group groups d = Inr total_bytes" by (auto simp: res_simps)
  have "0 \<le> rg_byte_size g \<and> d = declared + rg_byte_size g"
    using d by (auto simp: check_row_group_def res_simps checked_add_def width_simps split: if_splits)
  with Cons.IH [OF rest] show ?case by simp
qed simp

lemma read_tape_inv:
  assumes "read_tape X Z limits items = Inr tape"
    and "\<forall>item \<in> set items. typed_item item" and "0 \<le> rl_max_contracts_per_snapshot limits"
  obtains total_bytes where "bounded_tape Z limits tape total_bytes"
    and "sum_list (map (length \<circ> cs_quotes) tape) = sum_list (map item_rows items)"
proof -
  from assms(1) obtain t t' where t: "fold_res (decode_batch X Z limits) items tape_builder_new = Inr t"
    and t': "flush_group X Z limits t = Inr t'" and tape: "tape = tb_tape t'"
    by (auto simp: read_tape_def res_simps)
  have "builder_inv Z limits 0 tape_builder_new"
    by (simp add: builder_inv_def tape_builder_new_def quotes_so_far_def)
  from decode_batches_inv [OF t this assms(2,3)] flush_group_inv [OF t'] show thesis
    by (intro that) (auto simp: tape builder_inv_def quotes_so_far_def)
qed

lemma parquet_open_Inr:
  assumes "parquet_open X Z S limits src = Inr feed"
  obtains tape meta sha where "read_tape X Z limits (pq_batches src) = Inr tape"
    and "tape_meta_from_tape sha tape = Inr meta"
    and "feed = \<lparr>pf_tape = \<lparr>pt_snapshots = tape, pt_meta = meta, pt_path = pq_path src, pt_sha256 = sha\<rparr>,
          pf_cursor = 0\<rparr>"
    and "hash_reader S (pq_reads src) (rl_max_file_bytes limits) = Inr sha"
    and "\<exists>len. pq_handle src = Inr (True, len) \<and> len \<le> rl_max_file_bytes limits"
    and "\<exists>groups schema declared. pq_metadata src = Done (groups, schema) \<and>
      fold_res check_row_group groups 0 = Inr declared \<and> declared \<le> rl_max_decompressed_bytes limits"
proof -
  from assms obtain groups schema declared tape meta sha len where
    "read_tape X Z limits (pq_batches src) = Inr tape" "tape_meta_from_tape sha tape = Inr meta"
    "feed = \<lparr>pf_tape = \<lparr>pt_snapshots = tape, pt_meta = meta, pt_path = pq_path src, pt_sha256 = sha\<rparr>, pf_cursor = 0\<rparr>"
    "hash_reader S (pq_reads src) (rl_max_file_bytes limits) = Inr sha"
    and len: "pq_handle src = Inr (True, len)" "len \<le> rl_max_file_bytes limits"
    and groups: "guarded_call ''metadata read''
      ''failed to read parquet metadata (truncated or corrupt footer)'' (pq_metadata src) = Inr (groups, schema)"
      "fold_res check_row_group groups 0 = Inr declared" "declared \<le> rl_max_decompressed_bytes limits"
    by (auto simp: parquet_open_def res_simps split: if_splits)
  moreover have "pq_metadata src = Done (groups, schema)"
    using groups(1) by (auto simp: guarded_call_def guard_parquet_def res_simps split: guarded.splits)
  ultimately show thesis by (intro that) auto
qed

text \<open>
  C28. What opening a Parquet file promises: if it succeeds, the tape is not empty, its snapshots
  are well formed with strictly increasing timestamps and steps 0, 1, 2 and so on, it is
  within each of the five ceilings of the configured limits (contracts in a snapshot, steps, bytes
  of the file, bytes of its row groups both as declared and as decoded, bytes of the tape in memory), the identity recorded with it is the hash of
  the bytes read, and no row is lost: the tape has as many quotes as the file has rows.
\<close>

theorem parquet_open_valid:
  assumes "parquet_open X Z S limits src = Inr feed"
    and "\<forall>item \<in> set (pq_batches src). typed_item item" and "0 \<le> rl_max_contracts_per_snapshot limits"
  shows "let tape = pt_snapshots (pf_tape feed) in
    tape \<noteq> [] \<and> sorted_wrt (<) (map cs_ts tape) \<and> map cs_step tape = map int [0..<length tape] \<and>
    (\<forall>s \<in> set tape. wf_snapshot s \<and> int (length (cs_quotes s)) \<le> rl_max_contracts_per_snapshot limits) \<and>
    int (length tape) \<le> rl_max_steps limits \<and>
    (\<exists>len. pq_handle src = Inr (True, len) \<and> len \<le> rl_max_file_bytes limits) \<and>
    (\<exists>groups schema. pq_metadata src = Done (groups, schema) \<and> (\<forall>g \<in> set groups. 0 \<le> rg_byte_size g) \<and>
       sum_list (map rg_byte_size groups) \<le> rl_max_decompressed_bytes limits) \<and>
    sum_list (map item_bytes (pq_batches src)) \<le> rl_max_decompressed_bytes limits \<and>
    sum_list (map (snapshot_bytes Z) tape) \<le> rl_max_total_bytes limits \<and>
    sum_list (map (length \<circ> cs_quotes) tape) = sum_list (map item_rows (pq_batches src)) \<and>
    hash_reader S (pq_reads src) (rl_max_file_bytes limits) = Inr (pt_sha256 (pf_tape feed)) \<and>
    tm_data_identity (pt_meta (pf_tape feed)) = pt_sha256 (pf_tape feed)"
proof (rule parquet_open_Inr [OF assms(1)])
  fix tape meta sha
  assume tape: "read_tape X Z limits (pq_batches src) = Inr tape"
    and meta: "tape_meta_from_tape sha tape = Inr meta"
    and feed: "feed = \<lparr>pf_tape = \<lparr>pt_snapshots = tape, pt_meta = meta, pt_path = pq_path src, pt_sha256 = sha\<rparr>,
          pf_cursor = 0\<rparr>" and "hash_reader S (pq_reads src) (rl_max_file_bytes limits) = Inr sha"
      "\<exists>len. pq_handle src = Inr (True, len) \<and> len \<le> rl_max_file_bytes limits"
    and groups: "\<exists>groups schema declared. pq_metadata src = Done (groups, schema) \<and>
      fold_res check_row_group groups 0 = Inr declared \<and> declared \<le> rl_max_decompressed_bytes limits"
  moreover have "tape \<noteq> []" using meta [unfolded tape_meta_Inr_iff] by simp
  moreover from groups declared_bytes have "\<exists>groups schema. pq_metadata src = Done (groups, schema) \<and>
      (\<forall>g \<in> set groups. 0 \<le> rg_byte_size g) \<and> sum_list (map rg_byte_size groups) \<le> rl_max_decompressed_bytes limits"
    by (metis add_0)
  moreover note read_tape_decoded [OF tape]
  moreover from read_tape_inv [OF tape assms(2,3)] obtain total_bytes where
    "bounded_tape Z limits tape total_bytes"
    "sum_list (map (length \<circ> cs_quotes) tape) = sum_list (map item_rows (pq_batches src))" .
  ultimately show ?thesis
    using meta [unfolded tape_meta_Inr_iff] by (auto simp: bounded_tape_def Let_def)
qed

section \<open>A sample file\<close>

definition sample_sha :: "nat sha_api" where
  "sample_sha = \<lparr>sha_new = 0, sha_update = (\<lambda>bytes h. h + sum_list bytes), sha_final = (\<lambda>h. [h mod 256])\<rparr>"

definition sample_layout :: layout where
  "sample_layout = \<lparr>sz_contract_key = 96, sz_quote_view = 160, sz_snapshot = 200\<rparr>"

text \<open>Two steps: two contracts at step 0, one at step 1.\<close>

definition sample_batch :: record_batch where
  "sample_batch = \<lparr>rb_columns =
     [(''step'', Int32Array [Some 0, Some 0, Some 1]),
      (''ts'', Int64Array [Some 10, Some 10, Some 20]),
      (''underlying'', StringArray [Some ''SPX'', Some ''SPX'', Some ''SPX'']),
      (''underlying_price'', Int64Array [Some 10000, Some 10000, Some 10100]),
      (''tick_size'', Int64Array [Some 5, Some 5, Some 5]),
      (''contract_multiplier'', Int32Array [Some 100, Some 100, Some 100]),
      (''expiration'', Int64Array [Some 1000, Some 1000, Some 1000]),
      (''strike'', Int64Array [Some 9000, Some 11000, Some 9000]),
      (''style'', StringArray [Some ''put'', Some ''Call'', Some ''put'']),
      (''bid'', Int64Array [Some 95, Some 100, Some 90]),
      (''ask'', Int64Array [Some 105, Some 110, Some 100]),
      (''bid_size'', Int32Array [Some 10, Some 10, Some 10]),
      (''ask_size'', Int32Array [Some 10, Some 10, Some 10]),
      (''implied_volatility'', Float64Array [Some (Finite (1/4)), Some (Finite (1/4)), Some (Finite (1/4))]),
      (''delta'', Float64Array [None, None, None]),
      (''gamma'', Float64Array [None, None, None]),
      (''theta'', Float64Array [None, None, None]),
      (''vega'', Float64Array [None, None, None])],
     rb_rows = 3, rb_bytes = 400\<rparr>"

definition sample_source :: parquet_source where
  "sample_source = \<lparr>pq_path = ''tape.parquet'', pq_path_is_file = Inr True, pq_open = Inr (),
     pq_handle = Inr (True, 500), pq_reads = [Inr [80, 65, 82, 49], Inr []], pq_rewind = Inr (),
     pq_metadata = Done ([\<lparr>rg_columns = [(100, 4, None)], rg_byte_size = 400\<rparr>], expected_schema),
     pq_reader = Done (), pq_batches = [Done sample_batch]\<rparr>"

definition sample_open :: "parquet_feed res" where
  "sample_open = parquet_open exact_ext sample_layout sample_sha default_resource_limits sample_source"

lemma sample_open_ok: "\<not> isl sample_open"
  by code_simp

theorem parquet_open_valid_witness:
  "let tape = pt_snapshots (pf_tape (projr sample_open)) in
     sorted_wrt (<) (map cs_ts tape) \<and> sum_list (map (length \<circ> cs_quotes) tape) = 3"
proof -
  have "parquet_open exact_ext sample_layout sample_sha default_resource_limits sample_source
      = Inr (projr sample_open)"
    using sample_open_ok by (simp add: sample_open_def)
  moreover have "\<forall>item \<in> set (pq_batches sample_source). typed_item item"
    by (simp add: sample_source_def sample_batch_def typed_batch_def width_simps)
  moreover have "0 \<le> rl_max_contracts_per_snapshot default_resource_limits"
    by (simp add: default_resource_limits_def)
  ultimately show ?thesis
    using parquet_open_valid [of exact_ext sample_layout sample_sha default_resource_limits sample_source]
    by (simp add: Let_def sample_source_def sample_batch_def)
qed

end
