(* ===== verification/Csv_Tape.thy ===== *)
theory Csv_Tape
  imports Parquet_Tape Integer_Text "HOL-Library.List_Lexorder" "HOL-Library.Multiset"
begin

text \<open>
  Reading a CSV tape (\<open>src/data/historical.rs\<close>): a directory of files, one snapshot per file, in
  the order of their names. The directory listing and the bytes of a file are inputs; what the
  \<open>csv\<close> crate makes of the bytes of a file, a header and records or its error, is a function of
  them. The cells are parsed by the standard library, whose grammars are defined here.
\<close>

section \<open>Parsing a double\<close>

text \<open>\<open>f64::from_str\<close>: an optional sign, then \<open>inf\<close>, \<open>infinity\<close> or \<open>nan\<close> in any case, or decimal
  digits with at most one point and an optional exponent; the result is the nearest double,
  subnormal or infinite where the range of the format demands it.\<close>

definition digits_of :: "string \<Rightarrow> string \<times> string" where
  "digits_of s = (takeWhile is_ascii_digit s, dropWhile is_ascii_digit s)"

definition digits_value :: "string \<Rightarrow> nat" where
  "digits_value ds = (case parse_digits 0 ds of None \<Rightarrow> 0 | Some n \<Rightarrow> n)"

definition parse_exponent :: "string \<Rightarrow> int option" where
  "parse_exponent s =
     (case s of
        [] \<Rightarrow> Some 0
      | c # cs \<Rightarrow>
          if c \<noteq> CHR ''e'' \<and> c \<noteq> CHR ''E'' then None
          else let (negative, ds) = (case cs of
                   [] \<Rightarrow> (False, [])
                 | d # ds \<Rightarrow> if d = CHR ''-'' then (True, ds)
                             else if d = CHR ''+'' then (False, ds) else (False, d # ds));
                   (exponent, rest) = digits_of ds in
               if exponent = [] \<or> rest \<noteq> [] then None
               else Some (if negative then - int (digits_value exponent) else int (digits_value exponent)))"

definition parse_decimal :: "string \<Rightarrow> rat option" where
  "parse_decimal s =
     (let (whole, rest) = digits_of s;
          (fraction, rest) = (case rest of
             [] \<Rightarrow> ([], [])
           | c # cs \<Rightarrow> if c = CHR ''.'' then digits_of cs else ([], c # cs)) in
      if whole = [] \<and> fraction = [] then None
      else map_option (\<lambda>e. of_nat (digits_value (whole @ fraction)) * 10 powi (e - int (length fraction)))
             (parse_exponent rest))"

definition double_of :: "rat \<Rightarrow> double" where
  "double_of x =
     (if x = 0 then Finite 0
      else if f64_exp x < - 1022 then Finite (of_int (round_half_even (x * 2 ^ 1074)) * 2 powi (- 1074))
      else let r = f64_rnd x in if f64_exp r \<le> 1023 then Finite r else NotFinite)"

definition parse_double :: "string \<Rightarrow> double option" where
  "parse_double s =
     (let (negative, rest) = (case s of
            [] \<Rightarrow> (False, [])
          | c # cs \<Rightarrow> if c = CHR ''-'' then (True, cs)
                      else if c = CHR ''+'' then (False, cs) else (False, c # cs)) in
      if \<exists>name \<in> {''inf'', ''infinity'', ''nan''}. eq_ignore_ascii_case rest name then Some NotFinite
      else map_option (\<lambda>x. double_of (if negative then - x else x)) (parse_decimal rest))"

section \<open>What the directory and the csv crate report\<close>

record dir_entry =
  de_name :: string
  de_is_file :: "bool res"
  de_open :: "unit res"
  de_handle :: "(bool \<times> int) res"
  de_bytes :: "nat list res"

text \<open>File names are ordered by their bytes.\<close>

definition name_bytes :: "dir_entry \<Rightarrow> int list" where
  "name_bytes e = map of_char (de_name e)"

record csv_dir =
  cd_path :: string
  cd_is_dir :: "bool res"
  cd_entries :: "dir_entry res list res"

record csv_api =
  csv_headers :: "nat list \<Rightarrow> string + string list"
  csv_records :: "nat list \<Rightarrow> (string + string list) list"

definition csv_decode_err :: "string \<Rightarrow> string \<Rightarrow> backtest_error" where
  "csv_decode_err context error = Data (MsgDecode context error)"

definition csv_decoded :: "string \<Rightarrow> string + 'a \<Rightarrow> 'a res" where
  "csv_decoded context r = (case r of Inl e \<Rightarrow> Inl (csv_decode_err context e) | Inr x \<Rightarrow> Inr x)"

section \<open>Columns and cells\<close>

record csv_columns =
  cc_ts :: nat
  cc_underlying :: nat
  cc_underlying_price :: nat
  cc_tick_size :: nat
  cc_mult :: nat
  cc_expiration :: nat
  cc_strike :: nat
  cc_style :: nat
  cc_bid :: nat
  cc_ask :: nat
  cc_bid_size :: nat
  cc_ask_size :: nat
  cc_iv :: nat
  cc_delta :: "nat option"
  cc_gamma :: "nat option"
  cc_theta :: "nat option"
  cc_vega :: "nat option"

definition header_find :: "string list \<Rightarrow> string \<Rightarrow> nat option" where
  "header_find header name = position_of (\<lambda>h. h = name) header"

definition header_req :: "string list \<Rightarrow> string \<Rightarrow> nat res" where
  "header_req header name = ok_or (header_find header name) (Conversion (MsgFile (MsgHeaderMissing name)))"

definition from_header :: "string list \<Rightarrow> csv_columns res" where
  "from_header h =
     rbind (header_req h ''ts'') (\<lambda>ts.
     rbind (header_req h ''underlying'') (\<lambda>underlying.
     rbind (header_req h ''underlying_price'') (\<lambda>underlying_price.
     rbind (header_req h ''tick_size'') (\<lambda>tick_size.
     rbind (header_req h ''contract_multiplier'') (\<lambda>mult.
     rbind (header_req h ''expiration'') (\<lambda>e.
     rbind (header_req h ''strike'') (\<lambda>strike.
     rbind (header_req h ''style'') (\<lambda>style.
     rbind (header_req h ''bid'') (\<lambda>bid.
     rbind (header_req h ''ask'') (\<lambda>ask.
     rbind (header_req h ''bid_size'') (\<lambda>bid_size.
     rbind (header_req h ''ask_size'') (\<lambda>ask_size.
     rbind (header_req h ''implied_volatility'') (\<lambda>iv.
     Inr \<lparr>cc_ts = ts, cc_underlying = underlying, cc_underlying_price = underlying_price,
          cc_tick_size = tick_size, cc_mult = mult, cc_expiration = e, cc_strike = strike,
          cc_style = style, cc_bid = bid, cc_ask = ask, cc_bid_size = bid_size, cc_ask_size = ask_size,
          cc_iv = iv, cc_delta = header_find h ''delta'', cc_gamma = header_find h ''gamma'',
          cc_theta = header_find h ''theta'', cc_vega = header_find h ''vega''\<rparr>)))))))))))))"

definition record_get :: "string list \<Rightarrow> nat \<Rightarrow> string option" where
  "record_get record i = (if i < length record then Some (record ! i) else None)"

definition req_cell :: "string list \<Rightarrow> nat \<Rightarrow> string \<Rightarrow> string res" where
  "req_cell record i column = ok_or (record_get record i) (Conversion (MsgFile (MsgRowMissing column)))"

definition parse_i64 :: "string \<Rightarrow> string \<Rightarrow> int res" where
  "parse_i64 c column = ok_or (parse_int I64 c) (Conversion (MsgFile (MsgBadInt column c)))"

definition parse_u32 :: "string \<Rightarrow> string \<Rightarrow> int res" where
  "parse_u32 c column = ok_or (parse_int U32 c) (Conversion (MsgFile (MsgBadCount column c)))"

definition parse_cents :: "string \<Rightarrow> string \<Rightarrow> price_cents res" where
  "parse_cents c column = ok_or (parse_int U64 c) (Conversion (MsgFile (MsgBadCents column c)))"

definition parse_f64 :: "string \<Rightarrow> string \<Rightarrow> double res" where
  "parse_f64 c column = ok_or (parse_double c) (Conversion (MsgFile (MsgBadNumber column c)))"

definition opt_greek :: "string list \<Rightarrow> nat option \<Rightarrow> string \<Rightarrow> double res" where
  "opt_greek record index column =
     (case Option.bind index (record_get record) of
        None \<Rightarrow> Inr (Finite 0)
      | Some c \<Rightarrow> if c = [] then Inr (Finite 0) else parse_f64 c column)"

text \<open>A required cell, parsed.\<close>

definition cents_cell :: "string list \<Rightarrow> nat \<Rightarrow> string \<Rightarrow> price_cents res" where
  "cents_cell record i column = rbind (req_cell record i column) (\<lambda>c. parse_cents c column)"

definition count_cell :: "string list \<Rightarrow> nat \<Rightarrow> string \<Rightarrow> int res" where
  "count_cell record i column = rbind (req_cell record i column) (\<lambda>c. parse_u32 c column)"

definition int_cell :: "string list \<Rightarrow> nat \<Rightarrow> string \<Rightarrow> int res" where
  "int_cell record i column = rbind (req_cell record i column) (\<lambda>c. parse_i64 c column)"

section \<open>One file\<close>

record snapshot_head =
  sh_ts :: int
  sh_underlying :: underlying
  sh_underlying_price :: price_cents
  sh_tick :: price_cents
  sh_mult :: int

definition csv_head :: "csv_columns \<Rightarrow> string list \<Rightarrow> snapshot_head res" where
  "csv_head cols record =
     rbind (int_cell record (cc_ts cols) ''ts'') (\<lambda>ts.
     rbind (rbind (req_cell record (cc_underlying cols) ''underlying'') underlying_new) (\<lambda>u.
     rbind (cents_cell record (cc_underlying_price cols) ''underlying_price'') (\<lambda>price.
     rbind (cents_cell record (cc_tick_size cols) ''tick_size'') (\<lambda>tick.
     rbind (count_cell record (cc_mult cols) ''contract_multiplier'') (\<lambda>mult.
     Inr \<lparr>sh_ts = ts, sh_underlying = u, sh_underlying_price = price, sh_tick = tick, sh_mult = mult\<rparr>)))))"

definition same_head :: "int \<Rightarrow> snapshot_head \<Rightarrow> snapshot_head \<Rightarrow> unit res" where
  "same_head step h h0 =
     rbind (ensure_const ''ts'' step (ShownInt (sh_ts h)) (ShownInt (sh_ts h0))) (\<lambda>_.
     rbind (ensure_const ''underlying'' step (ShownText (sh_underlying h)) (ShownText (sh_underlying h0))) (\<lambda>_.
     rbind (ensure_const ''underlying_price'' step (ShownInt (sh_underlying_price h)) (ShownInt (sh_underlying_price h0))) (\<lambda>_.
     rbind (ensure_const ''tick_size'' step (ShownInt (sh_tick h)) (ShownInt (sh_tick h0))) (\<lambda>_.
     ensure_const ''contract_multiplier'' step (ShownInt (sh_mult h)) (ShownInt (sh_mult h0))))))"

definition csv_quote :: "ext \<Rightarrow> csv_columns \<Rightarrow> string list \<Rightarrow> raw_quote res" where
  "csv_quote X cols record =
     rbind (int_cell record (cc_expiration cols) ''expiration'') (\<lambda>expiration_ns.
     rbind (cents_cell record (cc_strike cols) ''strike'') (\<lambda>strike.
     rbind (rbind (req_cell record (cc_style cols) ''style'') parse_style) (\<lambda>style.
     rbind (cents_cell record (cc_bid cols) ''bid'') (\<lambda>bid.
     rbind (cents_cell record (cc_ask cols) ''ask'') (\<lambda>ask.
     rbind (rbind (count_cell record (cc_bid_size cols) ''bid_size'') quantity_new) (\<lambda>bid_size.
     rbind (rbind (count_cell record (cc_ask_size cols) ''ask_size'') quantity_new) (\<lambda>ask_size.
     rbind (rbind (req_cell record (cc_iv cols) ''implied_volatility'')
              (\<lambda>c. parse_f64 c ''implied_volatility'')) (\<lambda>iv.
     rbind (opt_greek record (cc_delta cols) ''delta'') (\<lambda>delta.
     rbind (opt_greek record (cc_gamma cols) ''gamma'') (\<lambda>gamma.
     rbind (opt_greek record (cc_theta cols) ''theta'') (\<lambda>theta.
     rbind (opt_greek record (cc_vega cols) ''vega'') (\<lambda>vega.
     Inr \<lparr>rq_expiration = DateTime (dt_from_nanos X expiration_ns), rq_strike = strike,
          rq_style = style, rq_bid = bid, rq_ask = ask, rq_bid_size = bid_size,
          rq_ask_size = ask_size, rq_iv = iv, rq_delta = delta, rq_gamma = gamma,
          rq_theta = theta, rq_vega = vega\<rparr>))))))))))))"

definition csv_row ::
    "ext \<Rightarrow> resource_limits \<Rightarrow> csv_columns \<Rightarrow> int \<Rightarrow> string + string list
      \<Rightarrow> snapshot_head option \<times> raw_quote list \<Rightarrow> (snapshot_head option \<times> raw_quote list) res" where
  "csv_row X limits cols step item = (\<lambda>(head_fields, quotes).
     rbind (csv_decoded ''csv record'' item) (\<lambda>record.
     rbind (csv_head cols record) (\<lambda>h.
     rbind (case head_fields of Some h0 \<Rightarrow> rbind (same_head step h h0) (\<lambda>_. Inr h0) | None \<Rightarrow> Inr h) (\<lambda>h0.
     rbind (contract_ceiling limits quotes) (\<lambda>_.
     rbind (csv_quote X cols record) (\<lambda>q.
     Inr (Some h0, quotes @ [q])))))))"

definition parse_csv_snapshot ::
    "ext \<Rightarrow> csv_api \<Rightarrow> resource_limits \<Rightarrow> nat list \<Rightarrow> int \<Rightarrow> (snapshot_head \<times> raw_quote list) res" where
  "parse_csv_snapshot X R limits bytes step =
     rbind (csv_decoded ''csv header'' (csv_headers R bytes)) (\<lambda>header.
     rbind (from_header header) (\<lambda>cols.
     rbind (fold_res (csv_row X limits cols step) (csv_records R bytes) (None, [])) (\<lambda>(head_fields, quotes).
     rbind (ok_or head_fields (Conversion (MsgFile (MsgNoRows step)))) (\<lambda>h.
     Inr (h, quotes)))))"

section \<open>The directory\<close>

definition scan_entry ::
    "resource_limits \<Rightarrow> dir_entry res \<Rightarrow> dir_entry list \<Rightarrow> dir_entry list res" where
  "scan_entry limits entry files =
     rbind entry (\<lambda>e.
     rbind (de_is_file e) (\<lambda>is_file.
     if \<not> is_file then Inl (Conversion (MsgFile (MsgNonFileEntry (de_name e))))
     else let files = files @ [e] in
          rbind (checked (try_into U64 (int (length files)))) (\<lambda>n.
          if n > rl_max_steps limits then Inl (TapeTooLarge ''max_steps'' n (rl_max_steps limits))
          else Inr files)))"

record 'h csv_state =
  ct_tape :: "chain_snapshot list"
  ct_anchor :: "int option"
  ct_total :: int
  ct_decoded :: int
  ct_hash :: 'h

definition hash_file :: "'h sha_api \<Rightarrow> (nat list \<Rightarrow> nat list) \<Rightarrow> string \<Rightarrow> nat list \<Rightarrow> 'h \<Rightarrow> 'h" where
  "hash_file S digest name bytes h =
     sha_update S (map of_char (to_hex (digest bytes)))
       (sha_update S [0] (sha_update S (map of_char name) h))"

definition read_file ::
    "ext \<Rightarrow> layout \<Rightarrow> 'h sha_api \<Rightarrow> csv_api \<Rightarrow> resource_limits \<Rightarrow> nat \<times> dir_entry \<Rightarrow> 'h csv_state
      \<Rightarrow> 'h csv_state res" where
  "read_file X Z S R limits = (\<lambda>(index, file) t.
     rbind (checked (try_into U32 (int index))) (\<lambda>step.
     rbind (de_open file) (\<lambda>_.
     rbind (de_handle file) (\<lambda>(is_file, file_len).
     if \<not> is_file then Inl (Conversion (MsgFile (MsgEntryNotRegular (de_name file))))
     else if file_len > rl_max_file_bytes limits
     then Inl (TapeTooLarge ''max_file_bytes'' file_len (rl_max_file_bytes limits))
     else rbind (checked (checked_add U64 (ct_decoded t) file_len)) (\<lambda>decoded.
     if decoded > rl_max_decompressed_bytes limits
     then Inl (TapeTooLarge ''max_decompressed_bytes'' decoded (rl_max_decompressed_bytes limits))
     else rbind (checked (try_into Usize file_len)) (\<lambda>_.
     rbind (de_bytes file) (\<lambda>content.
     let bytes = bounded_read (rl_max_file_bytes limits) content;
         h = hash_file S (\<lambda>b. sha_final S (sha_update S b (sha_new S))) (de_name file) bytes (ct_hash t) in
     rbind (parse_csv_snapshot X R limits bytes step) (\<lambda>(hd0, quotes).
     let anchor = unwrap_or (sh_ts hd0) (ct_anchor t) in
     rbind (raw_quotes_to_snapshot X
              \<lparr>sm_ts = sh_ts hd0, sm_step = step, sm_anchor_ts = anchor,
               sm_underlying = sh_underlying hd0, sm_underlying_price = sh_underlying_price hd0,
               sm_tick = sh_tick hd0, sm_mult = sh_mult hd0\<rparr> quotes) (\<lambda>snapshot.
     rbind (push_checked Z limits snapshot (ct_tape t, ct_total t)) (\<lambda>(tape, total_bytes).
     Inr \<lparr>ct_tape = tape, ct_anchor = Some anchor, ct_total = total_bytes, ct_decoded = decoded,
          ct_hash = h\<rparr>))))))))))"

definition read_files ::
    "ext \<Rightarrow> layout \<Rightarrow> 'h sha_api \<Rightarrow> csv_api \<Rightarrow> resource_limits \<Rightarrow> dir_entry list \<Rightarrow> 'h csv_state res" where
  "read_files X Z S R limits files =
     fold_res (read_file X Z S R limits) (enumerate 0 files)
       \<lparr>ct_tape = [], ct_anchor = None, ct_total = 0, ct_decoded = 0, ct_hash = sha_new S\<rparr>"

definition csv_open ::
    "ext \<Rightarrow> layout \<Rightarrow> 'h sha_api \<Rightarrow> csv_api \<Rightarrow> resource_limits \<Rightarrow> csv_dir \<Rightarrow> csv_feed res" where
  "csv_open X Z S R limits dir =
     rbind (cd_is_dir dir) (\<lambda>is_dir.
     if \<not> is_dir then Inl (Conversion (MsgFile (MsgNotDirectory (cd_path dir))))
     else rbind (cd_entries dir) (\<lambda>entries.
     rbind (fold_res (scan_entry limits) entries []) (\<lambda>files.
     rbind (read_files X Z S R limits (sort_key name_bytes files)) (\<lambda>t.
     let sha256 = to_hex (sha_final S (ct_hash t)) in
     rbind (tape_meta_from_tape sha256 (ct_tape t)) (\<lambda>meta.
     Inr \<lparr>cv_tape = ct_tape t, cv_cursor = 0, cv_meta = meta, cv_path = cd_path dir,
          cv_sha256 = sha256\<rparr>)))))"

section \<open>One file, one snapshot\<close>

text \<open>The files of a directory in replay order, and the records of a file.\<close>

definition file_bytes :: "resource_limits \<Rightarrow> dir_entry \<Rightarrow> nat list" where
  "file_bytes limits file =
     (case de_bytes file of Inl _ \<Rightarrow> [] | Inr content \<Rightarrow> bounded_read (rl_max_file_bytes limits) content)"

definition file_rows :: "csv_api \<Rightarrow> resource_limits \<Rightarrow> dir_entry \<Rightarrow> nat" where
  "file_rows R limits file = length (csv_records R (file_bytes limits file))"

text \<open>The length of a file, as its open handle reports it.\<close>

definition file_len :: "dir_entry \<Rightarrow> int" where
  "file_len file = (case de_handle file of Inl _ \<Rightarrow> 0 | Inr (_, len) \<Rightarrow> len)"

definition typed_head :: "snapshot_head \<Rightarrow> bool" where
  "typed_head h \<longleftrightarrow> fits I64 (sh_ts h) \<and> is_price (sh_underlying_price h) \<and> is_price (sh_tick h) \<and>
     fits U32 (sh_mult h)"

lemma parse_int_fits: "parse_int w s = Some n \<Longrightarrow> fits w n"
  by (auto simp: parse_int_def res_simps bind_eq_Some_conv split: list.splits if_splits)

lemma parsed_cells:
  "cents_cell record i column = Inr p \<Longrightarrow> is_price p"
  "count_cell record i column = Inr n \<Longrightarrow> fits U32 n"
  "int_cell record i column = Inr z \<Longrightarrow> fits I64 z"
  by (auto simp: cents_cell_def count_cell_def int_cell_def parse_cents_def parse_u32_def
      parse_i64_def is_price_def res_simps dest: parse_int_fits)

lemma csv_head_typed: "csv_head cols record = Inr h \<Longrightarrow> typed_head h"
  by (auto simp: csv_head_def typed_head_def res_simps dest: parsed_cells)

lemma csv_quote_typed: "csv_quote X cols record = Inr q \<Longrightarrow> typed_raw q"
  by (auto simp: csv_quote_def typed_raw_def res_simps dest!: parsed_cells intro: quantity_new_typed)

definition rows_inv :: "resource_limits \<Rightarrow> nat \<Rightarrow> snapshot_head option \<times> raw_quote list \<Rightarrow> bool" where
  "rows_inv limits n = (\<lambda>(h, quotes). length quotes = n \<and> (\<forall>q \<in> set quotes. typed_raw q) \<and>
     (\<forall>h0. h = Some h0 \<longrightarrow> typed_head h0 \<and> int n \<le> rl_max_contracts_per_snapshot limits))"

lemma csv_row_inv:
  assumes "csv_row X limits cols step item t = Inr t'" and "rows_inv limits n t"
  shows "rows_inv limits (Suc n) t'"
proof -
  obtain head_fields quotes where t: "t = (head_fields, quotes)" by fastforce
  from assms(1) obtain r h h0 u q where h: "csv_head cols r = Inr h"
    and h0: "(case head_fields of Some h0 \<Rightarrow> rbind (same_head step h h0) (\<lambda>_. Inr h0) | None \<Rightarrow> Inr h) = Inr h0"
    and ceiling: "contract_ceiling limits quotes = Inr u"
    and q: "csv_quote X cols r = Inr q" and t': "t' = (Some h0, quotes @ [q])"
    by (auto simp: csv_row_def t res_simps)
  have "typed_head h0"
    using h0 assms(2) csv_head_typed [OF h] by (auto simp: t rows_inv_def res_simps split: option.splits)
  with contract_ceiling_Inr [OF ceiling] csv_quote_typed [OF q] assms(2) show ?thesis
    by (auto simp: t t' rows_inv_def)
qed

lemma csv_rows_inv:
  assumes "fold_res (csv_row X limits cols step) items t = Inr t'" and "rows_inv limits n t"
  shows "rows_inv limits (n + length items) t'"
  using assms
proof (induction items arbitrary: t n)
  case (Cons item items)
  from Cons.prems(1) obtain t1 where t1: "csv_row X limits cols step item t = Inr t1"
    and rest: "fold_res (csv_row X limits cols step) items t1 = Inr t'" by (auto simp: res_simps)
  from Cons.IH [OF rest csv_row_inv [OF t1 Cons.prems(2)]] show ?case by simp
qed simp

lemma parse_csv_snapshot_Inr:
  assumes "parse_csv_snapshot X R limits bytes step = Inr (h, quotes)"
  shows "typed_head h \<and> (\<forall>q \<in> set quotes. typed_raw q) \<and> length quotes = length (csv_records R bytes) \<and>
    int (length quotes) \<le> rl_max_contracts_per_snapshot limits"
proof -
  from assms obtain cols where rows: "fold_res (csv_row X limits cols step) (csv_records R bytes) (None, [])
      = Inr (Some h, quotes)"
    by (auto simp: parse_csv_snapshot_def res_simps)
  have "rows_inv limits 0 (None, [])" by (simp add: rows_inv_def)
  from csv_rows_inv [OF rows this] show ?thesis by (simp add: rows_inv_def)
qed

section \<open>The whole directory\<close>

text \<open>After the files read so far: one snapshot each, none above a ceiling, and their lengths added up.\<close>

definition csv_inv :: "layout \<Rightarrow> csv_api \<Rightarrow> resource_limits \<Rightarrow> dir_entry list \<Rightarrow> 'h csv_state \<Rightarrow> bool" where
  "csv_inv Z R limits files t \<longleftrightarrow> bounded_tape Z limits (ct_tape t) (ct_total t) \<and>
     map (length \<circ> cs_quotes) (ct_tape t) = map (file_rows R limits) files \<and>
     (\<forall>f \<in> set files. file_len f \<le> rl_max_file_bytes limits) \<and>
     ct_decoded t = sum_list (map file_len files) \<and>
     (files \<noteq> [] \<longrightarrow> ct_decoded t \<le> rl_max_decompressed_bytes limits)"

lemma read_file_inv:
  assumes "read_file X Z S R limits (index, file) t = Inr t'" and "csv_inv Z R limits files t"
  shows "csv_inv Z R limits (files @ [file]) t'"
proof -
  from assms(1) obtain step content hd0 quotes anchor snapshot tape total_bytes len where
    step: "fits U32 step" and content: "de_bytes file = Inr content"
    and len: "de_handle file = Inr (True, len)" "len \<le> rl_max_file_bytes limits"
      "ct_decoded t' = ct_decoded t + len" "ct_decoded t + len \<le> rl_max_decompressed_bytes limits"
    and parsed: "parse_csv_snapshot X R limits (bounded_read (rl_max_file_bytes limits) content) step
        = Inr (hd0, quotes)"
    and snapshot: "raw_quotes_to_snapshot X
              \<lparr>sm_ts = sh_ts hd0, sm_step = step, sm_anchor_ts = anchor,
               sm_underlying = sh_underlying hd0, sm_underlying_price = sh_underlying_price hd0,
               sm_tick = sh_tick hd0, sm_mult = sh_mult hd0\<rparr> quotes = Inr snapshot"
    and push: "push_checked Z limits snapshot (ct_tape t, ct_total t) = Inr (tape, total_bytes)"
    and t': "ct_tape t' = tape" "ct_total t' = total_bytes"
    by (auto simp: read_file_def res_simps Let_def checked_add_def split: if_splits)
  have file_len: "file_len file = len" by (simp add: file_len_def len(1))
  have parsed': "typed_head hd0" "\<forall>q \<in> set quotes. typed_raw q"
    "length quotes = file_rows R limits file" "int (length quotes) \<le> rl_max_contracts_per_snapshot limits"
    using parse_csv_snapshot_Inr [OF parsed] by (simp_all add: file_rows_def file_bytes_def content)
  have "wf_snapshot snapshot \<and> length (cs_quotes snapshot) = length quotes"
    using conversion_wf [OF snapshot] parsed'(1,2) step by (simp add: typed_meta_def typed_head_def)
  with push_checked_bounded [OF push] push_checked_Inr [OF push] parsed'(3,4) assms(2) len(2,4) show ?thesis
    by (auto simp: csv_inv_def t' len(3) file_len)
qed

lemma read_files_inv:
  assumes "fold_res (read_file X Z S R limits) (enumerate n files) t = Inr t'" and "csv_inv Z R limits read t"
  shows "csv_inv Z R limits (read @ files) t'"
  using assms
proof (induction files arbitrary: n read t)
  case (Cons e files)
  from Cons.prems(1) obtain t1 where t1: "read_file X Z S R limits (n, e) t = Inr t1"
    and rest: "fold_res (read_file X Z S R limits) (enumerate (Suc n) files) t1 = Inr t'"
    by (auto simp: res_simps)
  from Cons.IH [OF rest read_file_inv [OF t1 Cons.prems(2)]] show ?case by simp
qed simp

text \<open>The scan accepts a listing when every entry is a regular file and there are not too many.\<close>

lemma scan_entries:
  "fold_res (scan_entry limits) entries acc = Inr files \<longleftrightarrow>
     (\<exists>es. entries = map Inr es \<and> (\<forall>e \<in> set es. de_is_file e = Inr True) \<and> files = acc @ es \<and>
       (es \<noteq> [] \<longrightarrow> int (length files) \<le> rl_max_steps limits \<and> fits U64 (int (length files))))"
proof (induction entries arbitrary: acc)
  case (Cons entry entries)
  show ?case
  proof (cases "\<exists>e. entry = Inr e \<and> de_is_file e = Inr True")
    case True
    then obtain e where e: "entry = Inr e" "de_is_file e = Inr True" by blast
    have "fold_res (scan_entry limits) (entry # entries) acc = Inr files \<longleftrightarrow>
        fits U64 (int (length (acc @ [e]))) \<and> int (length (acc @ [e])) \<le> rl_max_steps limits \<and>
        fold_res (scan_entry limits) entries (acc @ [e]) = Inr files"
      by (auto simp: scan_entry_def e res_simps Let_def split: if_splits)
    also have "\<dots> \<longleftrightarrow> (\<exists>es. entries = map Inr es \<and> (\<forall>e \<in> set es. de_is_file e = Inr True) \<and>
        files = acc @ e # es \<and> int (length files) \<le> rl_max_steps limits \<and> fits U64 (int (length files)))"
      unfolding Cons.IH by (auto simp: width_simps)
    finally show ?thesis by (auto simp: e Cons_eq_map_conv)
  next
    case False
    then have "\<nexists>acc'. scan_entry limits entry acc = Inr acc'"
      by (cases entry) (auto simp: scan_entry_def res_simps split: if_splits)
    then have "fold_res (scan_entry limits) (entry # entries) acc \<noteq> Inr files"
      by (auto simp: res_simps)
    with False show ?thesis by (auto simp: Cons_eq_map_conv)
  qed
qed auto

lemma csv_open_Inr:
  "csv_open X Z S R limits dir = Inr feed \<longleftrightarrow>
     (\<exists>files t meta. cd_is_dir dir = Inr True \<and> cd_entries dir = Inr (map Inr files) \<and>
        (\<forall>e \<in> set files. de_is_file e = Inr True) \<and>
        (files \<noteq> [] \<longrightarrow> int (length files) \<le> rl_max_steps limits \<and> fits U64 (int (length files))) \<and>
        read_files X Z S R limits (sort_key name_bytes files) = Inr t \<and>
        tape_meta_from_tape (to_hex (sha_final S (ct_hash t))) (ct_tape t) = Inr meta \<and>
        feed = \<lparr>cv_tape = ct_tape t, cv_cursor = 0, cv_meta = meta, cv_path = cd_path dir,
          cv_sha256 = to_hex (sha_final S (ct_hash t))\<rparr>)"
  (is "_ = ?rhs")
proof
  assume "csv_open X Z S R limits dir = Inr feed"
  then obtain entries files t meta where "cd_is_dir dir = Inr True" "cd_entries dir = Inr entries"
    and scan: "fold_res (scan_entry limits) entries [] = Inr files"
    and "read_files X Z S R limits (sort_key name_bytes files) = Inr t"
    and "tape_meta_from_tape (to_hex (sha_final S (ct_hash t))) (ct_tape t) = Inr meta"
    and "feed = \<lparr>cv_tape = ct_tape t, cv_cursor = 0, cv_meta = meta, cv_path = cd_path dir,
          cv_sha256 = to_hex (sha_final S (ct_hash t))\<rparr>"
    by (auto simp: csv_open_def res_simps Let_def split: if_splits)
  with scan [unfolded scan_entries] show ?rhs by auto
next
  assume ?rhs
  then obtain files t meta where "cd_is_dir dir = Inr True" "cd_entries dir = Inr (map Inr files)"
    and "fold_res (scan_entry limits) (map Inr files) [] = Inr files"
    and "read_files X Z S R limits (sort_key name_bytes files) = Inr t"
    and "tape_meta_from_tape (to_hex (sha_final S (ct_hash t))) (ct_tape t) = Inr meta"
    and "feed = \<lparr>cv_tape = ct_tape t, cv_cursor = 0, cv_meta = meta, cv_path = cd_path dir,
          cv_sha256 = to_hex (sha_final S (ct_hash t))\<rparr>"
    unfolding scan_entries by fastforce
  then show "csv_open X Z S R limits dir = Inr feed"
    by (simp add: csv_open_def Let_def)
qed

lemma csv_open_parts:
  fixes S :: "'h sha_api"
  assumes "csv_open X Z S R limits dir = Inr feed"
  obtains files and t :: "'h csv_state" where "cd_entries dir = Inr (map Inr files)"
    and "csv_inv Z R limits (sort_key name_bytes files) t"
    and "tape_meta_from_tape (cv_sha256 feed) (ct_tape t) = Inr (cv_meta feed)" and "cv_tape feed = ct_tape t"
proof -
  from assms [unfolded csv_open_Inr] obtain files t meta where entries: "cd_entries dir = Inr (map Inr files)"
    and t: "read_files X Z S R limits (sort_key name_bytes files) = Inr t"
    and meta: "tape_meta_from_tape (to_hex (sha_final S (ct_hash t))) (ct_tape t) = Inr meta"
    and feed: "feed = \<lparr>cv_tape = ct_tape t, cv_cursor = 0, cv_meta = meta, cv_path = cd_path dir,
          cv_sha256 = to_hex (sha_final S (ct_hash t))\<rparr>" by blast
  have "csv_inv Z R limits (sort_key name_bytes files) t"
    using read_files_inv [OF t [unfolded read_files_def], where read = "[]"] by (auto simp: csv_inv_def)
  with entries meta show thesis by (intro that [of files t]) (simp_all add: feed)
qed

text \<open>
  C29. What opening a directory of CSV files promises: if it succeeds, there is one snapshot
  per file, in the order of the names, with as many quotes as the file has records; the
  snapshots are well formed, with strictly increasing timestamps and consecutive steps, and
  each of the five ceilings of the configured limits is respected: contracts in a snapshot, steps,
  bytes of a file, bytes of all files together, and bytes of the tape in memory.
\<close>

theorem csv_open_valid:
  fixes S :: "'h sha_api"
  assumes "csv_open X Z S R limits dir = Inr feed"
  shows "\<exists>files. cd_entries dir = Inr (map Inr files) \<and>
    map (length \<circ> cs_quotes) (cv_tape feed) = map (file_rows R limits) (sort_key name_bytes files) \<and>
    cv_tape feed \<noteq> [] \<and> sorted_wrt (<) (map cs_ts (cv_tape feed)) \<and>
    map cs_step (cv_tape feed) = map int [0..<length files] \<and>
    (\<forall>s \<in> set (cv_tape feed). wf_snapshot s \<and> int (length (cs_quotes s)) \<le> rl_max_contracts_per_snapshot limits) \<and>
    int (length files) \<le> rl_max_steps limits \<and>
    (\<forall>f \<in> set files. file_len f \<le> rl_max_file_bytes limits) \<and>
    sum_list (map file_len files) \<le> rl_max_decompressed_bytes limits \<and>
    sum_list (map (snapshot_bytes Z) (cv_tape feed)) \<le> rl_max_total_bytes limits"
proof -
  from csv_open_parts [OF assms] obtain files and t :: "'h csv_state" where entries: "cd_entries dir = Inr (map Inr files)"
    and t: "csv_inv Z R limits (sort_key name_bytes files) t"
    and meta: "tape_meta_from_tape (cv_sha256 feed) (ct_tape t) = Inr (cv_meta feed)"
    and feed: "cv_tape feed = ct_tape t" .
  have "length (ct_tape t) = length files"
    using t by (metis csv_inv_def length_map length_sort)
  moreover have "sum_list (map file_len (sort_key name_bytes files)) = sum_list (map file_len files)"
    by (metis mset_map mset_sort sum_mset_sum_list)
  moreover have "sort_key name_bytes files \<noteq> []"
    using t meta [unfolded tape_meta_Inr_iff] by (auto simp: csv_inv_def)
  ultimately show ?thesis
    using t meta [unfolded tape_meta_Inr_iff] entries
    by (intro exI [of _ files]) (auto simp: feed csv_inv_def bounded_tape_def)
qed

lemma map_of_char_eq: "map (of_char :: char \<Rightarrow> int) xs = map of_char ys \<longleftrightarrow> xs = ys"
proof -
  have "inj (of_char :: char \<Rightarrow> int)" by (simp add: inj_def of_char_eq_iff)
  then show ?thesis by (simp add: inj_map_eq_map)
qed

text \<open>
  C30. A directory with distinct file names opens to the same feed in whatever order the
  operating system lists its entries: the tape, its hash and its facts depend only on the set
  of files.
\<close>

theorem csv_open_order_free:
  assumes "csv_open X Z S R limits dir = Inr feed"
    and "cd_entries dir = Inr entries" and "mset entries' = mset entries"
    and "distinct [de_name e. Inr e \<leftarrow> entries]"
  shows "csv_open X Z S R limits (dir\<lparr>cd_entries := Inr entries'\<rparr>) = Inr feed"
proof -
  from assms(1) [unfolded csv_open_Inr] obtain files t meta where
    dir: "cd_is_dir dir = Inr True" "cd_entries dir = Inr (map Inr files)"
    and regular: "\<forall>e \<in> set files. de_is_file e = Inr True"
    and few: "files \<noteq> [] \<longrightarrow> int (length files) \<le> rl_max_steps limits \<and> fits U64 (int (length files))"
    and t: "read_files X Z S R limits (sort_key name_bytes files) = Inr t"
    and meta: "tape_meta_from_tape (to_hex (sha_final S (ct_hash t))) (ct_tape t) = Inr meta"
    and feed: "feed = \<lparr>cv_tape = ct_tape t, cv_cursor = 0, cv_meta = meta, cv_path = cd_path dir,
          cv_sha256 = to_hex (sha_final S (ct_hash t))\<rparr>" by blast
  have entries: "entries = map Inr files" using dir(2) assms(2) by simp
  obtain files' where entries': "entries' = map Inr files'"
    using mset_eq_setD [OF assms(3)] ex_map_conv [of entries' Inr] by (auto simp: entries)
  have same: "mset files' = mset files"
    using arg_cong [OF assms(3), of "image_mset projr"]
    by (simp add: entries entries' image_mset.compositionality comp_def)
  have "distinct (map de_name files)"
    using assms(4) by (simp add: entries comp_def)
  then have "distinct (map name_bytes files)"
    by (auto simp: name_bytes_def distinct_map inj_on_def map_of_char_eq)
  then have "sort_key name_bytes files' = sort_key name_bytes files"
    using same by (intro sort_key_inj_key_eq) (auto simp: distinct_map dest: mset_eq_setD)
  with t have "read_files X Z S R limits (sort_key name_bytes files') = Inr t" by simp
  moreover have "length files' = length files" "set files' = set files"
    using same by (auto dest: mset_eq_length mset_eq_setD)
  ultimately show ?thesis
    unfolding csv_open_Inr using regular few meta dir(1)
    by (intro exI [of _ files'] exI [of _ t] exI [of _ meta]) (auto simp: entries' feed)
qed

section \<open>A sample directory\<close>

text \<open>Two files, listed in the reverse order of their names; the bytes of a file name its records.\<close>

definition sample_header :: "string list" where
  "sample_header = [''ts'', ''underlying'', ''underlying_price'', ''tick_size'', ''contract_multiplier'',
     ''expiration'', ''strike'', ''style'', ''bid'', ''ask'', ''bid_size'', ''ask_size'',
     ''implied_volatility'', ''delta'']"

definition sample_record :: "string \<Rightarrow> string \<Rightarrow> string list" where
  "sample_record ts strike = [ts, ''SPX'', ''100'', ''5'', ''10'', ''50'', strike, ''put'', ''95'', ''105'',
     ''10'', ''10'', ''0.5'', ''-5e-1'']"

definition sample_csv :: csv_api where
  "sample_csv = \<lparr>csv_headers = (\<lambda>bytes. Inr sample_header),
     csv_records = (\<lambda>bytes. if bytes = [1] then [Inr (sample_record ''10'' ''90''), Inr (sample_record ''10'' ''95'')]
        else [Inr (sample_record ''20'' ''90'')])\<rparr>"

definition sample_entry :: "string \<Rightarrow> nat \<Rightarrow> dir_entry" where
  "sample_entry name byte = \<lparr>de_name = name, de_is_file = Inr True, de_open = Inr (),
     de_handle = Inr (True, 1), de_bytes = Inr [byte]\<rparr>"

definition first_byte :: "nat list sha_api" where
  "first_byte = \<lparr>sha_new = [], sha_update = (\<lambda>bytes h. h @ bytes), sha_final = take 1\<rparr>"

definition sample_entries :: "dir_entry res list" where
  "sample_entries = [Inr (sample_entry ''b.csv'' 2), Inr (sample_entry ''a.csv'' 1)]"

definition sample_dir :: csv_dir where
  "sample_dir = \<lparr>cd_path = ''tape'', cd_is_dir = Inr True, cd_entries = Inr sample_entries\<rparr>"

lemma sample_order:
  "sort_key name_bytes [sample_entry ''b.csv'' 2, sample_entry ''a.csv'' 1]
     = [sample_entry ''a.csv'' 1, sample_entry ''b.csv'' 2]"
  by (simp add: name_bytes_def sample_entry_def)

definition sample_files :: "nat list csv_state res" where
  "sample_files = read_files exact_ext sample_layout first_byte sample_csv default_resource_limits
     [sample_entry ''a.csv'' 1, sample_entry ''b.csv'' 2]"

lemma sample_files_ok:
  "\<not> isl (rbind sample_files (\<lambda>t. tape_meta_from_tape (to_hex (sha_final first_byte (ct_hash t))) (ct_tape t)))"
  by code_simp

lemma sample_entries_files:
  "cd_entries sample_dir = Inr (map Inr [sample_entry ''b.csv'' 2, sample_entry ''a.csv'' 1])"
  by (simp add: sample_dir_def sample_entries_def)

lemma sample_rows:
  "map (file_rows sample_csv default_resource_limits) [sample_entry ''a.csv'' 1, sample_entry ''b.csv'' 2] = [2, 1]"
  by (simp add: file_rows_def file_bytes_def bounded_read_def default_resource_limits_def sample_csv_def
      sample_entry_def)

lemma rbind_ok: "\<not> isl (rbind m f) \<Longrightarrow> \<exists>x y. m = Inr x \<and> f x = Inr y"
  by (cases m; cases "f (projr m)"; simp)

lemma sample_csv_open_Inr:
  obtains feed where
    "csv_open exact_ext sample_layout first_byte sample_csv default_resource_limits sample_dir = Inr feed"
proof -
  obtain t meta where t: "sample_files = Inr t"
    and meta: "tape_meta_from_tape (to_hex (sha_final first_byte (ct_hash t))) (ct_tape t) = Inr meta"
    using rbind_ok [OF sample_files_ok] by blast
  let ?files = "[sample_entry ''b.csv'' 2, sample_entry ''a.csv'' 1]"
  have sorted: "read_files exact_ext sample_layout first_byte sample_csv default_resource_limits
      (sort_key name_bytes ?files) = Inr t"
    unfolding sample_order using t by (simp only: sample_files_def)
  have "cd_is_dir sample_dir = Inr True" and "\<forall>e \<in> set ?files. de_is_file e = Inr True"
    by (simp_all add: sample_dir_def sample_entry_def)
  moreover have "int (length ?files) \<le> rl_max_steps default_resource_limits" "fits U64 (int (length ?files))"
    by (simp_all add: default_resource_limits_def width_simps)
  ultimately show thesis
    using sorted meta sample_entries_files
    by (intro that [OF csv_open_Inr [THEN iffD2]] exI [of _ ?files] exI [of _ t] exI [of _ meta] conjI impI)
      (assumption | rule refl)+
qed

theorem csv_open_valid_witness:
  "\<exists>feed. csv_open exact_ext sample_layout first_byte sample_csv default_resource_limits sample_dir = Inr feed \<and>
     map (length \<circ> cs_quotes) (cv_tape feed) = [2, 1]"
proof (rule sample_csv_open_Inr)
  fix feed assume feed: "csv_open exact_ext sample_layout first_byte sample_csv default_resource_limits sample_dir = Inr feed"
  from csv_open_valid [OF feed] obtain files where
    "cd_entries sample_dir = Inr (map Inr files)" and quotes: "map (length \<circ> cs_quotes) (cv_tape feed)
      = map (file_rows sample_csv default_resource_limits) (sort_key name_bytes files)" by blast
  then have files: "files = [sample_entry ''b.csv'' 2, sample_entry ''a.csv'' 1]"
    by (simp only: sample_entries_files inj_map_eq_map [OF inj_Inr] sum.inject)
  have "map (length \<circ> cs_quotes) (cv_tape feed) = [2, 1]"
    unfolding quotes files sample_order by (rule sample_rows)
  with feed show ?thesis by (intro exI [of _ feed] conjI)
qed

theorem csv_open_order_free_witness:
  "\<exists>feed. csv_open exact_ext sample_layout first_byte sample_csv default_resource_limits
     (sample_dir\<lparr>cd_entries := Inr (rev sample_entries)\<rparr>) = Inr feed"
proof (rule sample_csv_open_Inr)
  fix feed assume "csv_open exact_ext sample_layout first_byte sample_csv default_resource_limits sample_dir = Inr feed"
  from csv_open_order_free [OF this, of sample_entries "rev sample_entries"] show ?thesis
    by (auto simp: sample_dir_def sample_entries_def sample_entry_def)
qed

end
