(* ===== verification/Chain_Convert.thy ===== *)
theory Chain_Convert
  imports Convert Contract_Id
begin

text \<open>
  The two other conversions of \<open>src/data/convert.rs\<close>: the response of the chain simulator
  (whose wire structures are in \<open>src/data/simulator.rs\<close>) to a snapshot, through the validation
  of \<open>Convert\<close>, and a snapshot to the option chain an upstream strategy reprices from. The
  parsing and printing of RFC 3339 timestamps belongs to \<open>chrono\<close>, the option chain to
  \<open>optionstratlib\<close>: both are parameters.
\<close>

section \<open>The simulator's response\<close>

record price_response =
  or_bid :: "double option"
  or_ask :: "double option"
  or_mid :: "double option"
  or_delta :: "double option"

record contract_response =
  oc_strike :: double
  oc_expiration :: string
  oc_call :: price_response
  oc_put :: price_response
  oc_iv :: "double option"
  oc_gamma :: "double option"

record session_info =
  si_id :: string
  si_current_step :: int
  si_total_steps :: int

record chain_response =
  cr_underlying :: string
  cr_timestamp :: string
  cr_price :: double
  cr_contracts :: "contract_response list"
  cr_session_info :: session_info

text \<open>\<open>DateTime::parse_from_rfc3339\<close>, giving the instant, and \<open>to_rfc3339\<close>.\<close>

record rfc3339 =
  rfc_parse :: "string \<Rightarrow> int option"
  rfc_format :: "int \<Rightarrow> string"

definition side_to_raw_quote ::
    "ext \<Rightarrow> expiration \<Rightarrow> price_cents \<Rightarrow> option_style \<Rightarrow> price_response \<Rightarrow> double \<Rightarrow> double
      \<Rightarrow> quantity \<Rightarrow> raw_quote res" where
  "side_to_raw_quote X e strike style sd iv gamma sz =
     rbind (ok_or (or_bid sd) (Conversion (MsgChain (MsgMissingBid (style_text style) strike)))) (\<lambda>bid.
     rbind (ok_or (or_ask sd) (Conversion (MsgChain (MsgMissingAsk (style_text style) strike)))) (\<lambda>ask.
     rbind (dollars_f64_to_price_cents X ''bid'' bid) (\<lambda>bid.
     rbind (dollars_f64_to_price_cents X ''ask'' ask) (\<lambda>ask.
     Inr \<lparr>rq_expiration = e, rq_strike = strike, rq_style = style, rq_bid = bid, rq_ask = ask,
          rq_bid_size = sz, rq_ask_size = sz, rq_iv = iv,
          rq_delta = unwrap_or (Finite 0) (or_delta sd), rq_gamma = gamma,
          rq_theta = Finite 0, rq_vega = Finite 0\<rparr>))))"

definition contract_row ::
    "ext \<Rightarrow> rfc3339 \<Rightarrow> quantity \<Rightarrow> contract_response \<Rightarrow> raw_quote list \<Rightarrow> raw_quote list res" where
  "contract_row X D sz c raw =
     rbind (dollars_f64_to_price_cents X ''strike'' (oc_strike c)) (\<lambda>strike.
     rbind (ok_or (rfc_parse D (oc_expiration c)) (Conversion (MsgChain (MsgContractExpiry (oc_expiration c))))) (\<lambda>instant.
     rbind (ok_or (oc_iv c) (Conversion (MsgChain (MsgMissingIv strike)))) (\<lambda>iv.
     let gamma = unwrap_or (Finite 0) (oc_gamma c) in
     rbind (side_to_raw_quote X (DateTime instant) strike Call (oc_call c) iv gamma sz) (\<lambda>call.
     rbind (side_to_raw_quote X (DateTime instant) strike Put (oc_put c) iv gamma sz) (\<lambda>put.
     Inr (raw @ [call, put]))))))"

definition chain_response_to_snapshot ::
    "ext \<Rightarrow> rfc3339 \<Rightarrow> chain_response \<Rightarrow> int \<Rightarrow> instrument_spec \<Rightarrow> int \<Rightarrow> quantity
      \<Rightarrow> chain_snapshot res" where
  "chain_response_to_snapshot X D resp step spec anchor sz =
     rbind (underlying_new (cr_underlying resp)) (\<lambda>u.
     rbind (ok_or (rfc_parse D (cr_timestamp resp)) (Conversion (MsgChain (MsgTimestamp (cr_timestamp resp))))) (\<lambda>instant.
     rbind (ok_or (dt_nanos_opt X instant) (Conversion (MsgChain (MsgTimestampRange (cr_timestamp resp))))) (\<lambda>ts.
     rbind (dollars_f64_to_price_cents X ''underlying'' (cr_price resp)) (\<lambda>price.
     rbind (fold_res (contract_row X D sz) (cr_contracts resp) []) (\<lambda>raw.
     raw_quotes_to_snapshot X
       \<lparr>sm_ts = ts, sm_step = step, sm_anchor_ts = anchor, sm_underlying = u,
        sm_underlying_price = price, sm_tick = sp_tick spec, sm_mult = sp_mult spec\<rparr> raw)))))"

section \<open>The option chain of a snapshot\<close>

record strike_accumulator =
  sa_call_bid :: "rat option"
  sa_call_ask :: "rat option"
  sa_put_bid :: "rat option"
  sa_put_ask :: "rat option"
  sa_iv :: "rat option"
  sa_delta_call :: "rat option"
  sa_delta_put :: "rat option"
  sa_gamma :: "rat option"

definition strike_accumulator_default :: strike_accumulator where
  "strike_accumulator_default = \<lparr>sa_call_bid = None, sa_call_ask = None, sa_put_bid = None,
     sa_put_ask = None, sa_iv = None, sa_delta_call = None, sa_delta_put = None, sa_gamma = None\<rparr>"

text \<open>A chain of \<open>optionstratlib\<close>: its construction, \<open>add_option\<close>, which takes the strike, the
  accumulated sides and a volatility, and what a reprice reads of it.\<close>

record 'c chain_api =
  ch_new :: "string \<Rightarrow> rat \<Rightarrow> string \<Rightarrow> 'c"
  ch_add_option :: "rat \<Rightarrow> strike_accumulator \<Rightarrow> rat \<Rightarrow> 'c \<Rightarrow> 'c"
  ch_options :: "'c \<Rightarrow> nat"
  ch_underlying_price :: "'c \<Rightarrow> rat"
  ch_atm_iv :: "'c \<Rightarrow> string + rat"

definition positive_from_price :: "ext \<Rightarrow> string \<Rightarrow> price_cents \<Rightarrow> rat res" where
  "positive_from_price X field price =
     ok_or (positive_new X (to_decimal_dollars price)) (Conversion (MsgChain (MsgNotPositive field price)))"

text \<open>\<open>get_or_insert\<close>.\<close>

definition get_or_insert :: "'a \<Rightarrow> 'a option \<Rightarrow> 'a option" where
  "get_or_insert d x = (case x of None \<Rightarrow> Some d | Some y \<Rightarrow> Some y)"

definition accumulate_side ::
    "quote_view \<Rightarrow> rat \<Rightarrow> rat \<Rightarrow> rat \<Rightarrow> strike_accumulator \<Rightarrow> strike_accumulator" where
  "accumulate_side view bid ask iv acc =
     (let acc = acc\<lparr>sa_iv := get_or_insert iv (sa_iv acc)\<rparr> in
      case ck_style (qv_contract view) of
        Call \<Rightarrow> acc\<lparr>sa_call_bid := Some bid, sa_call_ask := Some ask, sa_delta_call := Some (qv_delta view),
                  sa_gamma := get_or_insert (qv_gamma view) (sa_gamma acc)\<rparr>
      | Put \<Rightarrow> acc\<lparr>sa_put_bid := Some bid, sa_put_ask := Some ask, sa_delta_put := Some (qv_delta view),
                 sa_gamma := get_or_insert (qv_gamma view) (sa_gamma acc)\<rparr>)"

definition accumulate_view ::
    "ext \<Rightarrow> quote_view \<Rightarrow> (int, strike_accumulator) btmap \<times> int option
      \<Rightarrow> ((int, strike_accumulator) btmap \<times> int option) res" where
  "accumulate_view X view = (\<lambda>(strikes, expiry).
     rbind (expiration_ns X (qv_contract view)) (\<lambda>this_ns.
     rbind (case expiry of
              Some existing \<Rightarrow>
                if existing \<noteq> this_ns then Inl (Conversion (MsgChain (MsgMixedExpiries existing this_ns)))
                else Inr existing
            | None \<Rightarrow> Inr this_ns) (\<lambda>expiry.
     rbind (positive_from_price X ''bid'' (qv_bid view)) (\<lambda>bid.
     rbind (positive_from_price X ''ask'' (qv_ask view)) (\<lambda>ask.
     rbind (ok_or (positive_new X (qv_iv view)) (Conversion (MsgChain (MsgIvNegative (qv_iv view))))) (\<lambda>iv.
     let strike = ck_strike (qv_contract view);
         acc = unwrap_or strike_accumulator_default (bt_get strikes strike) in
     Inr (bt_insert strike (accumulate_side view bid ask iv acc) strikes, Some expiry)))))))"

definition add_strike ::
    "ext \<Rightarrow> 'c chain_api \<Rightarrow> int \<times> strike_accumulator \<Rightarrow> 'c \<Rightarrow> 'c res" where
  "add_strike X C = (\<lambda>(strike_cents, acc) chain.
     rbind (positive_from_price X ''strike'' strike_cents) (\<lambda>strike.
     Inr (ch_add_option C strike acc (unwrap_or 0 (sa_iv acc)) chain)))"

definition snapshot_to_option_chain ::
    "ext \<Rightarrow> rfc3339 \<Rightarrow> 'c chain_api \<Rightarrow> chain_snapshot \<Rightarrow> 'c res" where
  "snapshot_to_option_chain X D C snap =
     rbind (positive_from_price X ''underlying'' (cs_price snap)) (\<lambda>underlying_price.
     rbind (fold_res (accumulate_view X) (bt_values (cs_quotes snap)) (bt_empty, None)) (\<lambda>(strikes, expiry).
     let expiration_date = rfc_format D (dt_from_nanos X (unwrap_or 0 expiry));
         chain = ch_new C (cs_underlying snap) underlying_price expiration_date;
         expected = length strikes in
     rbind (fold_res (add_strike X C) strikes chain) (\<lambda>chain.
     if ch_options C chain \<noteq> expected
     then Inl (Conversion (MsgChain (MsgChainIncomplete (ch_options C chain) expected)))
     else Inr chain)))"

section \<open>What a simulator response becomes\<close>

lemma edge_price:
  assumes "converts_in_range X" and "dollars_f64_to_price_cents X field v = Inr p"
  shows "is_price p"
  using assms
  by (auto simp: dollars_f64_to_price_cents_def from_decimal_dollars_def converts_in_range_def
      is_price_def res_simps split: double.splits if_splits)

lemma side_to_raw_quote_typed:
  assumes "converts_in_range X" and "side_to_raw_quote X e strike style sd iv gamma sz = Inr q"
    and "is_price strike" and "is_quantity sz"
  shows "typed_raw q"
  using assms edge_price [OF assms(1)]
  by (auto simp: side_to_raw_quote_def res_simps typed_raw_def)

lemma contract_rows_typed:
  assumes "fold_res (contract_row X D sz) cs raw = Inr raws" and "converts_in_range X" and "is_quantity sz"
    and "\<forall>q \<in> set raw. typed_raw q"
  shows "(\<forall>q \<in> set raws. typed_raw q) \<and> length raws = length raw + 2 * length cs"
  using assms(1,4)
proof (induction cs arbitrary: raw)
  case (Cons c cs)
  from Cons.prems(1) obtain raw1 where raw1: "contract_row X D sz c raw = Inr raw1"
    and rest: "fold_res (contract_row X D sz) cs raw1 = Inr raws" by (auto simp: res_simps)
  from raw1 have "(\<forall>q \<in> set raw1. typed_raw q) \<and> length raw1 = length raw + 2"
    using Cons.prems(2) assms(2,3)
    by (auto simp: contract_row_def res_simps Let_def
        dest: side_to_raw_quote_typed [OF assms(2) _ edge_price [OF assms(2)] assms(3)])
  with Cons.IH [OF rest] show ?case by simp
qed simp

text \<open>
  A simulator response that converts gives a well-formed snapshot with the step and the
  specification the client asked for and two quotes, a call and a put, per contract row.
\<close>

lemma chain_response_wf:
  assumes "chain_response_to_snapshot X D resp step spec anchor sz = Inr snap"
    and "converts_in_range X" and "nanos_in_range X" and "fits U32 step" and "wf_spec spec"
    and "is_quantity sz"
  shows "wf_snapshot snap \<and> length (cs_quotes snap) = 2 * length (cr_contracts resp)"
proof -
  from assms(1) obtain instant ts price raw u where ts: "dt_nanos_opt X instant = Some ts"
    and price: "dollars_f64_to_price_cents X ''underlying'' (cr_price resp) = Inr price"
    and raw: "fold_res (contract_row X D sz) (cr_contracts resp) [] = Inr raw"
    and snap: "raw_quotes_to_snapshot X
       \<lparr>sm_ts = ts, sm_step = step, sm_anchor_ts = anchor, sm_underlying = u,
        sm_underlying_price = price, sm_tick = sp_tick spec, sm_mult = sp_mult spec\<rparr> raw = Inr snap"
    by (auto simp: chain_response_to_snapshot_def res_simps)
  have "fits I64 ts" using ts assms(3) by (auto simp: nanos_in_range_def)
  moreover have "is_price price" by (rule edge_price [OF assms(2) price])
  ultimately show ?thesis
    using conversion_wf [OF snap] contract_rows_typed [OF raw assms(2,6)] assms(4,5)
    by (simp add: typed_meta_def wf_spec_def is_quantity_def)
qed

end
