(* ===== verification/Run_Invariant.thy ===== *)
theory Run_Invariant
  imports Engine_Run
begin

text \<open>
  What holds throughout a run. The states a run passes through are the least set that holds the
  state after startup and is closed under steps; the invariants are proved by rule induction
  over it. They tie the components together: the cash of the ledger to the fills in the bundle,
  the equity curve to the samples of the attribution, the fees and the slippage of the fills to
  what the attribution charges the steps with.
\<close>

section \<open>The states of a run\<close>

text \<open>Reachable from \<open>s\<close> by steps on snapshots that satisfy \<open>P\<close>.\<close>

inductive steps_reach ::
    "(chain_snapshot \<Rightarrow> bool) \<Rightarrow> (chain_snapshot \<Rightarrow> bool \<Rightarrow> 'st \<Rightarrow> 'st res) \<Rightarrow> 'st \<Rightarrow> 'st \<Rightarrow> bool"
  for P step_op s where
    start: "steps_reach P step_op s s"
  | step: "steps_reach P step_op s t \<Longrightarrow> P snap \<Longrightarrow> step_op snap is_last t = Inr t' \<Longrightarrow>
      steps_reach P step_op s t'"

lemma steps_reach_invariant:
  assumes "steps_reach P step_op s t" and "I s"
    and "\<And>t t' snap is_last. I t \<Longrightarrow> P snap \<Longrightarrow> step_op snap is_last t = Inr t' \<Longrightarrow> I t'"
  shows "I t"
  using assms(1) by (induction rule: steps_reach.induct) (auto intro: assms(2,3))

lemma steps_reach_trans: "steps_reach P f t u \<Longrightarrow> steps_reach P f s t \<Longrightarrow> steps_reach P f s u"
  by (induction rule: steps_reach.induct) (auto intro: steps_reach.step)

text \<open>Every snapshot a feed yields satisfies \<open>P\<close>, from the states of the feed in \<open>good\<close>.\<close>

definition feed_yields ::
    "('f \<Rightarrow> bool) \<Rightarrow> (chain_snapshot \<Rightarrow> bool) \<Rightarrow> ('f \<Rightarrow> ('f \<times> chain_snapshot option) res) \<Rightarrow> bool" where
  "feed_yields good P next_op \<longleftrightarrow>
     (\<forall>f f' s. good f \<longrightarrow> next_op f = Inr (f', Some s) \<longrightarrow> good f' \<and> P s)"

lemma feed_yieldsD:
  "feed_yields good P next_op \<Longrightarrow> good f \<Longrightarrow> next_op f = Inr (f', Some s) \<Longrightarrow> good f' \<and> P s"
  by (auto simp: feed_yields_def)

text \<open>A run that succeeds ends in a state reached by steps, the last of them at the final step.\<close>

definition loop_ends ::
    "(chain_snapshot \<Rightarrow> bool \<Rightarrow> 'st \<Rightarrow> 'st res) \<Rightarrow> ('f \<Rightarrow> ('f \<times> chain_snapshot option) res)
      \<Rightarrow> int \<Rightarrow> chain_snapshot \<Rightarrow> 'f \<Rightarrow> 'st \<Rightarrow> ('st \<times> int) res \<Rightarrow> bool" where
  "loop_ends step_op next_op final current f st r \<longleftrightarrow>
     (\<forall>st' last_ts good P. r = Inr (st', last_ts) \<longrightarrow> feed_yields good P next_op \<longrightarrow> good f \<longrightarrow>
        P current \<longrightarrow>
        (\<exists>t snap. steps_reach P step_op st t \<and> P snap \<and> cs_step snap = final \<and>
           cs_ts snap = last_ts \<and> step_op snap True t = Inr st'))"

lemma run_loop_ends:
  assumes "run_loop step_op next_op final current f st = Some r"
  shows "loop_ends step_op next_op final current f st r"
proof (rule run_loop.raw_induct [OF _ assms])
  fix run_rec step_op next_op final current f st and r :: "('st \<times> int) res"
  assume IH: "\<And>step_op next_op final current f st r.
      run_rec step_op next_op final current f st = Some r \<Longrightarrow>
      loop_ends step_op next_op final current f st r"
    and body: "(case step_op current (cs_step current = final) st of
        Inl e \<Rightarrow> Some (Inl e)
      | Inr st \<Rightarrow>
          if cs_step current = final then Some (Inr (st, cs_ts current))
          else (case next_op f of
                  Inl e \<Rightarrow> Some (Inl e)
                | Inr (f, None) \<Rightarrow> Some (Inl (Data MsgFeedExhausted))
                | Inr (f, Some snap) \<Rightarrow> run_rec step_op next_op final snap f st)) = Some r"
  show "loop_ends step_op next_op final current f st r"
    unfolding loop_ends_def
  proof (intro allI impI)
    fix st' last_ts good P
    assume r: "r = Inr (st', last_ts)" and feed: "feed_yields good P next_op" and "good f" "P current"
    from body r obtain st1 where st1: "step_op current (cs_step current = final) st = Inr st1"
      by (cases "step_op current (cs_step current = final) st") auto
    show "\<exists>t snap. steps_reach P step_op st t \<and> P snap \<and> cs_step snap = final \<and>
        cs_ts snap = last_ts \<and> step_op snap True t = Inr st'"
    proof (cases "cs_step current = final")
      case True
      with body st1 r \<open>P current\<close> show ?thesis by (auto intro: steps_reach.start)
    next
      case False
      with body st1 r obtain f' s where s: "next_op f = Inr (f', Some s)"
        and rest: "run_rec step_op next_op final s f' st1 = Some r"
        by (auto split: sum.splits option.splits)
      from feed_yieldsD [OF feed \<open>good f\<close> s] IH [OF rest, unfolded loop_ends_def] r feed
      obtain t snap where t: "steps_reach P step_op st1 t" "P snap" "cs_step snap = final"
        "cs_ts snap = last_ts" "step_op snap True t = Inr st'" by blast
      have "steps_reach P step_op st st1"
        by (rule steps_reach.step [where t = st and snap = current and is_last = "cs_step current = final"])
          (simp_all add: steps_reach.start st1 \<open>P current\<close>)
      from steps_reach_trans [OF t(1) this] t(2-) show ?thesis by blast
    qed
  qed
qed

lemma run_loop_reach:
  assumes "run_loop step_op next_op final current f st = Some (Inr (st', last_ts))"
    and "feed_yields good P next_op" and "good f" and "P current"
  obtains t snap where "steps_reach P step_op st t" "P snap" "cs_step snap = final"
    "cs_ts snap = last_ts" "step_op snap True t = Inr st'"
  using run_loop_ends [OF assms(1)] assms(2-) unfolding loop_ends_def by blast

section \<open>The invariant\<close>

definition booked_fills :: "('s, 'x, 'r, 'e) run_state \<Rightarrow> fill list" where
  "booked_fills st = map fr_fill (bd_fills (bk_bundle (rs_books st)))"

definition last_equity :: "cents \<Rightarrow> equity_point list \<Rightarrow> cents" where
  "last_equity capital curve = (if curve = [] then capital else ep_equity (last curve))"

text \<open>The totals: what the fills moved is what the ledger holds and the steps were charged.\<close>

definition totals_inv :: "cents \<Rightarrow> int \<Rightarrow> ('s, 'x, 'r, 'e) run_state \<Rightarrow> bool" where
  "totals_inv capital m st \<longleftrightarrow>
     (let l = bk_ledger (rs_books st); fills = booked_fills st; steps = ac_steps (rs_attribution st) in
      lg_cash l = capital + sum_list (map (\<lambda>f. cash_flow f m) fills) \<and>
      lg_step_fees l + sum_list (map ss_fees steps) = sum_list (map fl_fees fills) \<and>
      lg_step_slippage l - sum_list (map ss_spread_capture steps)
        = sum_list (map (\<lambda>f. fl_slippage f * m) fills))"

text \<open>The equity curve and the samples of the attribution describe the same steps.\<close>

definition curve_inv :: "cents \<Rightarrow> ('s, 'x, 'r, 'e) run_state \<Rightarrow> bool" where
  "curve_inv capital st \<longleftrightarrow>
     (let l = bk_ledger (rs_books st); curve = rs_equity_curve st; steps = ac_steps (rs_attribution st) in
      lg_prev_equity l = last_equity capital curve \<and>
      last_equity capital curve = capital + sum_list (map ss_step_pnl steps) \<and>
      map ep_step curve = map ss_step steps \<and> map ep_ts curve = map ss_ts steps \<and>
      sorted_wrt (<) (map ep_ts curve) \<and> (\<forall>p \<in> set curve. ep_ts p \<le> ck_ts (rs_clock st)) \<and>
      (\<forall>p \<in> set curve. ep_drawdown p \<le> 0 \<and> ep_equity p = ep_cash p + ep_position_value p))"

text \<open>After a step the accumulators are empty and the last point shows the cash.\<close>

definition settled :: "chain_snapshot \<Rightarrow> ('s, 'x, 'r, 'e) run_state \<Rightarrow> bool" where
  "settled snap st \<longleftrightarrow>
     (let l = bk_ledger (rs_books st); curve = rs_equity_curve st in
      lg_step_fees l = 0 \<and> lg_step_slippage l = 0 \<and> curve \<noteq> [] \<and>
      ep_step (last curve) = cs_step snap \<and> ep_ts (last curve) = cs_ts snap \<and>
      ep_cash (last curve) = lg_cash l)"

text \<open>What holds on any tape, and with the totals, on a tape of one multiplier.\<close>

definition core_inv :: "cents \<Rightarrow> ('s, 'x, 'r, 'e) run_state \<Rightarrow> bool" where
  "core_inv capital st \<longleftrightarrow> books_sync (rs_books st) \<and> collector_inv (rs_attribution st) \<and> curve_inv capital st"

definition run_inv :: "cents \<Rightarrow> int \<Rightarrow> ('s, 'x, 'r, 'e) run_state \<Rightarrow> bool" where
  "run_inv capital m st \<longleftrightarrow> core_inv capital st \<and> totals_inv capital m st"

lemma run_inv_new: "run_inv capital m (run_state_new s x rng capital)"
proof -
  have "books_sync (rs_books (run_state_new s x rng capital))"
    by (auto simp: run_state_new_def books_sync_def inventory_view_def log_view_def
        rows_view_def trade_log_new_def bundle_new_def fun_eq_iff)
  moreover have "collector_inv (rs_attribution (run_state_new s x rng capital))"
    by (simp add: run_state_new_def)
  moreover have "totals_inv capital m (run_state_new s x rng capital)"
    "curve_inv capital (run_state_new s x rng capital)"
    by (simp_all add: run_state_new_def totals_inv_def curve_inv_def booked_fills_def Let_def
        last_equity_def ledger_new_def attribution_collector_new_def bundle_new_def)
  ultimately show ?thesis by (simp add: run_inv_def core_inv_def)
qed

lemma books_sync_ids:
  "books_sync b \<Longrightarrow> ic_position ids = ic_position (bk_ids b) \<Longrightarrow> books_sync (b\<lparr>bk_ids := ids\<rparr>)"
  by (erule books_sync_frame) simp_all

text \<open>A correlation pass: the books stay in step and the totals move with the fills.\<close>

lemma pass_keeps:
  assumes "mint_submit_ids cmds (bk_ids (rs_books st)) = Inr (ids, oids)"
    and "apply_step_fills R cmds fills groups carry oids snap reasons ((rs_books st)\<lparr>bk_ids := ids\<rparr>) = Inr b"
    and "core_inv capital st" and "sp_mult (cs_spec snap) = m"
  shows "books_sync b \<and> bk_ledger b = ledger_after m fills (bk_ledger (rs_books st)) \<and>
    map fr_fill (bd_fills (bk_bundle b)) = booked_fills st @ fills"
proof -
  have "books_sync ((rs_books st)\<lparr>bk_ids := ids\<rparr>)"
    using assms(3) mint_submit_ids_position [OF assms(1)] by (intro books_sync_ids) (auto simp: core_inv_def)
  then have "books_sync b" using sync.step_fills_invar assms(2) by blast
  with apply_step_fills_booked [OF assms(2)] assms(4) show ?thesis
    by (simp add: booked_def booked_fills_def)
qed

lemma run_on_start_core:
  assumes "run_on_start R SY EM snap st = Inr st'" and "core_inv capital st" and "rs_equity_curve st = []"
  shows "core_inv capital st' \<and> rs_equity_curve st' = [] \<and>
    (totals_inv capital (sp_mult (cs_spec snap)) st \<longrightarrow> totals_inv capital (sp_mult (cs_spec snap)) st')"
proof (rule run_on_start_Inr [OF assms(1)])
  fix cmds ids oids x fills groups carry reasons
  assume mint: "mint_submit_ids cmds (bk_ids (rs_books st)) = Inr (ids, oids)"
    and pass: "apply_step_fills R cmds fills groups carry oids snap reasons ((rs_books st)\<lparr>bk_ids := ids\<rparr>)
      = Inr (rs_books st')"
    and same: "rs_clock st' = rs_clock st" "rs_equity_curve st' = rs_equity_curve st"
      "rs_attribution st' = rs_attribution st"
  note p = pass_keeps [OF mint pass assms(2) refl]
  from p assms(2) same have "books_sync (rs_books st')" "collector_inv (rs_attribution st')"
    by (auto simp: core_inv_def)
  moreover from p same have "totals_inv capital (sp_mult (cs_spec snap)) st'"
    if "totals_inv capital (sp_mult (cs_spec snap)) st"
    using that by (auto simp: totals_inv_def Let_def booked_fills_def ledger_after_def)
  moreover from p assms(2) same have "curve_inv capital st'"
    by (auto simp: core_inv_def curve_inv_def Let_def ledger_after_def)
  ultimately show ?thesis using same assms(3) by (simp add: core_inv_def)
qed

lemma run_on_start_inv:
  assumes "run_on_start R SY EM snap st = Inr st'" and "run_inv capital m st"
    and "sp_mult (cs_spec snap) = m" and "rs_equity_curve st = []"
  shows "run_inv capital m st' \<and> rs_equity_curve st' = []"
  using run_on_start_core [OF assms(1)] assms(2-) by (auto simp: run_inv_def)

lemma starts_inv:
  assumes "run_on_start R SY EM snap (run_state_new s x rng capital) = Inr st"
  shows "core_inv capital st \<and> run_inv capital (sp_mult (cs_spec snap)) st"
proof -
  have "rs_equity_curve (run_state_new s x rng capital) = []" by (simp add: run_state_new_def)
  from run_on_start_inv [OF assms run_inv_new refl this] show ?thesis by (simp add: run_inv_def)
qed

lemma engine_step_core:
  assumes "engine_step X R SY EM snap is_last st = Inr st'" and "core_inv capital st"
    and "sp_mult (cs_spec snap) = m"
  shows "core_inv capital st' \<and> settled snap st' \<and> (totals_inv capital m st \<longrightarrow> totals_inv capital m st')"
proof (rule engine_step_Inr [OF assms(1)])
  fix cmds ids oids x fills reasons b l point rows
  assume clock: "ck_ts (rs_clock st) < cs_ts snap" "ck_ts (rs_clock st') = cs_ts snap"
    and mint: "mint_submit_ids cmds (bk_ids (rs_books st)) = Inr (ids, oids)"
    and pass: "apply_step_fills R cmds fills (ex_groups EM x) (ex_carry EM x) oids snap reasons
      ((rs_books st)\<lparr>bk_ids := ids\<rparr>) = Inr b"
    and settle: "settle X (collect_attribution_marks (bk_ledger b) (bk_inventory (rs_books st)) (sp_mult (cs_spec snap)))
      (cs_step snap) (cs_ts snap) (bk_inventory b) snap = Inr (l, point)"
    and rows: "collect_step (cs_step snap) (cs_ts snap) (lg_position_marks l) is_last (bk_bundle b) = Inr rows"
    and st': "rs_books st' = b\<lparr>bk_ledger := l, bk_bundle := rows\<rparr>"
      "rs_equity_curve st' = rs_equity_curve st @ [point]"
      "rs_attribution st' = collect snap (lg_attribution_marks l) (lg_spread_capture l)
        (lg_last_fees l) (lg_step_pnl l) (rs_attribution st)"
  note p = pass_keeps [OF mint pass assms(2,3)]
  note inv = assms(2) [unfolded core_inv_def]
  let ?l = "bk_ledger (rs_books st)"
  have l: "lg_cash l = lg_cash ?l + sum_list (map (\<lambda>f. cash_flow f m) fills)"
      "lg_step_fees l = 0" "lg_step_slippage l = 0"
      "lg_last_fees l = lg_step_fees ?l + sum_list (map fl_fees fills)"
      "lg_spread_capture l = - (lg_step_slippage ?l + sum_list (map (\<lambda>f. fl_slippage f * m) fills))"
      "lg_step_pnl l = ep_equity point - lg_prev_equity ?l" "lg_prev_equity l = ep_equity point"
      "ep_cash point = lg_cash l" "ep_step point = cs_step snap" "ep_ts point = cs_ts snap"
      "ep_equity point = ep_cash point + ep_position_value point"
    using settle_effects [OF settle] p
    by (simp_all add: collect_attribution_marks_def ledger_after_def)
  have dd: "ep_drawdown point \<le> 0"
    using settle_ledger [OF settle] drawdown_nonpos by simp
  note kept = collect_step_Inr [OF rows]
  have "books_sync (rs_books st')"
    using p kept by (auto simp: st' intro: books_sync_frame)
  moreover have "collector_inv (rs_attribution st')" using inv by (simp add: st')
  moreover have "totals_inv capital m st'" if "totals_inv capital m st"
  proof -
    have "booked_fills st' = booked_fills st @ fills"
      using p kept by (simp add: booked_fills_def st')
    moreover have "bk_ledger (rs_books st') = l" by (simp add: st')
    ultimately show ?thesis
      using that l(1-5) by (simp add: totals_inv_def Let_def st')
  qed
  moreover have "curve_inv capital st'"
  proof -
    from inv have "curve_inv capital st" by simp
    then have c: "lg_prev_equity ?l = last_equity capital (rs_equity_curve st)"
        "last_equity capital (rs_equity_curve st) =
           capital + sum_list (map ss_step_pnl (ac_steps (rs_attribution st)))"
        "map ep_step (rs_equity_curve st) = map ss_step (ac_steps (rs_attribution st))"
        "map ep_ts (rs_equity_curve st) = map ss_ts (ac_steps (rs_attribution st))"
        "sorted_wrt (<) (map ep_ts (rs_equity_curve st))"
      and points: "\<forall>p \<in> set (rs_equity_curve st). ep_ts p \<le> ck_ts (rs_clock st)"
        "\<forall>p \<in> set (rs_equity_curve st). ep_drawdown p \<le> 0 \<and> ep_equity p = ep_cash p + ep_position_value p"
      unfolding curve_inv_def Let_def by blast+
    have "sorted_wrt (<) (map ep_ts (rs_equity_curve st'))"
      using c(5) points(1) clock(1) l(10) by (fastforce simp: st' sorted_wrt_append)
    moreover have "\<forall>p \<in> set (rs_equity_curve st'). ep_ts p \<le> ck_ts (rs_clock st')"
      using points(1) clock l(10) by (fastforce simp: st')
    moreover have "\<forall>p \<in> set (rs_equity_curve st'). ep_drawdown p \<le> 0 \<and>
        ep_equity p = ep_cash p + ep_position_value p"
      using points(2) dd l(11) by (auto simp: st')
    moreover have "map ep_step (rs_equity_curve st') = map ss_step (ac_steps (rs_attribution st'))"
      "map ep_ts (rs_equity_curve st') = map ss_ts (ac_steps (rs_attribution st'))"
      using c(3,4) l(9,10) by (simp_all add: st' collect_def)
    moreover have "last_equity capital (rs_equity_curve st') = ep_equity point"
      by (simp add: st' last_equity_def)
    moreover have "ep_equity point = capital + sum_list (map ss_step_pnl (ac_steps (rs_attribution st')))"
      using c(1,2) l(6) by (simp add: st')
    moreover have "lg_prev_equity (bk_ledger (rs_books st')) = ep_equity point"
      using l(7) by (simp add: st')
    ultimately show ?thesis by (simp only: curve_inv_def Let_def simp_thms)
  qed
  ultimately show ?thesis using l(2,3,8,9,10) by (simp add: core_inv_def settled_def st' Let_def)
qed

lemma engine_step_inv:
  assumes "engine_step X R SY EM snap is_last st = Inr st'" and "run_inv capital m st"
    and "sp_mult (cs_spec snap) = m"
  shows "run_inv capital m st' \<and> settled snap st'"
  using engine_step_core [OF assms(1)] assms(2,3) by (auto simp: run_inv_def)

section \<open>A successful run\<close>

lemma run_backtest_Inr:
  assumes "run_backtest X R seed config F f EM x SY s name = Some (Inr run)"
  obtains f' current st st' last_ts where
    "fits I64 (bc_initial_capital config)" and "0 < bc_initial_capital config"
    and "df_next F f = Inr (f', Some current)"
    and "run_on_start R SY EM current
      (run_state_new s x (seed (bc_seed config)) (bc_initial_capital config)) = Inr st"
    and "run_loop (engine_step X R SY EM) (df_next F) (tm_final_step (df_tape_meta F f)) current f' st
      = Some (Inr (st', last_ts))"
    and "run = assemble_run X name (bc_initial_capital config) (df_tape_meta F f) (df_meta F f) st' last_ts"
  using assms
  by (auto simp: run_backtest_def Let_def res_simps intro: that
      split: option.splits sum.splits if_splits)

lemma run_backtest_starts:
  assumes "fits I64 (bc_initial_capital config)" and "0 < bc_initial_capital config"
    and "tm_non_empty (df_tape_meta F f)" and "fits U32 (tm_final_step (df_tape_meta F f))"
    and "df_next F f = Inr (f', Some current)"
    and "run_on_start R SY EM current
      (run_state_new s x (seed (bc_seed config)) (bc_initial_capital config)) = Inr st"
    and "run_loop (engine_step X R SY EM) (df_next F) (tm_final_step (df_tape_meta F f)) current f' st
      = Some (Inr (st', last_ts))"
  shows "run_backtest X R seed config F f EM x SY s name = Some (Inr
    (assemble_run X name (bc_initial_capital config) (df_tape_meta F f) (df_meta F f) st' last_ts))"
proof -
  have "fits Usize (tm_final_step (df_tape_meta F f))" "fits Usize (tm_final_step (df_tape_meta F f) + 1)"
    using assms(4) by (simp_all add: width_simps)
  with assms show ?thesis by (simp add: run_backtest_def Let_def checked_add_def)
qed

text \<open>The multiplier of a tape.\<close>

definition has_mult :: "int \<Rightarrow> chain_snapshot \<Rightarrow> bool" where
  "has_mult m snap \<longleftrightarrow> sp_mult (cs_spec snap) = m"

text \<open>
  An invariant of the startup and of every step on a snapshot in \<open>P\<close> holds at the end of a run
  over a feed of such snapshots.
\<close>

lemma run_ends_in:
  fixes seed :: "int \<Rightarrow> 'r" and x :: 'x and s :: 's and run :: "('d, 'e) backtest_run"
    and I :: "('s, 'x, 'r, 'e) run_state \<Rightarrow> bool"
  assumes "run_backtest X R seed config F f EM x SY s name = Some (Inr run)"
    and "feed_yields good P (df_next F)" and "good f"
    and begins: "\<And>snap st. P snap \<Longrightarrow> run_on_start R SY EM snap
      (run_state_new s x (seed (bc_seed config)) (bc_initial_capital config)) = Inr st \<Longrightarrow> I st"
    and steps: "\<And>t t' snap is_last. I t \<Longrightarrow> P snap \<Longrightarrow> engine_step X R SY EM snap is_last t = Inr t' \<Longrightarrow>
      I t' \<and> settled snap t'"
  obtains st :: "('s, 'x, 'r, 'e) run_state" and snap where
    "I st" and "settled snap st" and "cs_step snap = tm_final_step (df_tape_meta F f)"
    and "run = assemble_run X name (bc_initial_capital config) (df_tape_meta F f) (df_meta F f) st (cs_ts snap)"
proof (rule run_backtest_Inr [OF assms(1)])
  fix f' current last_ts and st st' :: "('s, 'x, 'r, 'e) run_state"
  let ?capital = "bc_initial_capital config"
  assume first: "df_next F f = Inr (f', Some current)"
    and start: "run_on_start R SY EM current (run_state_new s x (seed (bc_seed config)) ?capital) = Inr st"
    and loop: "run_loop (engine_step X R SY EM) (df_next F) (tm_final_step (df_tape_meta F f)) current f' st
      = Some (Inr (st', last_ts))"
    and run: "run = assemble_run X name ?capital (df_tape_meta F f) (df_meta F f) st' last_ts"
  note good = feed_yieldsD [OF assms(2,3) first]
  then have "I st" using begins start by blast
  obtain t snap where t: "steps_reach P (engine_step X R SY EM) st t" "P snap"
      "cs_step snap = tm_final_step (df_tape_meta F f)" "cs_ts snap = last_ts"
      "engine_step X R SY EM snap True t = Inr st'"
    by (rule run_loop_reach [OF loop assms(2) conjunct1 [OF good] conjunct2 [OF good]])
  have "I t"
    by (rule steps_reach_invariant [where I = I, OF t(1) \<open>I st\<close>]) (rule conjunct1 [OF steps])
  with steps [OF _ t(2,5)] t(3,4) run show thesis by (intro that [of st' snap]) simp_all
qed

lemma run_ends_settled:
  fixes seed :: "int \<Rightarrow> 'r" and x :: 'x and s :: 's and run :: "('d, 'e) backtest_run"
  assumes "run_backtest X R seed config F f EM x SY s name = Some (Inr run)"
    and "feed_yields good (has_mult m) (df_next F)" and "good f"
  obtains st :: "('s, 'x, 'r, 'e) run_state" and snap where
    "run_inv (bc_initial_capital config) m st" and "settled snap st"
    and "cs_step snap = tm_final_step (df_tape_meta F f)"
    and "run = assemble_run X name (bc_initial_capital config) (df_tape_meta F f) (df_meta F f) st (cs_ts snap)"
proof (rule run_ends_in [OF assms, where I = "run_inv (bc_initial_capital config) m"])
  show "run_inv (bc_initial_capital config) m st" if "has_mult m snap"
    "run_on_start R SY EM snap (run_state_new s x (seed (bc_seed config)) (bc_initial_capital config)) = Inr st"
    for snap and st :: "('s, 'x, 'r, 'e) run_state"
    using starts_inv [OF that(2)] that(1) by (simp add: has_mult_def)
qed (auto simp: has_mult_def dest: engine_step_inv intro: that)

lemma run_ends_consistent:
  fixes seed :: "int \<Rightarrow> 'r" and x :: 'x and s :: 's and run :: "('d, 'e) backtest_run"
  assumes "run_backtest X R seed config F f EM x SY s name = Some (Inr run)"
  obtains st :: "('s, 'x, 'r, 'e) run_state" and snap where
    "core_inv (bc_initial_capital config) st" and "settled snap st"
    and "cs_step snap = tm_final_step (df_tape_meta F f)"
    and "run = assemble_run X name (bc_initial_capital config) (df_tape_meta F f) (df_meta F f) st (cs_ts snap)"
proof (rule run_ends_in [OF assms, where I = "core_inv (bc_initial_capital config)"
      and good = "\<lambda>_. True" and P = "\<lambda>_. True"])
  show "feed_yields (\<lambda>_. True) (\<lambda>_. True) (df_next F)" by (simp add: feed_yields_def)
  show "core_inv (bc_initial_capital config) st"
    if "run_on_start R SY EM snap (run_state_new s x (seed (bc_seed config)) (bc_initial_capital config)) = Inr st"
    for snap and st :: "('s, 'x, 'r, 'e) run_state"
    using starts_inv [OF that] by simp
qed (auto dest: engine_step_core [OF _ _ refl] intro: that)

section \<open>What a run reports\<close>

lemma dollars_diff: "dollars a - dollars b = dollars (a - b)"
  by (simp add: dollars_def diff_divide_distrib)

text \<open>
  C1. The profit of any successful run is the sum of what the attribution explains: if the attribution pass
  over the run's samples succeeds, the final capital exceeds the initial capital by exactly
  the total of all its rows (theta, delta, vega, captured spread, less fees, plus residual),
  and there is one row for each point of the equity curve.
\<close>

theorem run_profit_attributed:
  assumes "run_backtest X R seed config F f EM x SY s name = Some (Inr run)"
    and "attribute X (br_substrate run) = Inr rows"
  shows "br_final_capital run - br_initial_capital run = dollars (sum_list (map row_total rows)) \<and>
    map ar_ts rows = map ep_ts (br_equity_curve run)"
proof (rule run_ends_consistent [OF assms(1)])
  fix st snap
  assume inv: "core_inv (bc_initial_capital config) st"
    and run: "run = assemble_run X name (bc_initial_capital config) (df_tape_meta F f) (df_meta F f) st (cs_ts snap)"
  note rows = attribution_rows [OF assms(2)]
  have "br_substrate run = into_substrate (rs_attribution st)" by (simp add: run assemble_run_def)
  with rows have "map row_total rows = map ss_step_pnl (ac_steps (rs_attribution st))"
    "map ar_ts rows = map ss_ts (ac_steps (rs_attribution st))"
    by (simp_all add: into_substrate_def)
  moreover have "br_final_capital run = dollars (last_equity (bc_initial_capital config) (rs_equity_curve st))"
    "br_initial_capital run = dollars (bc_initial_capital config)"
    "br_equity_curve run = rs_equity_curve st"
    by (simp_all add: run assemble_run_def last_equity_def)
  ultimately show ?thesis
    using inv by (simp add: core_inv_def curve_inv_def Let_def dollars_diff)
qed

text \<open>
  C2. Cash, fees and slippage of a run are those of its fills, to the cent: on a tape with one
  multiplier the cash of the last equity point is the capital plus the signed notional of
  every recorded fill less its fees, and over the steps the fees charged and the spread
  captured add up to the fees and the slippage of exactly these fills.
\<close>

theorem run_cash_is_of_fills:
  assumes "run_backtest X R seed config F f EM x SY s name = Some (Inr run)"
    and "feed_yields good (has_mult m) (df_next F)" and "good f"
  shows "ep_cash (last (br_equity_curve run)) =
      bc_initial_capital config + sum_list (map (\<lambda>r. cash_flow (fr_fill r) m) (br_fills run)) \<and>
    sum_list (map ss_fees (as_steps (br_substrate run))) = sum_list (map (\<lambda>r. fl_fees (fr_fill r)) (br_fills run)) \<and>
    sum_list (map ss_spread_capture (as_steps (br_substrate run))) =
      - sum_list (map (\<lambda>r. fl_slippage (fr_fill r) * m) (br_fills run))"
proof (rule run_ends_settled [OF assms])
  fix st snap
  assume inv: "run_inv (bc_initial_capital config) m st" and settled: "settled snap st"
    and run: "run = assemble_run X name (bc_initial_capital config) (df_tape_meta F f) (df_meta F f) st (cs_ts snap)"
  have "br_equity_curve run = rs_equity_curve st" "br_fills run = bd_fills (bk_bundle (rs_books st))"
    "as_steps (br_substrate run) = ac_steps (rs_attribution st)"
    by (simp_all add: run assemble_run_def into_substrate_def)
  with inv settled show ?thesis
    by (simp add: run_inv_def core_inv_def totals_inv_def settled_def booked_fills_def Let_def comp_def)
qed

text \<open>
  C4. The equity curve of any successful run is well formed: its timestamps increase strictly, every point is
  cash plus position value, no drawdown is positive, and the last point is that of the tape's
  final step, whose timestamp is the end of the reported period and whose equity is the final
  capital.
\<close>

theorem run_curve_well_formed:
  assumes "run_backtest X R seed config F f EM x SY s name = Some (Inr run)"
  shows "sorted_wrt (<) (map ep_ts (br_equity_curve run)) \<and> br_equity_curve run \<noteq> [] \<and>
    (\<forall>p \<in> set (br_equity_curve run). ep_equity p = ep_cash p + ep_position_value p \<and> ep_drawdown p \<le> 0) \<and>
    (let p = last (br_equity_curve run) in
       ep_step p = tm_final_step (df_tape_meta F f) \<and>
       br_period_end run = dt_from_nanos X (ep_ts p) \<and> br_final_capital run = dollars (ep_equity p))"
proof (rule run_ends_consistent [OF assms])
  fix st snap
  assume inv: "core_inv (bc_initial_capital config) st" and settled: "settled snap st"
    and final: "cs_step snap = tm_final_step (df_tape_meta F f)"
    and run: "run = assemble_run X name (bc_initial_capital config) (df_tape_meta F f) (df_meta F f) st (cs_ts snap)"
  have curve: "br_equity_curve run = rs_equity_curve st" by (simp add: run assemble_run_def)
  from inv have "sorted_wrt (<) (map ep_ts (rs_equity_curve st))"
    "\<forall>p \<in> set (rs_equity_curve st). ep_equity p = ep_cash p + ep_position_value p \<and> ep_drawdown p \<le> 0"
    unfolding core_inv_def curve_inv_def Let_def by blast+
  with settled final show ?thesis
    by (simp add: curve settled_def Let_def) (simp add: run assemble_run_def)
qed

text \<open>
  C3. In every state a run reaches, after startup and any number of successful steps on snapshots
  of one multiplier, the records agree: the three books describe the same open legs, the leg
  counts of the samples partition their buffer, cash, fees and slippage are those of the
  fills booked so far, and the equity curve and the samples describe the same steps.
\<close>

theorem reachable_state_consistent:
  assumes "run_on_start R SY EM first (run_state_new s x rng capital) = Inr st"
    and "has_mult m first" and "steps_reach (has_mult m) (engine_step X R SY EM) st t"
  shows "books_sync (rs_books t) \<and> collector_inv (rs_attribution t) \<and> totals_inv capital m t \<and>
    curve_inv capital t"
proof -
  have "run_inv capital m st"
    using run_on_start_inv [OF assms(1) run_inv_new] assms(2) by (simp add: has_mult_def run_state_new_def)
  then have "run_inv capital m t"
    by (rule steps_reach_invariant [where I = "run_inv capital m", OF assms(3)])
      (auto simp: has_mult_def dest: engine_step_inv)
  then show ?thesis by (simp add: run_inv_def core_inv_def)
qed

section \<open>A run\<close>

text \<open>Short two calls at the start, hold them over one snapshot, close them at the end.\<close>

definition close_of :: "open_position \<Rightarrow> order_command" where
  "close_of l = Submit \<lparr>oi_contract = op_contract l, oi_action = Close (op_id l), oi_side = Long,
     oi_quantity = op_quantity l, oi_limit = None, oi_tif = Ioc, oi_decision_mid = 120\<rparr>"

definition sample_strategy :: "(unit, int, nat) strategy" where
  "sample_strategy = \<lparr>
     sy_on_start = (\<lambda>ctx out s. Inr (s, cx_rng ctx, out @ [Submit sample_intent])),
     sy_exits = (\<lambda>ctx out s. Inr (s, out)),
     sy_on_snapshot = (\<lambda>ctx out s. Inr (s, cx_rng ctx + 1, out)),
     sy_on_end = (\<lambda>ctx out s. Inr (s, cx_rng ctx, out @ map close_of (cx_open ctx))),
     sy_exit_reason = (\<lambda>_. 7)\<rparr>"

definition sample_feed :: "(parquet_feed, unit data_source_spec) data_feed" where
  "sample_feed = parquet_data_feed"

definition sample_run :: "(unit data_source_spec, nat) backtest_run res option" where
  "sample_run = run_backtest exact_ext sample_api (\<lambda>n. n) sample_config sample_feed
     (shared_feed \<lparr>sp_tape = sample_tape\<rparr>) (naive_model exact_ext) sample_naive
     sample_strategy () ''sample''"

definition sample_start :: "(unit, naive_fill, int, nat) run_state res" where
  "sample_start = run_on_start sample_api sample_strategy (naive_model exact_ext) sample_snapshot
     (run_state_new () sample_naive (bc_seed sample_config) (bc_initial_capital sample_config))"

definition sample_loop :: "((unit, naive_fill, int, nat) run_state \<times> int) res" where
  "sample_loop = rbind sample_start
     (tape_loop (engine_step exact_ext sample_api sample_strategy (naive_model exact_ext)) 1
        sample_snapshot [sample_snapshot\<lparr>cs_ts := 6, cs_step := 1\<rparr>])"

lemma sample_loop_evaluates:
  "case sample_loop of Inl _ \<Rightarrow> False | Inr (st, t) \<Rightarrow> length (bd_fills (bk_bundle (rs_books st))) = 2 \<and>
     (case attribute exact_ext (into_substrate (rs_attribution st)) of Inl _ \<Rightarrow> False
      | Inr rows \<Rightarrow> map row_total rows = [- 1230, - 1230])"
  by code_simp

lemma sample_run_ends:
  "\<exists>st run rows. sample_start = Inr st \<and> sample_run = Some (Inr run) \<and> length (br_fills run) = 2 \<and>
     attribute exact_ext (br_substrate run) = Inr rows \<and> map row_total rows = [- 1230, - 1230]"
proof -
  let ?step = "engine_step exact_ext sample_api sample_strategy (naive_model exact_ext)"
  let ?feed = "shared_feed \<lparr>sp_tape = sample_tape\<rparr>"
  obtain st' t rows where loop: "sample_loop = Inr (st', t)"
    and st': "length (bd_fills (bk_bundle (rs_books st'))) = 2"
      "attribute exact_ext (into_substrate (rs_attribution st')) = Inr rows"
      "map row_total rows = [- 1230, - 1230]"
    using sample_loop_evaluates by (auto split: sum.splits)
  from loop [unfolded sample_loop_def rbind_Inr] obtain st where st: "sample_start = Inr st"
    and tape: "tape_loop ?step 1 sample_snapshot [sample_snapshot\<lparr>cs_ts := 6, cs_step := 1\<rparr>] st = Inr (st', t)"
    by blast
  have "parquet_remaining \<lparr>pf_tape = sample_tape, pf_cursor = 1\<rparr> = [sample_snapshot\<lparr>cs_ts := 6, cs_step := 1\<rparr>]"
    by (simp add: parquet_remaining_def sample_tape_def)
  then have loop: "run_loop ?step parquet_next 1 sample_snapshot \<lparr>pf_tape = sample_tape, pf_cursor = 1\<rparr> st = Some (Inr (st', t))"
    using tape by (simp add: parquet.run_loop_replays)
  let ?run = "assemble_run exact_ext ''sample'' (bc_initial_capital sample_config)
    (df_tape_meta sample_feed ?feed) (df_meta sample_feed ?feed) st' t"
  have run: "sample_run = Some (Inr ?run)"
    unfolding sample_run_def
  proof (rule run_backtest_starts)
    show "run_on_start sample_api sample_strategy (naive_model exact_ext) sample_snapshot
        (run_state_new () sample_naive (bc_seed sample_config) (bc_initial_capital sample_config)) = Inr st"
      using st by (simp add: sample_start_def)
    show "run_loop ?step (df_next sample_feed) (tm_final_step (df_tape_meta sample_feed ?feed)) sample_snapshot
        \<lparr>pf_tape = sample_tape, pf_cursor = 1\<rparr> st = Some (Inr (st', t))"
      using loop by (simp add: sample_feed_def parquet_data_feed_def parquet_tape_meta_def shared_feed_def
          sample_tape_def)
  qed (simp_all add: sample_config_def sample_feed_def parquet_data_feed_def parquet_tape_meta_def
      shared_feed_def parquet_next_def sample_tape_def width_simps)
  have "length (br_fills ?run) = 2" "attribute exact_ext (br_substrate ?run) = Inr rows"
    using st'(1,2) by (simp_all add: assemble_run_def)
  with st run st'(3) show ?thesis
    by (intro exI [of _ st] exI [of _ ?run] exI [of _ rows] conjI)
qed

lemma sample_feed_mult:
  "feed_yields (\<lambda>f. pf_tape f = sample_tape) (has_mult 100) (df_next sample_feed)"
  by (auto simp: feed_yields_def sample_feed_def parquet_data_feed_def parquet_next_def has_mult_def sample_tape_def
      sample_snapshot_def less_Suc_eq split: if_splits)

theorem run_profit_attributed_witness:
  "\<exists>run. sample_run = Some (Inr run) \<and> br_final_capital run - br_initial_capital run = dollars (- 2460)"
  using sample_run_ends
proof (elim exE conjE)
  fix st run rows
  assume run: "sample_run = Some (Inr run)" and rows: "attribute exact_ext (br_substrate run) = Inr rows"
    "map row_total rows = [- 1230, - 1230]"
  from run_profit_attributed [OF run [unfolded sample_run_def] rows(1)] run rows(2)
  show ?thesis by (intro exI [of _ run]) simp
qed

theorem run_cash_is_of_fills_witness:
  "\<exists>run. sample_run = Some (Inr run) \<and> length (br_fills run) = 2 \<and>
     ep_cash (last (br_equity_curve run)) =
       bc_initial_capital sample_config + sum_list (map (\<lambda>r. cash_flow (fr_fill r) 100) (br_fills run))"
proof -
  obtain run where run: "sample_run = Some (Inr run)" "length (br_fills run) = 2"
    using sample_run_ends by metis
  from run_cash_is_of_fills [OF run(1) [unfolded sample_run_def] sample_feed_mult] run
  show ?thesis by (intro exI [of _ run]) (simp add: shared_feed_def)
qed

theorem run_curve_well_formed_witness:
  "\<exists>run. sample_run = Some (Inr run) \<and> sorted_wrt (<) (map ep_ts (br_equity_curve run)) \<and>
     ep_step (last (br_equity_curve run)) = 1"
proof -
  obtain run where run: "sample_run = Some (Inr run)"
    using sample_run_ends by metis
  from run_curve_well_formed [OF run [unfolded sample_run_def]] run
  show ?thesis
    by (intro exI [of _ run]) (simp add: shared_feed_def sample_feed_def parquet_data_feed_def parquet_tape_meta_def sample_tape_def Let_def)
qed

theorem reachable_state_consistent_witness:
  "\<exists>st. sample_start = Inr st \<and> books_sync (rs_books st) \<and> curve_inv (bc_initial_capital sample_config) st"
proof -
  obtain st where st: "sample_start = Inr st"
    using sample_run_ends by metis
  have "has_mult 100 sample_snapshot" by (simp add: has_mult_def sample_snapshot_def)
  from reachable_state_consistent [OF st [unfolded sample_start_def] this steps_reach.start] st
  show ?thesis by blast
qed

end
