(* ===== verification/Strategy_Spec.thy ===== *)
theory Strategy_Spec
  imports Orders External "HOL-Library.Multiset"
begin

text \<open>
  Strategy specifications (\<open>src/domain/strategy_spec.rs\<close>): the named structures, the explicit
  leg set, and the canonical order of its legs, which makes two spellings of one set of legs
  one specification. The texts of decimals and instants are the printers of their crates.
\<close>

record iron_condor_spec =
  ics_underlying :: underlying
  ics_underlying_price :: price_cents
  ics_short_call_strike :: price_cents
  ics_short_put_strike :: price_cents
  ics_long_call_strike :: price_cents
  ics_long_put_strike :: price_cents
  ics_expiration :: expiration
  ics_iv :: rat
  ics_risk_free_rate :: rat
  ics_dividend_yield :: rat
  ics_quantity :: quantity
  ics_premium_short_call :: price_cents
  ics_premium_short_put :: price_cents
  ics_premium_long_call :: price_cents
  ics_premium_long_put :: price_cents
  ics_open_fee :: price_cents
  ics_close_fee :: price_cents

record short_strangle_spec =
  sss_underlying :: underlying
  sss_underlying_price :: price_cents
  sss_call_strike :: price_cents
  sss_put_strike :: price_cents
  sss_expiration :: expiration
  sss_call_iv :: rat
  sss_put_iv :: rat
  sss_risk_free_rate :: rat
  sss_dividend_yield :: rat
  sss_quantity :: quantity
  sss_premium_short_call :: price_cents
  sss_premium_short_put :: price_cents
  sss_open_fee_short_call :: price_cents
  sss_close_fee_short_call :: price_cents
  sss_open_fee_short_put :: price_cents
  sss_close_fee_short_put :: price_cents

record leg_spec =
  ls_side :: side
  ls_style :: option_style
  ls_strike :: price_cents
  ls_expiration :: expiration
  ls_quantity :: quantity
  ls_iv :: rat

record leg_set_spec =
  lss_underlying :: underlying
  lss_underlying_price :: price_cents
  lss_legs :: "leg_spec list"
  lss_risk_free_rate :: rat
  lss_dividend_yield :: rat

datatype strategy_spec =
    IronCondorSpec iron_condor_spec
  | ShortStrangleSpec short_strangle_spec
  | LegsSpec leg_set_spec

fun spec_kind :: "strategy_spec \<Rightarrow> string" where
  "spec_kind (IronCondorSpec _) = ''iron_condor''"
| "spec_kind (ShortStrangleSpec _) = ''short_strangle''"
| "spec_kind (LegsSpec _) = ''legs''"

section \<open>The order of legs\<close>

record texts =
  tx_decimal :: "rat \<Rightarrow> string"
  tx_instant :: "int \<Rightarrow> string"

definition expiration_text :: "texts \<Rightarrow> expiration \<Rightarrow> string" where
  "expiration_text T e =
     (case e of Days d \<Rightarrow> CHR ''d'' # tx_decimal T d | DateTime t \<Rightarrow> CHR ''t'' # tx_instant T t)"

text \<open>The derived order of \<open>Side\<close> has long before short.\<close>

fun side_cmp :: "side \<Rightarrow> side \<Rightarrow> ordering" where
  "side_cmp Long Short = OLess"
| "side_cmp Short Long = OGreater"
| "side_cmp _ _ = OEqual"

definition canonical_cmp :: "texts \<Rightarrow> leg_spec \<Rightarrow> leg_spec \<Rightarrow> ordering" where
  "canonical_cmp T a b =
     then_with (expiration_exact_cmp (ls_expiration a) (ls_expiration b))
     (then_with (cmp_of (ls_strike a) (ls_strike b))
     (then_with (style_cmp (ls_style a) (ls_style b))
     (then_with (side_cmp (ls_side a) (ls_side b))
     (then_with (cmp_of (ls_quantity a) (ls_quantity b))
     (then_with (cmp_of (ls_iv a) (ls_iv b))
     (then_with (cmp_of (tx_decimal T (ls_iv a)) (tx_decimal T (ls_iv b)))
     (cmp_of (expiration_text T (ls_expiration a)) (expiration_text T (ls_expiration b)))))))))"

text \<open>\<open>slice::sort_by\<close>: a stable sort.\<close>

fun insert_by :: "('a \<Rightarrow> 'a \<Rightarrow> ordering) \<Rightarrow> 'a \<Rightarrow> 'a list \<Rightarrow> 'a list" where
  "insert_by c x [] = [x]"
| "insert_by c x (y # ys) = (if c x y = OGreater then y # insert_by c x ys else x # y # ys)"

definition sort_by :: "('a \<Rightarrow> 'a \<Rightarrow> ordering) \<Rightarrow> 'a list \<Rightarrow> 'a list" where
  "sort_by c xs = foldr (insert_by c) xs []"

definition canonical :: "texts \<Rightarrow> strategy_spec \<Rightarrow> strategy_spec" where
  "canonical T spec =
     (case spec of
        LegsSpec s \<Rightarrow> LegsSpec (s\<lparr>lss_legs := sort_by (canonical_cmp T) (lss_legs s)\<rparr>)
      | _ \<Rightarrow> spec)"

section \<open>Comparing by parts\<close>

text \<open>
  A comparator of one part of a value: it orders the values, with ties between values that
  agree on the part. Parts compose lexicographically.
\<close>

locale part_comparator =
  fixes c :: "'a \<Rightarrow> 'a \<Rightarrow> ordering"
  assumes p_reverse: "c b a = reverse_ordering (c a b)"
    and p_trans: "c a b = OLess \<Longrightarrow> c b d = OLess \<Longrightarrow> c a d = OLess"
    and p_tie: "c a b = OEqual \<Longrightarrow> c a d = c b d"
begin

lemma p_tie_right: "c b d = OEqual \<Longrightarrow> c a b = c a d"
  using p_tie [of b d a] p_reverse [of a b] p_reverse [of a d] by simp

end

sublocale comparator \<subseteq> part_comparator c
  by unfold_locales (use c_equal c_reverse c_trans in \<open>blast | metis\<close>)+

lemma part_key: "part_comparator c \<Longrightarrow> part_comparator (\<lambda>a b. c (f a) (f b))"
  unfolding part_comparator_def by metis

lemma part_then_with:
  assumes f: "part_comparator cf" and g: "part_comparator cg"
  shows "part_comparator (\<lambda>a b. then_with (cf a b) (cg a b))"
proof
  fix a b d
  show "then_with (cf b a) (cg b a) = reverse_ordering (then_with (cf a b) (cg a b))"
    using part_comparator.p_reverse [OF f, of b a] part_comparator.p_reverse [OF g, of b a]
    by (cases "cf a b") auto
  show "then_with (cf a d) (cg a d) = then_with (cf b d) (cg b d)"
    if "then_with (cf a b) (cg a b) = OEqual"
    using that part_comparator.p_tie [OF f, of a b d] part_comparator.p_tie [OF g, of a b d]
    by (simp add: then_with_iff)
  assume "then_with (cf a b) (cg a b) = OLess" and "then_with (cf b d) (cg b d) = OLess"
  then show "then_with (cf a d) (cg a d) = OLess"
    using part_comparator.p_trans [OF f, of a b d] part_comparator.p_trans [OF g, of a b d]
      part_comparator.p_tie [OF f, of a b d] part_comparator.p_tie_right [OF f, of b d a]
    by (auto simp: then_with_iff)
qed

interpretation side_order: comparator side_cmp
proof
  show "side_cmp a b = OEqual \<longleftrightarrow> a = b" for a b by (cases a; cases b) auto
  show "side_cmp b a = reverse_ordering (side_cmp a b)" for a b by (cases a; cases b) auto
  show "side_cmp a d = OLess" if "side_cmp a b = OLess" "side_cmp b d = OLess" for a b d
    using that by (cases a; cases b; cases d) auto
qed

interpretation leg_order: comparator "canonical_cmp T" for T
proof -
  have "part_comparator (canonical_cmp T)"
    unfolding canonical_cmp_def [abs_def]
    by (intro part_then_with part_key [OF ecmp.part_comparator_axioms, where f = ls_expiration]
        part_key [OF cmp_of.part_comparator_axioms, where f = ls_strike]
        part_key [OF scmp.part_comparator_axioms, where f = ls_style]
        part_key [OF side_order.part_comparator_axioms, where f = ls_side]
        part_key [OF cmp_of.part_comparator_axioms, where f = ls_quantity]
        part_key [OF cmp_of.part_comparator_axioms, where f = ls_iv]
        part_key [OF cmp_of.part_comparator_axioms, where f = "\<lambda>l. tx_decimal T (ls_iv l)"]
        part_key [OF cmp_of.part_comparator_axioms, where f = "\<lambda>l. expiration_text T (ls_expiration l)"])
  note part = part_comparator.p_reverse [OF this] part_comparator.p_trans [OF this]
  show "comparator (canonical_cmp T)"
  proof
    show "canonical_cmp T a b = OEqual \<longleftrightarrow> a = b" for a b
      by (auto simp: canonical_cmp_def then_with_iff ecmp.c_equal scmp.c_equal side_order.c_equal
          cmp_of.c_equal)
  qed (rule part, (assumption | rule part)+)
qed

section \<open>Sorting by a comparator\<close>

lemma insert_by_mset [simp]: "mset (insert_by c x ys) = add_mset x (mset ys)"
  by (induction ys) auto

lemma sort_by_mset [simp]: "mset (sort_by c xs) = mset xs"
  by (induction xs) (auto simp: sort_by_def)

lemma sort_by_length [simp]: "length (sort_by c xs) = length xs"
  by (metis size_mset sort_by_mset)

context comparator
begin

definition le :: "'a \<Rightarrow> 'a \<Rightarrow> bool" where
  "le a b \<longleftrightarrow> c a b \<noteq> OGreater"

lemma insert_by_sorted: "sorted_wrt le ys \<Longrightarrow> sorted_wrt le (insert_by c x ys)"
proof (induction ys)
  case (Cons y ys)
  have "set (insert_by c x ys) = insert x (set ys)"
    by (metis insert_by_mset set_mset_add_mset_insert set_mset_mset)
  with Cons c_total [of x y] c_le_trans [of x y] show ?case
    by (auto simp: le_def)
qed simp

lemma sort_by_sorted: "sorted_wrt le (sort_by c xs)"
  by (induction xs) (auto simp: sort_by_def insert_by_sorted)

lemma sorted_mset_unique:
  "sorted_wrt le xs \<Longrightarrow> sorted_wrt le ys \<Longrightarrow> mset xs = mset ys \<Longrightarrow> xs = ys"
proof (induction xs arbitrary: ys)
  case (Cons x xs)
  then obtain y ys' where ys: "ys = y # ys'" by (cases ys) auto
  have "set (x # xs) = set ys" by (rule mset_eq_setD [OF Cons.prems(3)])
  then have "le x y" "le y x"
    using Cons.prems(1,2) by (auto simp: ys le_def c_refl)
  then have "x = y" by (simp add: le_def c_antisym)
  with Cons show ?case by (simp add: ys)
qed simp

lemma sort_by_order_free: "mset xs = mset ys \<Longrightarrow> sort_by c xs = sort_by c ys"
  by (rule sorted_mset_unique) (simp_all add: sort_by_sorted)

lemma sort_by_idem: "sort_by c (sort_by c xs) = sort_by c xs"
  by (rule sort_by_order_free) simp

end

lemma canonical_idem: "canonical T (canonical T spec) = canonical T spec"
  by (cases spec) (simp_all add: canonical_def leg_order.sort_by_idem)

lemma canonical_order_free:
  "mset legs = mset (lss_legs s) \<Longrightarrow>
     canonical T (LegsSpec (s\<lparr>lss_legs := legs\<rparr>)) = canonical T (LegsSpec s)"
  using leg_order.sort_by_order_free [of legs "lss_legs s" T] by (simp add: canonical_def)

end
