(* ===== verification/Exit_Policy.thy ===== *)
theory Exit_Policy
  imports Strategy_Seam Chain_Convert Ledger
begin

text \<open>
  What every strategy of \<open>src/engine/strategy.rs\<close> shares: the decision of an exit policy for one
  open leg, the closing commands, and the closing of what is still open at the end of the data.
  The policy type, its evaluation for the leaves the crate supports and the exit reasons are
  \<open>optionstratlib\<close>'s: the constructors the code matches on are a datatype, the rest is a
  parameter.
\<close>

datatype (plugins del: quickcheck_narrowing quickcheck_exhaustive quickcheck_random quickcheck_full_exhaustive lifting transfer)
  exit_policy =
    ProfitPercent rat | LossPercent rat | Expiration | DaysToExpiration rat | TimeSteps int
  | MinPrice rat | MaxPrice rat | FixedPrice rat | DeltaThreshold rat
  | And "exit_policy list" | Or "exit_policy list" | OtherPolicy string

text \<open>\<open>check_exit_policy(..).is_some()\<close>, the \<open>ExitReason\<close> constructors and \<open>Display\<close>.\<close>

record 'e policy_api =
  pa_check :: "exit_policy \<Rightarrow> rat \<Rightarrow> rat \<Rightarrow> int \<Rightarrow> rat \<Rightarrow> rat \<Rightarrow> bool \<Rightarrow> bool"
  pa_target :: 'e
  pa_stop_loss :: 'e
  pa_expiration :: 'e
  pa_other :: "string \<Rightarrow> 'e"
  pa_display :: "exit_policy \<Rightarrow> string"

definition exit_policy_to_reason :: "'e policy_api \<Rightarrow> exit_policy \<Rightarrow> 'e" where
  "exit_policy_to_reason A policy =
     (case policy of
        ProfitPercent _ \<Rightarrow> pa_target A
      | LossPercent _ \<Rightarrow> pa_stop_loss A
      | Expiration \<Rightarrow> pa_expiration A
      | DaysToExpiration _ \<Rightarrow> pa_expiration A
      | TimeSteps _ \<Rightarrow> pa_other A ''time_steps''
      | MinPrice _ \<Rightarrow> pa_stop_loss A
      | MaxPrice _ \<Rightarrow> pa_target A
      | FixedPrice _ \<Rightarrow> pa_target A
      | _ \<Rightarrow> pa_other A (pa_display A policy))"

fun policy_reads_inner :: "exit_policy \<Rightarrow> bool" where
  "policy_reads_inner (And ps) = list_ex policy_reads_inner ps"
| "policy_reads_inner (Or ps) = list_ex policy_reads_inner ps"
| "policy_reads_inner _ = False"

fun policy_triggered ::
    "'e policy_api \<Rightarrow> exit_policy \<Rightarrow> rat \<Rightarrow> rat \<Rightarrow> int \<Rightarrow> rat \<Rightarrow> rat \<Rightarrow> bool \<Rightarrow> bool" where
  "policy_triggered A (And ps) ini cur step days u is_long =
     list_all (\<lambda>p. policy_triggered A p ini cur step days u is_long) ps"
| "policy_triggered A (Or ps) ini cur step days u is_long =
     list_ex (\<lambda>p. policy_triggered A p ini cur step days u is_long) ps"
| "policy_triggered A Expiration ini cur step days u is_long = (days = 0)"
| "policy_triggered A (DeltaThreshold _) ini cur step days u is_long = False"
| "policy_triggered A leaf ini cur step days u is_long = pa_check A leaf ini cur step days u is_long"

section \<open>One leg\<close>

definition days_to_expiry :: "ext \<Rightarrow> contract_key \<Rightarrow> int \<Rightarrow> rat res" where
  "days_to_expiry X contract ts =
     rbind (expiration_ns X contract) (\<lambda>e.
     let diff = e - ts in
     if diff \<le> 0 then Inr 0
     else rbind (ok_or (dec_div X (of_int diff) (of_int convert_nanos_per_day)) ArithmeticOverflow) (\<lambda>days.
          ok_or (positive_new X days) (Strategy (MsgDaysNotPositive days))))"

definition current_premium ::
    "chain_snapshot \<Rightarrow> (contract_key, price_cents) btmap \<Rightarrow> open_position \<Rightarrow> rat" where
  "current_premium snap marks leg =
     to_decimal_dollars
       (case bt_get (cs_quotes snap) (op_contract leg) of
          Some q \<Rightarrow> qv_mid q
        | None \<Rightarrow> unwrap_or (op_entry_premium leg) (bt_get marks (op_contract leg)))"

fun flip_side :: "side \<Rightarrow> side" where
  "flip_side Long = Short"
| "flip_side Short = Long"

definition close_command_qty :: "chain_snapshot \<Rightarrow> open_position \<Rightarrow> quantity \<Rightarrow> order_command" where
  "close_command_qty snap leg quantity =
     (let decision_mid = (case bt_get (cs_quotes snap) (op_contract leg) of
            None \<Rightarrow> op_entry_premium leg | Some q \<Rightarrow> qv_mid q) in
      Submit \<lparr>oi_contract = op_contract leg, oi_action = Close (op_id leg),
        oi_side = flip_side (op_side leg), oi_quantity = quantity, oi_limit = None, oi_tif = Ioc,
        oi_decision_mid = decision_mid\<rparr>)"

definition close_command :: "chain_snapshot \<Rightarrow> open_position \<Rightarrow> order_command" where
  "close_command snap leg = close_command_qty snap leg (op_quantity leg)"

section \<open>The exit phase\<close>

definition evaluate_leg ::
    "ext \<Rightarrow> 'e policy_api \<Rightarrow> exit_policy \<Rightarrow> 'r chain_context \<Rightarrow> rat \<Rightarrow> open_position
      \<Rightarrow> order_command list \<Rightarrow> order_command list res" where
  "evaluate_leg X A exit ctx underlying leg out =
     rbind (days_to_expiry X (op_contract leg) (cs_ts (cx_snapshot ctx))) (\<lambda>days_left.
     let is_long = (op_side leg = Long);
         ini = to_decimal_dollars (op_entry_premium leg);
         cur = current_premium (cx_snapshot ctx) (cx_marks ctx) leg in
     if policy_triggered A exit ini cur (cx_step ctx) days_left underlying is_long
     then Inr (out @ [close_command (cx_snapshot ctx) leg])
     else Inr out)"

definition evaluate_exits ::
    "ext \<Rightarrow> 'e policy_api \<Rightarrow> exit_policy \<Rightarrow> 'r chain_context \<Rightarrow> order_command list
      \<Rightarrow> order_command list res" where
  "evaluate_exits X A exit ctx out =
     rbind (positive_from_price X ''underlying'' (cs_price (cx_snapshot ctx))) (\<lambda>underlying.
     fold_res (evaluate_leg X A exit ctx underlying) (cx_open ctx) out)"

section \<open>The end of the data\<close>

definition scheduled_step :: "position_id \<Rightarrow> order_command \<Rightarrow> int \<Rightarrow> int res" where
  "scheduled_step pid cmd acc =
     (case cmd of
        Submit oi \<Rightarrow>
          if oi_action oi = Close pid then checked (checked_add U32 acc (oi_quantity oi)) else Inr acc
      | _ \<Rightarrow> Inr acc)"

definition scheduled_close_qty :: "order_command list \<Rightarrow> position_id \<Rightarrow> int res" where
  "scheduled_close_qty out pid = fold_res (scheduled_step pid) out 0"

definition pending_step :: "position_id \<Rightarrow> pending_order \<Rightarrow> int \<Rightarrow> int res" where
  "pending_step pid pend acc =
     (if oi_action (po_intent pend) = Close pid
      then checked (checked_add U32 acc (oi_quantity (po_intent pend))) else Inr acc)"

definition close_leg ::
    "pending_order list \<Rightarrow> chain_snapshot \<Rightarrow> open_position \<Rightarrow> order_command list \<Rightarrow> order_command list res" where
  "close_leg pending snap leg out =
     rbind (scheduled_close_qty out (op_id leg)) (\<lambda>scheduled.
     rbind (fold_res (pending_step (op_id leg)) pending scheduled) (\<lambda>scheduled.
     if scheduled \<ge> op_quantity leg then Inr out
     else rbind (checked (checked_sub U32 (op_quantity leg) scheduled)) (\<lambda>remaining.
          rbind (quantity_new remaining) (\<lambda>quantity.
          Inr (out @ [close_command_qty snap leg quantity])))))"

definition close_all ::
    "open_position list \<Rightarrow> pending_order list \<Rightarrow> chain_snapshot \<Rightarrow> order_command list
      \<Rightarrow> order_command list res" where
  "close_all open_legs pending snap out = fold_res (close_leg pending snap) open_legs out"

section \<open>How much of a leg is being closed\<close>

definition closing :: "position_id \<Rightarrow> order_intent \<Rightarrow> int" where
  "closing pid oi = (if oi_action oi = Close pid then oi_quantity oi else 0)"

definition close_quantity :: "order_command list \<Rightarrow> position_id \<Rightarrow> int" where
  "close_quantity cmds pid =
     sum_list (map (\<lambda>cmd. case cmd of Submit oi \<Rightarrow> closing pid oi | _ \<Rightarrow> 0) cmds)"

definition pending_close :: "pending_order list \<Rightarrow> position_id \<Rightarrow> int" where
  "pending_close pending pid = sum_list (map (closing pid \<circ> po_intent) pending)"

lemma close_quantity_simps [simp]:
  "close_quantity [] pid = 0"
  "close_quantity (cmds @ cmds') pid = close_quantity cmds pid + close_quantity cmds' pid"
  "close_quantity [Submit oi] pid = closing pid oi"
  "close_quantity (Submit oi # cmds) pid = closing pid oi + close_quantity cmds pid"
  by (simp_all add: close_quantity_def)

lemma closing_command [simp]:
  "close_quantity [close_command_qty snap leg q] pid = (if pid = op_id leg then q else 0)"
  by (simp add: close_command_qty_def closing_def)

lemma close_quantity_Cons: "close_quantity (cmd # cmds) pid = close_quantity [cmd] pid + close_quantity cmds pid"
  by (simp add: close_quantity_def)

lemma scheduled_step_Inr: "scheduled_step pid cmd acc = Inr n \<Longrightarrow> n = acc + close_quantity [cmd] pid"
  by (cases cmd) (auto simp: scheduled_step_def close_quantity_def closing_def res_simps checked_defs
      split: if_splits)

lemma scheduled_loop:
  "fold_res (scheduled_step pid) out acc = Inr n \<Longrightarrow> n = acc + close_quantity out pid"
proof (induction out arbitrary: acc)
  case (Cons cmd out)
  then obtain a where a: "scheduled_step pid cmd acc = Inr a" and rest: "fold_res (scheduled_step pid) out a = Inr n"
    by (auto simp: res_simps)
  from Cons.IH [OF rest] scheduled_step_Inr [OF a] show ?case by (simp add: close_quantity_Cons [of cmd out])
qed simp

lemma pending_step_Inr: "pending_step pid p acc = Inr n \<Longrightarrow> n = acc + closing pid (po_intent p)"
  by (auto simp: pending_step_def closing_def res_simps checked_defs split: if_splits)

lemma pending_loop:
  "fold_res (pending_step pid) pending acc = Inr n \<Longrightarrow> n = acc + pending_close pending pid"
proof (induction pending arbitrary: acc)
  case (Cons p pending)
  then obtain a where "pending_step pid p acc = Inr a" and "fold_res (pending_step pid) pending a = Inr n"
    by (auto simp: res_simps)
  with Cons.IH pending_step_Inr show ?case by (fastforce simp: pending_close_def)
qed (simp add: pending_close_def)

text \<open>The command \<open>close_all\<close> appends for a leg that is covered so far by \<open>scheduled\<close>.\<close>

definition top_up :: "pending_order list \<Rightarrow> chain_snapshot \<Rightarrow> order_command list \<Rightarrow> open_position \<Rightarrow> order_command list" where
  "top_up pending snap out leg =
     (let scheduled = close_quantity out (op_id leg) + pending_close pending (op_id leg) in
      if scheduled \<ge> op_quantity leg then []
      else [close_command_qty snap leg (op_quantity leg - scheduled)])"

lemma close_leg_Inr: "close_leg pending snap leg out = Inr out' \<Longrightarrow> out' = out @ top_up pending snap out leg"
  by (auto simp: close_leg_def top_up_def scheduled_close_qty_def res_simps checked_defs Let_def
      quantity_new_def dest!: scheduled_loop pending_loop split: if_splits)

lemma top_up_other:
  "op_id leg \<noteq> pid \<Longrightarrow> close_quantity (top_up pending snap out leg) pid = 0"
  by (simp add: top_up_def Let_def)

lemma top_up_cong:
  "close_quantity out (op_id leg) = close_quantity out' (op_id leg) \<Longrightarrow>
     top_up pending snap out leg = top_up pending snap out' leg"
  by (simp add: top_up_def)

lemma close_all_Inr:
  "close_all open_legs pending snap out = Inr out' \<Longrightarrow> distinct (map op_id open_legs) \<Longrightarrow>
     out' = out @ concat (map (top_up pending snap out) open_legs)"
  unfolding close_all_def
proof (induction open_legs arbitrary: out)
  case (Cons leg legs)
  from Cons.prems(1) obtain out1 where "close_leg pending snap leg out = Inr out1"
    and rest: "fold_res (close_leg pending snap) legs out1 = Inr out'"
    by (auto simp: res_simps)
  then have out1: "out1 = out @ top_up pending snap out leg" by (simp add: close_leg_Inr)
  have "top_up pending snap out1 l = top_up pending snap out l" if "l \<in> set legs" for l
  proof (rule top_up_cong)
    have "op_id leg \<noteq> op_id l" using Cons.prems(2) that by force
    then show "close_quantity out1 (op_id l) = close_quantity out (op_id l)"
      by (simp add: out1 top_up_other)
  qed
  then have same: "map (top_up pending snap out1) legs = map (top_up pending snap out) legs" by simp
  have "out' = out1 @ concat (map (top_up pending snap out1) legs)"
    using Cons.IH [OF rest] Cons.prems(2) by simp
  then show ?case unfolding same by (simp add: out1)
qed simp

lemma top_up_quantity:
  "close_quantity (top_up pending snap out leg) (op_id leg) =
     max 0 (op_quantity leg - close_quantity out (op_id leg) - pending_close pending (op_id leg))"
  by (auto simp: top_up_def Let_def)

lemma concat_top_up:
  assumes "distinct (map op_id legs)" and "leg \<in> set legs"
  shows "close_quantity (concat (map (top_up pending snap out) legs)) (op_id leg) =
    close_quantity (top_up pending snap out leg) (op_id leg)"
  using assms
proof (induction legs)
  case (Cons l legs)
  have none: "close_quantity (concat (map (top_up pending snap out) ls)) pid = 0"
    if "pid \<notin> op_id ` set ls" for ls pid
    using that by (induction ls) (auto simp: top_up_other)
  show ?case
  proof (cases "l = leg")
    case True
    with Cons.prems(1) show ?thesis by (simp add: none)
  next
    case False
    with Cons.prems have "leg \<in> set legs" "op_id l \<noteq> op_id leg" by auto
    with Cons show ?thesis by (simp add: top_up_other)
  qed
qed simp

text \<open>
  C35. The closes at the end of the data never over-close a leg and leave none uncovered: with
  the closes already in the queue and those resting in the market, the closes of a leg add up
  to exactly its open quantity, or to what was scheduled before when that was already more;
  every command appended is a close, at most one per leg.
\<close>

theorem close_all_covers:
  assumes "close_all open_legs pending snap out = Inr out'" and "distinct (map op_id open_legs)"
    and "leg \<in> set open_legs"
  shows "close_quantity out' (op_id leg) + pending_close pending (op_id leg) =
      max (op_quantity leg) (close_quantity out (op_id leg) + pending_close pending (op_id leg)) \<and>
    (\<exists>new. out' = out @ new \<and> length new \<le> length open_legs \<and>
      (\<forall>cmd \<in> set new. \<exists>l \<in> set open_legs. \<exists>q. 0 < q \<and> cmd = close_command_qty snap l q))"
proof -
  define new where "new = concat (map (top_up pending snap out) open_legs)"
  have out': "out' = out @ new"
    using close_all_Inr [OF assms(1,2)] by (simp add: new_def)
  have "length new \<le> length open_legs"
    unfolding new_def by (induction open_legs) (auto simp: top_up_def Let_def)
  moreover have "\<forall>cmd \<in> set new. \<exists>l \<in> set open_legs. \<exists>q. 0 < q \<and> cmd = close_command_qty snap l q"
  proof (intro ballI)
    fix cmd assume "cmd \<in> set new"
    then obtain l where "l \<in> set open_legs" and "cmd \<in> set (top_up pending snap out l)"
      by (auto simp: new_def)
    then show "\<exists>l \<in> set open_legs. \<exists>q. 0 < q \<and> cmd = close_command_qty snap l q"
      by (intro bexI [of _ l] exI [of _ "op_quantity l -
          (close_quantity out (op_id l) + pending_close pending (op_id l))"])
        (auto simp: top_up_def Let_def split: if_splits)
  qed
  ultimately show ?thesis
    using concat_top_up [OF assms(2,3)] by (auto simp: out' new_def top_up_quantity)
qed

definition exit_leg :: "position_id \<Rightarrow> quantity \<Rightarrow> open_position" where
  "exit_leg pid q = \<lparr>op_id = pid, op_contract = spx_call, op_side = Short, op_quantity = q,
     op_entry_premium = 120\<rparr>"

definition sample_close_all :: "order_command list res" where
  "sample_close_all = close_all [exit_leg 7 5, exit_leg 8 1]
     [\<lparr>po_id = 3, po_intent = \<lparr>oi_contract = spx_call, oi_action = Close 7, oi_side = Long, oi_quantity = 1,
        oi_limit = Some 100, oi_tif = Gtc, oi_decision_mid = 120\<rparr>\<rparr>]
     sample_snapshot [close_command_qty sample_snapshot (exit_leg 7 5) 2]"

theorem close_all_covers_witness:
  "\<exists>out'. sample_close_all = Inr out' \<and> close_quantity out' 7 = 4"
proof -
  obtain out' where out': "sample_close_all = Inr out'"
    by (simp add: sample_close_all_def close_all_def close_leg_def scheduled_close_qty_def
        scheduled_step_def pending_step_def close_command_qty_def exit_leg_def checked_defs
        fits_def quantity_new_def)
  from close_all_covers [OF this [unfolded sample_close_all_def], of "exit_leg 7 5"] out'
  show ?thesis
    by (auto simp: exit_leg_def pending_close_def closing_def)
qed

end
