(* ===== verification/Leg_Set.thy ===== *)
theory Leg_Set
  imports Exit_Policy Strategy_Spec
begin

text \<open>
  The strategies of \<open>src/engine/strategy.rs\<close> as instances of the strategy seam: the explicit leg
  set, and the adapter of an upstream strategy object with its two constructors. The upstream
  object is a parameter: its positions, and what a reprice does to it.
\<close>

section \<open>Rates and dollars\<close>

definition positive_dollars :: "ext \<Rightarrow> price_cents \<Rightarrow> rat res" where
  "positive_dollars X price =
     ok_or (positive_new X (to_decimal_dollars price)) (Conversion (MsgChain (MsgDollars price)))"

definition positive_rate :: "ext \<Rightarrow> rat \<Rightarrow> string \<Rightarrow> rat res" where
  "positive_rate X value field = ok_or (positive_new X value) (Strategy (MsgRateNegative field value))"

section \<open>The leg-set strategy\<close>

record leg_set_strategy =
  lt_legs :: "leg_spec list"
  lt_underlying :: underlying
  lt_entered :: bool
  lt_exit :: exit_policy

definition leg_set_new :: "ext \<Rightarrow> texts \<Rightarrow> leg_set_spec \<Rightarrow> exit_policy \<Rightarrow> leg_set_strategy res" where
  "leg_set_new X T spec exit =
     (if lss_legs spec = [] then Inl (Strategy MsgEmptyLegSet)
      else rbind (positive_rate X (lss_dividend_yield spec) ''leg set dividend yield'') (\<lambda>_.
           rbind (fold_res (\<lambda>leg _. rbind (positive_rate X (ls_iv leg) ''leg set implied volatility'')
                    (\<lambda>_. Inr ())) (lss_legs spec) ()) (\<lambda>_.
           Inr \<lparr>lt_legs = sort_by (canonical_cmp T) (lss_legs spec), lt_underlying = lss_underlying spec,
                lt_entered = False, lt_exit = exit\<rparr>)))"

definition leg_set_from_spec :: "ext \<Rightarrow> texts \<Rightarrow> strategy_spec \<Rightarrow> exit_policy \<Rightarrow> leg_set_strategy res" where
  "leg_set_from_spec X T spec exit =
     (case spec of
        LegsSpec inner \<Rightarrow> leg_set_new X T inner exit
      | _ \<Rightarrow> Inl (Strategy (MsgWrongSpec ''LegSetStrategy'' (spec_kind spec))))"

definition select_leg_set_quote :: "ext \<Rightarrow> chain_snapshot \<Rightarrow> leg_spec \<Rightarrow> quote_view res" where
  "select_leg_set_quote X snap leg =
     rbind (resolve_expiration X (ls_expiration leg) (cs_ts snap)) (\<lambda>e.
     ok_or (bt_get (cs_quotes snap) (ContractKey (cs_underlying snap) e (ls_strike leg) (ls_style leg)))
       (Execution (MsgOfStrategy (MsgNoLegSetQuote (ls_strike leg)))))"

definition entry_command :: "quote_view \<Rightarrow> side \<Rightarrow> quantity \<Rightarrow> order_command" where
  "entry_command quote sd quantity =
     Submit \<lparr>oi_contract = qv_contract quote, oi_action = Open, oi_side = sd, oi_quantity = quantity,
       oi_limit = None, oi_tif = Ioc, oi_decision_mid = qv_mid quote\<rparr>"

definition enter_leg :: "ext \<Rightarrow> chain_snapshot \<Rightarrow> leg_spec \<Rightarrow> order_command list \<Rightarrow> order_command list res" where
  "enter_leg X snap leg out =
     rbind (select_leg_set_quote X snap leg) (\<lambda>quote.
     Inr (out @ [entry_command quote (ls_side leg) (ls_quantity leg)]))"

definition leg_set_entries ::
    "ext \<Rightarrow> chain_snapshot \<Rightarrow> order_command list \<Rightarrow> leg_set_strategy
      \<Rightarrow> (leg_set_strategy \<times> order_command list) res" where
  "leg_set_entries X snap out s =
     (if lt_entered s then Inr (s, out)
      else if cs_underlying snap \<noteq> lt_underlying s
      then Inl (Execution (MsgOfStrategy (MsgLegSetUnderlying (lt_underlying s) (cs_underlying snap))))
      else rbind (fold_res (enter_leg X snap) (lt_legs s) out) (\<lambda>out.
           Inr (s\<lparr>lt_entered := True\<rparr>, out)))"

definition leg_set_on_start ::
    "ext \<Rightarrow> 'r chain_context \<Rightarrow> order_command list \<Rightarrow> leg_set_strategy
      \<Rightarrow> (leg_set_strategy \<times> 'r \<times> order_command list) res" where
  "leg_set_on_start X ctx out s =
     rbind (leg_set_entries X (cx_snapshot ctx) out s) (\<lambda>(s, out). Inr (s, cx_rng ctx, out))"

definition leg_set_exits ::
    "ext \<Rightarrow> 'e policy_api \<Rightarrow> 'r chain_context \<Rightarrow> order_command list \<Rightarrow> leg_set_strategy
      \<Rightarrow> (leg_set_strategy \<times> order_command list) res" where
  "leg_set_exits X A ctx out s =
     (if cx_open ctx = [] then Inr (s, out)
      else rbind (evaluate_exits X A (lt_exit s) ctx out) (\<lambda>out. Inr (s, out)))"

definition leg_set_on_snapshot ::
    "'r chain_context \<Rightarrow> order_command list \<Rightarrow> leg_set_strategy
      \<Rightarrow> (leg_set_strategy \<times> 'r \<times> order_command list) res" where
  "leg_set_on_snapshot ctx out s = Inr (s, cx_rng ctx, out)"

text \<open>\<open>on_end\<close> of both strategies.\<close>

definition close_at_end ::
    "'r chain_context \<Rightarrow> order_command list \<Rightarrow> 's \<Rightarrow> ('s \<times> 'r \<times> order_command list) res" where
  "close_at_end ctx out s =
     rbind (close_all (cx_open ctx) (cx_pending ctx) (cx_snapshot ctx) out) (\<lambda>out. Inr (s, cx_rng ctx, out))"

definition leg_set :: "ext \<Rightarrow> 'e policy_api \<Rightarrow> (leg_set_strategy, 'r, 'e) strategy" where
  "leg_set X A = \<lparr>
     sy_on_start = leg_set_on_start X,
     sy_exits = leg_set_exits X A,
     sy_on_snapshot = leg_set_on_snapshot,
     sy_on_end = close_at_end,
     sy_exit_reason = (\<lambda>s. exit_policy_to_reason A (lt_exit s))\<rparr>"

section \<open>The adapter of an upstream strategy\<close>

record leg_option =
  lo_strike :: rat
  lo_style :: option_style
  lo_expiration :: expiration
  lo_side :: side
  lo_quantity :: rat

record 'p positionable =
  ps_positions :: "'p \<Rightarrow> string + leg_option list"
  ps_set_underlying :: "rat \<Rightarrow> 'p \<Rightarrow> string + 'p"
  ps_set_iv :: "rat \<Rightarrow> 'p \<Rightarrow> string + 'p"

record 'p opt_adapter =
  oa_inner :: 'p
  oa_entered :: bool
  oa_exit :: exit_policy

definition opt_adapter_new :: "'p \<Rightarrow> exit_policy \<Rightarrow> 'p opt_adapter" where
  "opt_adapter_new inner exit = \<lparr>oa_inner = inner, oa_entered = False, oa_exit = exit\<rparr>"

definition assert_owned :: "'r chain_context \<Rightarrow> order_id \<Rightarrow> unit res" where
  "assert_owned ctx oid =
     (if list_ex (\<lambda>p. po_id p = oid) (cx_pending ctx) then Inr ()
      else Inl (Execution (MsgOfStrategy (MsgNotOwned oid))))"

definition request_cancel :: "'r chain_context \<Rightarrow> order_id \<Rightarrow> order_command list \<Rightarrow> order_command list res" where
  "request_cancel ctx oid out = rbind (assert_owned ctx oid) (\<lambda>_. Inr (out @ [Cancel oid]))"

definition request_replace ::
    "'r chain_context \<Rightarrow> order_id \<Rightarrow> order_intent \<Rightarrow> order_command list \<Rightarrow> order_command list res" where
  "request_replace ctx oid replacement out =
     rbind (assert_owned ctx oid) (\<lambda>_. Inr (out @ [Replace oid replacement]))"

definition quantity_from_positive :: "ext \<Rightarrow> rat \<Rightarrow> quantity res" where
  "quantity_from_positive X value =
     rbind (ok_or (dec_to X U32 (dec_round0 X value)) (Strategy (MsgLegCount value))) quantity_new"

definition select_leg_quote ::
    "chain_snapshot \<Rightarrow> price_cents \<Rightarrow> option_style \<Rightarrow> expiration \<Rightarrow> quote_view res" where
  "select_leg_quote snap strike style e =
     (case filter (\<lambda>q. ck_strike (qv_contract q) = strike \<and> ck_style (qv_contract q) = style)
             (bt_values (cs_quotes snap)) of
        [] \<Rightarrow> Inl (Execution (MsgOfStrategy (MsgNoLegQuote strike)))
      | [q] \<Rightarrow> Inr q
      | _ \<Rightarrow> ok_or (bt_get (cs_quotes snap) (ContractKey (cs_underlying snap) e strike style))
               (Execution (MsgOfStrategy (MsgNoLegExpiry strike))))"

definition enter_option ::
    "ext \<Rightarrow> chain_snapshot \<Rightarrow> leg_option \<Rightarrow> order_command list \<Rightarrow> order_command list res" where
  "enter_option X snap opt out =
     rbind (from_decimal_dollars X (lo_strike opt)) (\<lambda>strike.
     rbind (select_leg_quote snap strike (lo_style opt) (lo_expiration opt)) (\<lambda>quote.
     rbind (quantity_from_positive X (lo_quantity opt)) (\<lambda>quantity.
     Inr (out @ [entry_command quote (lo_side opt) quantity]))))"

definition foreign :: "(string \<Rightarrow> strategy_message) \<Rightarrow> string + 'a \<Rightarrow> 'a res" where
  "foreign msg r = (case r of Inl e \<Rightarrow> Inl (Strategy (msg e)) | Inr x \<Rightarrow> Inr x)"

definition adapter_entries ::
    "ext \<Rightarrow> 'p positionable \<Rightarrow> chain_snapshot \<Rightarrow> order_command list \<Rightarrow> 'p opt_adapter
      \<Rightarrow> ('p opt_adapter \<times> order_command list) res" where
  "adapter_entries X P snap out s =
     (if oa_entered s then Inr (s, out)
      else rbind (foreign MsgGetPositions (ps_positions P (oa_inner s))) (\<lambda>legs.
           rbind (fold_res (enter_option X snap) legs out) (\<lambda>out.
           Inr (if legs \<noteq> [] then s\<lparr>oa_entered := True\<rparr> else s, out))))"

definition reprice_inner ::
    "ext \<Rightarrow> rfc3339 \<Rightarrow> 'c chain_api \<Rightarrow> 'p positionable \<Rightarrow> chain_snapshot \<Rightarrow> 'p opt_adapter
      \<Rightarrow> 'p opt_adapter res" where
  "reprice_inner X D C P snap s =
     rbind (snapshot_to_option_chain X D C snap) (\<lambda>chain.
     rbind (foreign (MsgReprice ''underlying'') (ps_set_underlying P (ch_underlying_price C chain) (oa_inner s))) (\<lambda>inner.
     rbind (foreign (MsgReprice ''atm implied volatility'') (ch_atm_iv C chain)) (\<lambda>iv.
     rbind (foreign (MsgReprice ''implied volatility'') (ps_set_iv P iv inner)) (\<lambda>inner.
     Inr (s\<lparr>oa_inner := inner\<rparr>)))))"

definition adapter_exits ::
    "ext \<Rightarrow> rfc3339 \<Rightarrow> 'c chain_api \<Rightarrow> 'p positionable \<Rightarrow> 'e policy_api \<Rightarrow> 'r chain_context
      \<Rightarrow> order_command list \<Rightarrow> 'p opt_adapter \<Rightarrow> ('p opt_adapter \<times> order_command list) res" where
  "adapter_exits X D C P A ctx out s =
     (if cx_open ctx = [] then Inr (s, out)
      else rbind (if policy_reads_inner (oa_exit s) then reprice_inner X D C P (cx_snapshot ctx) s
                  else Inr s) (\<lambda>s.
           rbind (evaluate_exits X A (oa_exit s) ctx out) (\<lambda>out. Inr (s, out))))"

definition adapter_enter ::
    "ext \<Rightarrow> 'p positionable \<Rightarrow> 'r chain_context \<Rightarrow> order_command list \<Rightarrow> 'p opt_adapter
      \<Rightarrow> ('p opt_adapter \<times> 'r \<times> order_command list) res" where
  "adapter_enter X P ctx out s =
     rbind (adapter_entries X P (cx_snapshot ctx) out s) (\<lambda>(s, out). Inr (s, cx_rng ctx, out))"

definition opt_strat ::
    "ext \<Rightarrow> rfc3339 \<Rightarrow> 'c chain_api \<Rightarrow> 'p positionable \<Rightarrow> 'e policy_api \<Rightarrow> ('p opt_adapter, 'r, 'e) strategy" where
  "opt_strat X D C P A = \<lparr>
     sy_on_start = adapter_enter X P,
     sy_exits = adapter_exits X D C P A,
     sy_on_snapshot = adapter_enter X P,
     sy_on_end = close_at_end,
     sy_exit_reason = (\<lambda>s. exit_policy_to_reason A (oa_exit s))\<rparr>"

section \<open>Building the upstream objects\<close>

text \<open>The arguments of \<open>IronCondor::new\<close> and \<open>ShortStrangle::new\<close>, in their order.\<close>

definition dollars_all :: "ext \<Rightarrow> price_cents list \<Rightarrow> rat list \<Rightarrow> rat list res" where
  "dollars_all X prices acc =
     fold_res (\<lambda>p acc. rbind (positive_dollars X p) (\<lambda>d. Inr (acc @ [d]))) prices acc"

record upstream_args =
  ua_underlying :: string
  ua_prices :: "rat list" \<comment> \<open>the underlying price, then the strikes\<close>
  ua_expiration :: expiration
  ua_ivs :: "rat list"
  ua_risk_free_rate :: rat
  ua_dividend_yield :: rat
  ua_quantity :: rat
  ua_premiums_fees :: "rat list"

definition build_iron_condor ::
    "ext \<Rightarrow> (upstream_args \<Rightarrow> string + 'p) \<Rightarrow> iron_condor_spec \<Rightarrow> 'p res" where
  "build_iron_condor X upstream spec =
     rbind (ok_or (positive_new X (of_int (ics_quantity spec)))
              (Strategy (MsgSpecQuantity ''iron condor'' (ics_quantity spec)))) (\<lambda>quantity.
     rbind (dollars_all X [ics_underlying_price spec, ics_short_call_strike spec, ics_short_put_strike spec,
              ics_long_call_strike spec, ics_long_put_strike spec] []) (\<lambda>prices.
     rbind (positive_rate X (ics_iv spec) ''iron condor implied volatility'') (\<lambda>iv.
     rbind (positive_rate X (ics_dividend_yield spec) ''iron condor dividend yield'') (\<lambda>yield.
     rbind (dollars_all X [ics_premium_short_call spec, ics_premium_short_put spec,
              ics_premium_long_call spec, ics_premium_long_put spec, ics_open_fee spec,
              ics_close_fee spec] []) (\<lambda>rest.
     foreign (MsgConstruction ''iron condor'') (upstream
       \<lparr>ua_underlying = ics_underlying spec, ua_prices = prices, ua_expiration = ics_expiration spec,
        ua_ivs = [iv], ua_risk_free_rate = ics_risk_free_rate spec, ua_dividend_yield = yield,
        ua_quantity = quantity, ua_premiums_fees = rest\<rparr>))))))"

definition build_short_strangle ::
    "ext \<Rightarrow> (upstream_args \<Rightarrow> string + 'p) \<Rightarrow> short_strangle_spec \<Rightarrow> 'p res" where
  "build_short_strangle X upstream spec =
     rbind (ok_or (positive_new X (of_int (sss_quantity spec)))
              (Strategy (MsgSpecQuantity ''short strangle'' (sss_quantity spec)))) (\<lambda>quantity.
     rbind (dollars_all X [sss_underlying_price spec, sss_call_strike spec, sss_put_strike spec] []) (\<lambda>prices.
     rbind (positive_rate X (sss_call_iv spec) ''short strangle call implied volatility'') (\<lambda>call_iv.
     rbind (positive_rate X (sss_put_iv spec) ''short strangle put implied volatility'') (\<lambda>put_iv.
     rbind (positive_rate X (sss_dividend_yield spec) ''short strangle dividend yield'') (\<lambda>yield.
     rbind (dollars_all X [sss_premium_short_call spec, sss_premium_short_put spec,
              sss_open_fee_short_call spec, sss_close_fee_short_call spec, sss_open_fee_short_put spec,
              sss_close_fee_short_put spec] []) (\<lambda>rest.
     foreign (MsgConstruction ''short strangle'') (upstream
       \<lparr>ua_underlying = sss_underlying spec, ua_prices = prices, ua_expiration = sss_expiration spec,
        ua_ivs = [call_iv, put_iv], ua_risk_free_rate = sss_risk_free_rate spec,
        ua_dividend_yield = yield, ua_quantity = quantity, ua_premiums_fees = rest\<rparr>)))))))"

definition iron_condor_from_spec ::
    "ext \<Rightarrow> (upstream_args \<Rightarrow> string + 'p) \<Rightarrow> strategy_spec \<Rightarrow> exit_policy \<Rightarrow> 'p opt_adapter res" where
  "iron_condor_from_spec X upstream spec exit =
     (case spec of
        IronCondorSpec inner \<Rightarrow> rbind (build_iron_condor X upstream inner) (\<lambda>p. Inr (opt_adapter_new p exit))
      | _ \<Rightarrow> Inl (Strategy (MsgWrongSpec ''IronCondor'' (spec_kind spec))))"

definition short_strangle_from_spec ::
    "ext \<Rightarrow> (upstream_args \<Rightarrow> string + 'p) \<Rightarrow> strategy_spec \<Rightarrow> exit_policy \<Rightarrow> 'p opt_adapter res" where
  "short_strangle_from_spec X upstream spec exit =
     (case spec of
        ShortStrangleSpec inner \<Rightarrow> rbind (build_short_strangle X upstream inner) (\<lambda>p. Inr (opt_adapter_new p exit))
      | _ \<Rightarrow> Inl (Strategy (MsgWrongSpec ''ShortStrangle'' (spec_kind spec))))"

section \<open>Facts of the leg set\<close>

lemma positive_rate_Inr: "positive_rate X v field = Inr p \<longleftrightarrow> positive_new X v = Some p"
  by (simp add: positive_rate_def res_simps)

lemma rates_Inr:
  "fold_res (\<lambda>leg _. rbind (positive_rate X (ls_iv leg) field) (\<lambda>_. Inr ())) legs () = Inr u \<longleftrightarrow>
     (\<forall>leg \<in> set legs. positive_new X (ls_iv leg) \<noteq> None)"
  by (induction legs) (auto simp: res_simps positive_rate_Inr)

lemma leg_set_new_Inr:
  "leg_set_new X T spec exit = Inr s \<longleftrightarrow>
     lss_legs spec \<noteq> [] \<and> positive_new X (lss_dividend_yield spec) \<noteq> None \<and>
     (\<forall>leg \<in> set (lss_legs spec). positive_new X (ls_iv leg) \<noteq> None) \<and>
     s = \<lparr>lt_legs = sort_by (canonical_cmp T) (lss_legs spec), lt_underlying = lss_underlying spec,
          lt_entered = False, lt_exit = exit\<rparr>"
  by (auto simp: leg_set_new_def res_simps rates_Inr positive_rate_Inr)

text \<open>
  C36. The strategy built from a leg set does not depend on the order its legs are written
  in: one set of legs is one strategy, one sequence of entries, and so one sequence of ids.
\<close>

theorem leg_set_order_free:
  assumes "mset legs = mset (lss_legs spec)"
  shows "leg_set_from_spec X T (LegsSpec (spec\<lparr>lss_legs := legs\<rparr>)) exit = Inr s \<longleftrightarrow>
    leg_set_from_spec X T (LegsSpec spec) exit = Inr s"
  using leg_set_new_Inr [of X T "spec\<lparr>lss_legs := legs\<rparr>" exit s] leg_set_new_Inr [of X T spec exit s]
    leg_order.sort_by_order_free [OF assms, of T] mset_eq_setD [OF assms] assms
  by (auto simp: leg_set_from_spec_def)

definition sample_texts :: texts where
  "sample_texts = \<lparr>tx_decimal = (\<lambda>_. ''0''), tx_instant = (\<lambda>_. ''t'')\<rparr>"

definition sample_leg_spec :: "side \<Rightarrow> leg_spec" where
  "sample_leg_spec sd = \<lparr>ls_side = sd, ls_style = Call, ls_strike = 510000,
     ls_expiration = DateTime 1750291200000000000, ls_quantity = 2, ls_iv = 1 / 5\<rparr>"

definition sample_leg_set :: leg_set_spec where
  "sample_leg_set = \<lparr>lss_underlying = ''SPX'', lss_underlying_price = 510000,
     lss_legs = [sample_leg_spec Short, sample_leg_spec Long], lss_risk_free_rate = 0,
     lss_dividend_yield = 0\<rparr>"

theorem leg_set_order_free_witness:
  "\<exists>s. leg_set_from_spec exact_ext sample_texts
      (LegsSpec (sample_leg_set\<lparr>lss_legs := [sample_leg_spec Long, sample_leg_spec Short]\<rparr>)) Expiration = Inr s \<and>
     lt_legs s = [sample_leg_spec Long, sample_leg_spec Short]"
proof -
  let ?legs = "[sample_leg_spec Long, sample_leg_spec Short]"
  have sorted: "sort_by (canonical_cmp sample_texts) [sample_leg_spec Short, sample_leg_spec Long] = ?legs"
    by (simp add: sort_by_def canonical_cmp_def sample_leg_spec_def then_with_def cmp_of_def
        expiration_exact_cmp.simps style_cmp.simps)
  have rates: "positive_new exact_ext (lss_dividend_yield sample_leg_set) \<noteq> None"
    "\<forall>leg \<in> set (lss_legs sample_leg_set). positive_new exact_ext (ls_iv leg) \<noteq> None"
    by (simp_all add: sample_leg_set_def sample_leg_spec_def del: not_None_eq)
  let ?s = "\<lparr>lt_legs = sort_by (canonical_cmp sample_texts) (lss_legs sample_leg_set),
    lt_underlying = lss_underlying sample_leg_set, lt_entered = False, lt_exit = Expiration\<rparr>"
  have s: "leg_set_from_spec exact_ext sample_texts (LegsSpec sample_leg_set) Expiration = Inr ?s"
    using rates by (simp add: leg_set_from_spec_def leg_set_new_Inr sample_leg_set_def del: not_None_eq)
  have legs: "lt_legs ?s = ?legs" using sorted by (simp add: sample_leg_set_def)
  have "mset ?legs = mset (lss_legs sample_leg_set)" by (simp add: sample_leg_set_def)
  from leg_set_order_free [OF this, of exact_ext sample_texts Expiration ?s] s legs
  show ?thesis by (intro exI [of _ ?s] conjI) (rule iffD2)
qed

end
