(* ===== verification/Leg_Set_Run.thy ===== *)
theory Leg_Set_Run
  imports Leg_Set Run_Invariant
begin

text \<open>
  The leg-set strategy under naive execution, through a whole run: its commands are closes of
  open legs for their full quantity, the naive model fills each of them at once, and so the
  run ends with no position open.
\<close>

section \<open>Legs are never empty\<close>

definition positive_legs :: "'e books \<Rightarrow> bool" where
  "positive_legs b \<longleftrightarrow> (\<forall>l \<in> set (bk_inventory b). 0 < op_quantity l)"

lemma aggregate_positive: "aggregate_fills fs = Inr agg \<Longrightarrow> 0 < fa_quantity agg"
  using aggregate_fills_Inr [of fs agg] by (simp add: width_simps)

interpretation positive: books_invariant positive_legs
proof unfold_locales
  fix b b' :: "'e books" and fs agg tid f ts pid
  assume "positive_legs b" and agg: "aggregate_fills fs = Inr agg"
    and "open_new_leg tid f agg ts b = Inr (b', pid)"
  then show "positive_legs b'"
    using aggregate_positive [OF agg] by (auto simp: positive_legs_def open_new_leg_def res_simps)
next
  fix b b' :: "'e books" and fs agg tid f pid
  assume b: "positive_legs b" and "aggregate_fills fs = Inr agg"
    and e: "extend_leg tid pid fs f agg b = Inr b'"
  then obtain i q v where "bk_inventory b' = (bk_inventory b)[i := (bk_inventory b ! i)\<lparr>op_quantity := q, op_entry_premium := v\<rparr>]"
    and "0 < q"
    by (auto simp: extend_leg_def extend_open_leg_def res_simps Let_def quantity_new_def width_simps
        split: option.splits if_splits)
  with b show "positive_legs b'"
    by (auto simp: positive_legs_def dest!: set_update_subset_insert [THEN subsetD])
next
  fix b b' :: "'e books" and fs agg snap m ts oid pid reason base f
  assume b: "positive_legs b" and "aggregate_fills fs = Inr agg"
    and c: "close_position snap m ts oid pid reason base fs f agg b = Inr b'"
  from close_position_parts [OF c] obtain inventory full where
    r: "reduce_leg (bk_inventory b) pid (fa_quantity agg) = Inr (inventory, full)"
    and b': "bk_inventory b' = inventory" by metis
  from reduce_leg_Inr [OF r] obtain i where i: "position_of (\<lambda>l. op_id l = pid) (bk_inventory b) = Some i"
    and q: "fa_quantity agg \<le> op_quantity (bk_inventory b ! i)"
      "full \<longleftrightarrow> fa_quantity agg = op_quantity (bk_inventory b ! i)"
    and inv: "inventory = (if full then remove_at i (bk_inventory b) else (bk_inventory b)[i :=
        (bk_inventory b ! i)\<lparr>op_quantity := op_quantity (bk_inventory b ! i) - fa_quantity agg\<rparr>])"
    by blast
  have "set (remove_at i (bk_inventory b)) \<subseteq> set (bk_inventory b)"
    by (auto simp: remove_at_def dest: in_set_takeD in_set_dropD)
  with b q show "positive_legs b'"
    by (auto simp: positive_legs_def b' inv dest!: set_update_subset_insert [THEN subsetD])
qed (auto simp: positive_legs_def)

section \<open>A pass over closes\<close>

lemma reduce_whole:
  assumes "reduce_leg ls (op_id l) (op_quantity l) = Inr (ls', full)" and "l \<in> set ls"
    and "distinct (map op_id ls)"
  shows "ls' = filter (\<lambda>k. op_id k \<noteq> op_id l) ls"
proof -
  from reduce_leg_Inr [OF assms(1)] obtain i where i: "position_of (\<lambda>k. op_id k = op_id l) ls = Some i"
    and full: "full \<longleftrightarrow> op_quantity l = op_quantity (ls ! i)"
    and ls': "ls' = (if full then remove_at i ls
        else ls[i := (ls ! i)\<lparr>op_quantity := op_quantity (ls ! i) - op_quantity l\<rparr>])" by blast
  have "ls ! i = l"
    using position_leg_get(2) [OF i] leg_get_mem [OF assms(3,2)] by simp
  then have "ls' = remove_at i ls" using full ls' by simp
  also have "remove_at i ls = filter (\<lambda>k. op_id k \<noteq> op_id l) ls"
    using i assms(3)
  proof (induction ls arbitrary: i)
    case (Cons k ls)
    show ?case
    proof (cases "op_id k = op_id l")
      case True
      with Cons.prems have "i = 0" and "\<forall>x \<in> set ls. op_id x \<noteq> op_id l" by (auto simp: image_iff)
      with True show ?thesis by (simp add: remove_at_def)
    next
      case False
      with Cons.prems obtain j where "position_of (\<lambda>k. op_id k = op_id l) ls = Some j" "i = Suc j" by auto
      with Cons False show ?thesis by (simp add: remove_at_def)
    qed
  qed simp
  finally show ?thesis .
qed

text \<open>An immediate close takes the next fill and reduces its leg by it.\<close>

lemma close_step:
  assumes "command_step R reasons snap fills ids (idx, Submit oi) w = Inr w'"
    and "wk_groups w = None" and "oi_tif oi = Ioc" and "oi_action oi = Close pid"
  shows "wk_groups w' = None \<and> wk_cursor w' = Suc (wk_cursor w) \<and> wk_cursor w < length fills \<and>
    (\<exists>full. reduce_leg (bk_inventory (wk_books w)) pid (fl_quantity (fills ! wk_cursor w))
      = Inr (bk_inventory (wk_books w'), full))"
proof -
  from assms obtain oid ord where
    "fill_order R reasons snap fills idx oid oi 1 (w\<lparr>wk_ordinal := ord, wk_groups := None\<rparr>) = Inr w'"
    by (auto simp: command_step_def route_intent_def take_group_def res_simps Let_def split: if_splits)
  then obtain c fs first agg b where
    tk: "take_fills (Execution MsgPastFills) fills (wk_cursor w) 1 = Inr (c, fs)"
    and agg: "aggregate_fills fs = Inr agg"
    and close: "close_position snap (sp_mult (cs_spec snap)) (cs_ts snap) oid pid
        (reason_for R reasons idx) 0 fs first agg (wk_books w) = Inr b"
    and w': "w' = w\<lparr>wk_ordinal := ord, wk_groups := None, wk_cursor := c, wk_books := b\<rparr>"
    using assms(3,4) by (auto simp: fill_order_def fill_close_def rest_remainder_def res_simps Let_def)
  from take_fills_Inr [OF tk] have fs: "take c fills = take (wk_cursor w) fills @ fs" "c \<le> length fills"
    "length fs = 1" "wk_cursor w \<le> c" by auto
  then have c: "c = Suc (wk_cursor w)"
    by (metis One_nat_def add.commute length_append length_take min.absorb2 le_trans plus_1_eq_Suc)
  with fs have "fs = [fills ! wk_cursor w]"
    by (simp add: take_Suc_conv_app_nth)
  then have "fa_quantity agg = fl_quantity (fills ! wk_cursor w)"
    using aggregate_fills_Inr [OF agg] by simp
  with close_position_parts [OF close] c fs(2) show ?thesis
    by (auto simp: w')
qed

definition whole_closes :: "chain_snapshot \<Rightarrow> open_position list \<Rightarrow> order_command list" where
  "whole_closes snap legs = map (close_command snap) legs"

lemma whole_closes_walk:
  assumes "fold_res (command_step R reasons snap fills ids) (enumerate n (whole_closes snap legs)) w = Inr w'"
    and "wk_groups w = None" and "distinct (map op_id (bk_inventory (wk_books w)))"
    and "distinct (map op_id legs)" and "set legs \<subseteq> set (bk_inventory (wk_books w))"
    and "list_all2 (\<lambda>l f. fl_quantity f = op_quantity l) legs (drop (wk_cursor w) fills)"
  shows "bk_inventory (wk_books w') = filter (\<lambda>l. op_id l \<notin> op_id ` set legs) (bk_inventory (wk_books w))"
  using assms
proof (induction legs arbitrary: n w)
  case (Cons l legs)
  let ?inv = "bk_inventory (wk_books w)"
  from Cons.prems(1) obtain w1 where
    w1: "command_step R reasons snap fills ids (n, close_command snap l) w = Inr w1"
    and rest: "fold_res (command_step R reasons snap fills ids) (enumerate (Suc n) (whole_closes snap legs)) w1 = Inr w'"
    by (auto simp: whole_closes_def res_simps)
  note s = close_step [OF w1 [unfolded close_command_def close_command_qty_def Let_def] Cons.prems(2)]
  from Cons.prems(6) obtain f fs where drop: "drop (wk_cursor w) fills = f # fs"
    and f: "fl_quantity f = op_quantity l" "list_all2 (\<lambda>l f. fl_quantity f = op_quantity l) legs fs"
    by (auto simp: list_all2_Cons1)
  have "drop (Suc (wk_cursor w)) fills = fs" using drop by (metis drop_Suc list.sel(3) tl_drop)
  with f drop have next_fill: "fl_quantity (fills ! wk_cursor w) = op_quantity l"
    and fills: "list_all2 (\<lambda>l f. fl_quantity f = op_quantity l) legs (drop (Suc (wk_cursor w)) fills)"
    by (simp_all add: nth_via_drop)
  have inv1: "bk_inventory (wk_books w1) = filter (\<lambda>k. op_id k \<noteq> op_id l) ?inv"
    using s next_fill reduce_whole [of ?inv l] Cons.prems(3,5) by auto
  have "bk_inventory (wk_books w') = filter (\<lambda>k. op_id k \<notin> op_id ` set legs) (bk_inventory (wk_books w1))"
  proof (rule Cons.IH [OF rest])
    show "set legs \<subseteq> set (bk_inventory (wk_books w1))"
      using Cons.prems(4,5) by (auto simp: inv1 image_iff)
    show "distinct (map op_id (bk_inventory (wk_books w1)))"
      using Cons.prems(3) by (simp add: inv1 distinct_map_filter)
  qed (use s Cons.prems(4) fills in auto)
  then show ?case
    by (auto simp: inv1 intro: filter_cong)
qed (simp add: whole_closes_def)

section \<open>A pass over immediate orders\<close>

text \<open>Orders that do not rest leave the registry alone.\<close>

definition immediate :: "order_command \<Rightarrow> bool" where
  "immediate cmd \<longleftrightarrow> (case cmd of Submit oi \<Rightarrow> oi_tif oi = Ioc | _ \<Rightarrow> False)"

lemma open_pending:
  assumes "fill_open m ts oid fs first agg w = Inr (w', opened)"
  shows "bk_pending (wk_books w') = bk_pending (wk_books w)"
proof -
  from assms obtain w1 tid b pid b2 where w1: "step_trade_id w = Inr (w1, tid)"
    and b: "open_new_leg tid first agg ts (wk_books w1) = Inr (b, pid)"
    and loop: "fold_res (book_open_fill m oid tid pid 0) (enumerate 0 fs) b = Inr b2"
    and w': "w' = w1\<lparr>wk_books := b2\<rparr>"
    by (auto simp: fill_open_def res_simps)
  from step_trade_id_Inr [OF w1] obtain ids where "wk_books w1 = (wk_books w)\<lparr>bk_ids := ids\<rparr>" by blast
  moreover have "bk_pending b = bk_pending (wk_books w1)"
    using b by (auto simp: open_new_leg_def res_simps)
  ultimately show ?thesis using open_loop_frame [OF loop] by (simp add: w')
qed

lemma immediate_step_pending:
  assumes "command_step R reasons snap fills ids (idx, cmd) w = Inr w'" and "immediate cmd"
  shows "bk_pending (wk_books w') = bk_pending (wk_books w)"
proof -
  obtain oi where cmd: "cmd = Submit oi" and ioc: "oi_tif oi = Ioc"
    using assms(2) by (cases cmd) (auto simp: immediate_def)
  from assms(1) obtain oid ord groups n where
    "fill_order R reasons snap fills idx oid oi n (w\<lparr>wk_ordinal := ord, wk_groups := groups\<rparr>) = Inr w'"
    by (auto simp: cmd command_step_def route_intent_def res_simps Let_def ioc split: if_splits)
  then obtain c fs first agg opened where act: "(case oi_action oi of
        Open \<Rightarrow> fill_open (sp_mult (cs_spec snap)) (cs_ts snap) oid fs first agg
          (w\<lparr>wk_ordinal := ord, wk_groups := groups, wk_cursor := c\<rparr>)
      | Close pid \<Rightarrow> fill_close R reasons snap idx oid pid fs first agg
          (w\<lparr>wk_ordinal := ord, wk_groups := groups, wk_cursor := c\<rparr>)) = Inr (w', opened)"
    by (auto simp: fill_order_def rest_remainder_def res_simps Let_def ioc)
  show ?thesis
  proof (cases "oi_action oi")
    case Open
    with act open_pending show ?thesis by fastforce
  next
    case (Close pid)
    with act show ?thesis by (auto simp: fill_close_def res_simps elim!: close_position_parts)
  qed
qed

lemma immediate_pass_pending:
  assumes "apply_step_fills R cmds fills groups [] ids snap reasons b = Inr b'" and "\<forall>cmd \<in> set cmds. immediate cmd"
  shows "bk_pending b' = bk_pending b"
proof -
  from assms(1) obtain w where w: "fold_res (command_step R reasons snap fills ids) (enumerate 0 cmds)
      \<lparr>wk_books = b, wk_cursor = 0, wk_groups = groups, wk_trade = None, wk_ordinal = 0\<rparr> = Inr w"
    and b': "wk_books w = b'"
    by (auto simp: apply_step_fills_def res_simps split: if_splits)
  have "bk_pending (wk_books w) = bk_pending b"
  proof (rule fold_res_invariant [OF w, where P = "\<lambda>w. bk_pending (wk_books w) = bk_pending b"])
    fix x v v'
    assume x: "x \<in> set (enumerate 0 cmds)" and "bk_pending (wk_books v) = bk_pending b"
      and step: "command_step R reasons snap fills ids x v = Inr v'"
    moreover have "immediate (snd x)"
      using x assms(2) by (metis enumerate_eq_zip prod.collapse set_zip_rightD)
    ultimately show "bk_pending (wk_books v') = bk_pending b"
      using immediate_step_pending [of R reasons snap fills ids "fst x" "snd x" v v'] by simp
  qed simp
  with b' show ?thesis by simp
qed

section \<open>The queue of the leg set\<close>

text \<open>Whether the exit policy closes a leg at a step.\<close>

definition leaves :: "ext \<Rightarrow> 'e policy_api \<Rightarrow> exit_policy \<Rightarrow> 'r chain_context \<Rightarrow> open_position \<Rightarrow> bool" where
  "leaves X A exit ctx leg \<longleftrightarrow>
     (case (days_to_expiry X (op_contract leg) (cs_ts (cx_snapshot ctx)),
            positive_from_price X ''underlying'' (cs_price (cx_snapshot ctx))) of
        (Inr days, Inr u) \<Rightarrow>
          policy_triggered A exit (to_decimal_dollars (op_entry_premium leg))
            (current_premium (cx_snapshot ctx) (cx_marks ctx) leg) (cx_step ctx) days u (op_side leg = Long)
      | _ \<Rightarrow> False)"

lemma evaluate_legs_Inr:
  assumes "fold_res (evaluate_leg X A exit ctx u) legs out = Inr out'"
    and "positive_from_price X ''underlying'' (cs_price (cx_snapshot ctx)) = Inr u"
  shows "out' = out @ whole_closes (cx_snapshot ctx) (filter (leaves X A exit ctx) legs)"
  using assms(1)
proof (induction legs arbitrary: out)
  case (Cons l legs)
  then obtain o1 where o1: "evaluate_leg X A exit ctx u l out = Inr o1"
    and rest: "fold_res (evaluate_leg X A exit ctx u) legs o1 = Inr out'" by (auto simp: res_simps)
  from o1 have "o1 = out @ whole_closes (cx_snapshot ctx) (filter (leaves X A exit ctx) [l])"
    by (auto simp: evaluate_leg_def leaves_def assms(2) whole_closes_def res_simps Let_def split: if_splits)
  with Cons.IH [OF rest] show ?case by (simp add: whole_closes_def)
qed (simp add: whole_closes_def)

lemma evaluate_exits_Inr:
  "evaluate_exits X A exit ctx out = Inr out' \<Longrightarrow>
     out' = out @ whole_closes (cx_snapshot ctx) (filter (leaves X A exit ctx) (cx_open ctx))"
  by (auto simp: evaluate_exits_def res_simps dest: evaluate_legs_Inr)

lemma whole_closes_quantity:
  "distinct (map op_id legs) \<Longrightarrow> l \<in> set legs \<Longrightarrow>
     close_quantity (whole_closes snap (filter P legs)) (op_id l) = (if P l then op_quantity l else 0)"
proof (induction legs)
  case (Cons k legs)
  have none: "close_quantity (whole_closes snap (filter P ls)) pid = 0" if "pid \<notin> op_id ` set ls" for ls pid
    using that by (induction ls)
      (auto simp: whole_closes_def close_command_def close_quantity_Cons [of "close_command_qty snap a q" for a q])
  show ?case
  proof (cases "k = l")
    case True
    with Cons.prems(1) none [of "op_id l" legs] show ?thesis
      by (auto simp: whole_closes_def close_command_def close_quantity_Cons [of "close_command_qty snap a q" for a q])
  next
    case False
    with Cons.prems have "l \<in> set legs" "op_id k \<noteq> op_id l" by auto
    with Cons show ?thesis
      by (auto simp: whole_closes_def close_command_def close_quantity_Cons [of "close_command_qty snap a q" for a q])
  qed
qed simp

text \<open>
  With no resting order, the end of the data closes whole what the exit policy left open.
\<close>

lemma close_rest:
  assumes "close_all legs [] snap (whole_closes snap (filter P legs)) = Inr out"
    and "distinct (map op_id legs)" and "\<forall>l \<in> set legs. 0 < op_quantity l"
  shows "out = whole_closes snap (filter P legs @ filter (\<lambda>l. \<not> P l) legs)"
proof -
  let ?out = "whole_closes snap (filter P legs)"
  have "top_up [] snap ?out l = whole_closes snap (if P l then [] else [l])" if "l \<in> set legs" for l
    using whole_closes_quantity [OF assms(2) that, of snap P] assms(3) that
    by (auto simp: top_up_def Let_def whole_closes_def close_command_def pending_close_def)
  then have "concat (map (top_up [] snap ?out) legs) = concat (map (\<lambda>l. whole_closes snap (if P l then [] else [l])) legs)"
    by (simp cong: map_cong)
  also have "\<dots> = whole_closes snap (filter (\<lambda>l. \<not> P l) legs)"
    by (induction legs) (auto simp: whole_closes_def)
  finally show ?thesis
    using close_all_Inr [OF assms(1,2)] by (simp add: whole_closes_def)
qed

lemma leg_set_queue:
  assumes "step_queue R (leg_set X A) snap is_last st = Inr (s, rng, cmds, reasons)"
    and "bk_pending (rs_books st) = bt_empty" and "distinct (map op_id (bk_inventory (rs_books st)))"
    and "positive_legs (rs_books st)"
  obtains legs where "cmds = whole_closes snap legs" and "distinct (map op_id legs)"
    and "set legs \<subseteq> set (bk_inventory (rs_books st))"
    and "is_last \<Longrightarrow> set legs = set (bk_inventory (rs_books st))"
proof -
  let ?inv = "bk_inventory (rs_books st)"
  let ?ctx = "\<lparr>cx_snapshot = snap, cx_open = ?inv,
                 cx_pending = rebuild_pending_view (bk_pending (rs_books st)),
                 cx_marks = lg_marks (bk_ledger (rs_books st)), cx_rng = rs_rng st, cx_step = cs_step snap\<rparr>"
  have pending: "cx_pending ?ctx = []"
    using assms(2) by (simp add: rebuild_pending_view_def bt_values_def bt_empty_def)
  from assms(1) obtain s1 cmds1 where exits: "leg_set_exits X A ?ctx [] (rs_strategy st) = Inr (s1, cmds1)"
    and rest: "(if is_last
        then rbind (close_at_end ?ctx cmds1 s1) (\<lambda>(s, rng, cmds).
             rbind (reject_non_close (drop (length cmds1) cmds)) (\<lambda>_. Inr (s, rng, cmds)))
        else Inr (s1, rs_rng st, cmds1)) = Inr (s, rng, cmds)"
    by (auto simp: step_queue_def leg_set_def leg_set_on_snapshot_def res_simps Let_def split: if_splits)
  obtain P where cmds1: "cmds1 = whole_closes snap (filter P ?inv)"
  proof (cases "?inv = []")
    case True
    with exits show thesis by (intro that [of "\<lambda>_. True"]) (simp add: leg_set_exits_def whole_closes_def)
  next
    case False
    with exits show thesis
      by (intro that) (auto simp: leg_set_exits_def res_simps dest: evaluate_exits_Inr)
  qed
  show thesis
  proof (cases is_last)
    case True
    with rest pending have "close_all ?inv [] snap (whole_closes snap (filter P ?inv)) = Inr cmds"
      by (auto simp: close_at_end_def cmds1 res_simps)
    from close_rest [OF this assms(3)] assms(4)
    have "cmds = whole_closes snap (filter P ?inv @ filter (\<lambda>l. \<not> P l) ?inv)"
      by (simp add: positive_legs_def)
    moreover have "distinct (map op_id (filter P ?inv @ filter (\<lambda>l. \<not> P l) ?inv))"
      using assms(3) by (auto simp: distinct_map_filter distinct_map inj_on_def)
    ultimately show thesis
      by (intro that [of "filter P ?inv @ filter (\<lambda>l. \<not> P l) ?inv"]) auto
  next
    case False
    with rest have "cmds = whole_closes snap (filter P ?inv)" by (simp add: cmds1)
    with False assms(3) show thesis
      by (intro that [of "filter P ?inv"]) (auto simp: distinct_map_filter)
  qed
qed

section \<open>The run\<close>

text \<open>What the books of such a run satisfy between the steps.\<close>

definition flat_inv :: "'e books \<Rightarrow> bool" where
  "flat_inv b \<longleftrightarrow> books_sync b \<and> positive_legs b \<and> bk_pending b = bt_empty"

lemma flat_inv_ids:
  "flat_inv b \<Longrightarrow> mint_submit_ids cmds (bk_ids b) = Inr (ids, oids) \<Longrightarrow> flat_inv (b\<lparr>bk_ids := ids\<rparr>)"
  using mint_submit_ids_position [of cmds "bk_ids b" ids oids] books_sync_ids [of b ids]
  by (simp add: flat_inv_def positive_legs_def)

lemma flat_pass:
  assumes "apply_step_fills R cmds fills (ex_groups (naive_model X) x) (ex_carry (naive_model X) x) oids snap
      reasons b = Inr b'" and "flat_inv b" and "\<forall>cmd \<in> set cmds. immediate cmd"
  shows "flat_inv b'"
proof -
  have pass: "apply_step_fills R cmds fills None [] oids snap reasons b = Inr b'"
    using assms(1) by (simp add: naive_model_def)
  from immediate_pass_pending [OF pass assms(3)] sync.step_fills_invar [OF _ pass]
    positive.step_fills_invar [OF _ pass] assms(2) show ?thesis
    by (simp add: flat_inv_def)
qed

lemma whole_closes_immediate: "cmd \<in> set (whole_closes snap legs) \<Longrightarrow> immediate cmd"
  by (auto simp: whole_closes_def close_command_def close_command_qty_def immediate_def)

lemma entries_immediate:
  assumes "leg_set_on_start X ctx [] s = Inr (s', rng, cmds)"
  shows "\<forall>cmd \<in> set cmds. immediate cmd"
proof -
  have loop: "\<forall>cmd \<in> set out'. immediate cmd"
    if "fold_res (enter_leg X snap) legs out = Inr out'" "\<forall>cmd \<in> set out. immediate cmd" for snap legs out out'
    using that by (rule fold_res_invariant [where P = "\<lambda>out. \<forall>cmd \<in> set out. immediate cmd"])
      (auto simp: enter_leg_def entry_command_def immediate_def res_simps)
  from assms show ?thesis
    by (auto simp: leg_set_on_start_def leg_set_entries_def res_simps split: if_splits dest: loop)
qed

lemma run_on_start_parts:
  assumes "run_on_start R SY EM snap st = Inr st'"
  obtains ctx s rng cmds ids oids x fills reasons where
    "sy_on_start SY ctx [] (rs_strategy st) = Inr (s, rng, cmds)"
    and "mint_submit_ids cmds (bk_ids (rs_books st)) = Inr (ids, oids)"
    and "apply_step_fills R cmds fills (ex_groups EM x) (ex_carry EM x) oids snap reasons
      ((rs_books st)\<lparr>bk_ids := ids\<rparr>) = Inr (rs_books st')"
  using assms by (auto simp: run_on_start_def res_simps Let_def intro: that)

lemma flat_start:
  assumes "run_on_start R (leg_set X A) (naive_model X) snap st = Inr st'" and "flat_inv (rs_books st)"
  shows "flat_inv (rs_books st')"
proof (rule run_on_start_parts [OF assms(1)])
  fix ctx s rng cmds ids oids x fills reasons
  assume "sy_on_start (leg_set X A) ctx [] (rs_strategy st) = Inr (s, rng, cmds)"
    and mint: "mint_submit_ids cmds (bk_ids (rs_books st)) = Inr (ids, oids)"
    and pass: "apply_step_fills R cmds fills (ex_groups (naive_model X) x) (ex_carry (naive_model X) x) oids
      snap reasons ((rs_books st)\<lparr>bk_ids := ids\<rparr>) = Inr (rs_books st')"
  then have "leg_set_on_start X ctx [] (rs_strategy st) = Inr (s, rng, cmds)" by (simp add: leg_set_def)
  from flat_pass [OF pass flat_inv_ids [OF assms(2) mint] entries_immediate [OF this]] show ?thesis .
qed

lemma flat_new:
  fixes st :: "('s, 'x, 'r, 'e) run_state"
  assumes "st = run_state_new s x rng capital"
  shows "flat_inv (rs_books st)"
proof -
  have "run_inv capital 0 st" unfolding assms by (rule run_inv_new)
  then show ?thesis by (simp add: run_inv_def core_inv_def flat_inv_def positive_legs_def assms run_state_new_def)
qed

lemma engine_step_parts:
  assumes "engine_step X R SY EM snap is_last st = Inr st'"
  obtains s rng cmds reasons ids oids x fills b l rows where
    "step_queue R SY snap is_last st = Inr (s, rng, cmds, reasons)"
    and "mint_submit_ids cmds (bk_ids (rs_books st)) = Inr (ids, oids)"
    and "ex_fill EM cmds oids snap [] (rs_execution st) = Inr (x, fills)"
    and "apply_step_fills R cmds fills (ex_groups EM x) (ex_carry EM x) oids snap reasons
      ((rs_books st)\<lparr>bk_ids := ids\<rparr>) = Inr b"
    and "rs_books st' = b\<lparr>bk_ledger := l, bk_bundle := rows\<rparr>"
    and "collect_step (cs_step snap) (cs_ts snap) (lg_position_marks l) is_last (bk_bundle b) = Inr rows"
  using assms by (auto simp: engine_step_def res_simps Let_def intro: that)

lemma flat_step:
  assumes "engine_step X R (leg_set X A) (naive_model X) snap is_last st = Inr st'" and "flat_inv (rs_books st)"
  shows "flat_inv (rs_books st') \<and> (is_last \<longrightarrow> bk_inventory (rs_books st') = [])"
proof (rule engine_step_parts [OF assms(1)])
  fix s rng cmds reasons ids oids x fills b l rows
  assume queue: "step_queue R (leg_set X A) snap is_last st = Inr (s, rng, cmds, reasons)"
    and mint: "mint_submit_ids cmds (bk_ids (rs_books st)) = Inr (ids, oids)"
    and fill: "ex_fill (naive_model X) cmds oids snap [] (rs_execution st) = Inr (x, fills)"
    and pass: "apply_step_fills R cmds fills (ex_groups (naive_model X) x) (ex_carry (naive_model X) x) oids
      snap reasons ((rs_books st)\<lparr>bk_ids := ids\<rparr>) = Inr b"
    and st': "rs_books st' = b\<lparr>bk_ledger := l, bk_bundle := rows\<rparr>"
    and rows: "collect_step (cs_step snap) (cs_ts snap) (lg_position_marks l) is_last (bk_bundle b) = Inr rows"
  let ?inv = "bk_inventory (rs_books st)"
  have inv: "distinct (map op_id ?inv)" "positive_legs (rs_books st)" "bk_pending (rs_books st) = bt_empty"
    using assms(2) by (auto simp: flat_inv_def books_sync_def)
  from leg_set_queue [OF queue inv(3,1,2)] obtain legs where cmds: "cmds = whole_closes snap legs"
    and legs: "distinct (map op_id legs)" "set legs \<subseteq> set ?inv" and all: "is_last \<longrightarrow> set legs = set ?inv"
    by blast
  have "flat_inv b"
    by (rule flat_pass [OF pass flat_inv_ids [OF assms(2) mint]]) (auto simp: cmds dest: whole_closes_immediate)
  then have "flat_inv (rs_books st')"
    using collect_step_Inr [OF rows]
    by (auto simp: flat_inv_def st' positive_legs_def intro: books_sync_frame)
  moreover have "bk_inventory b = filter (\<lambda>k. op_id k \<notin> op_id ` set legs) ?inv"
  proof -
    from pass obtain w where w: "fold_res (command_step R reasons snap fills oids) (enumerate 0 cmds)
        \<lparr>wk_books = (rs_books st)\<lparr>bk_ids := ids\<rparr>, wk_cursor = 0, wk_groups = None, wk_trade = None, wk_ordinal = 0\<rparr>
        = Inr w" and b: "wk_books w = b"
      by (auto simp: apply_step_fills_def naive_model_def res_simps split: if_splits)
    have "list_all2 (\<lambda>oi f. fl_quantity f = oi_quantity oi) (submits cmds) fills"
      using fill naive_commands_Inr [of X "rs_execution st" snap cmds "[]"]
      by (fastforce simp: naive_model_def naive_fill_op_def res_simps naive_outcome_def elim: list_all2_mono)
    then have "list_all2 (\<lambda>l f. fl_quantity f = op_quantity l) legs fills"
      unfolding cmds
      by (induction legs arbitrary: fills)
        (auto simp: whole_closes_def close_command_def close_command_qty_def list_all2_Cons1)
    with whole_closes_walk [OF w [unfolded cmds]] inv(1) legs b show ?thesis by simp
  qed
  moreover have "is_last \<longrightarrow> filter (\<lambda>k. op_id k \<notin> op_id ` set legs) ?inv = []"
    using all by (auto simp: filter_empty_conv)
  ultimately show ?thesis by (simp add: st')
qed

text \<open>
  C37. Every run of the leg-set strategy under naive execution that succeeds ends flat: whatever
  the exit policy closed on the way, the last step closes the rest, every close is filled
  whole, and no position is left open.
\<close>

theorem leg_set_run_ends_flat:
  fixes seed :: "int \<Rightarrow> 'r" and run :: "('d, 'e) backtest_run" and s :: leg_set_strategy
  assumes "run_backtest X R seed config F f (naive_model X) x (leg_set X A) s name = Some (Inr run)"
  shows "br_open_at_end run = []"
proof (rule run_backtest_Inr [OF assms])
  fix f' current last_ts and st st' :: "(leg_set_strategy, naive_fill, 'r, 'e) run_state"
  let ?step = "engine_step X R (leg_set X A) (naive_model X)"
  let ?start = "run_state_new s x (seed (bc_seed config)) (bc_initial_capital config)
    :: (leg_set_strategy, naive_fill, 'r, 'e) run_state"
  assume start: "run_on_start R (leg_set X A) (naive_model X) current ?start = Inr st"
    and loop: "run_loop ?step (df_next F) (tm_final_step (df_tape_meta F f)) current f' st
      = Some (Inr (st', last_ts))"
    and run: "run = assemble_run X name (bc_initial_capital config) (df_tape_meta F f) (df_meta F f) st' last_ts"
  have "flat_inv (rs_books ?start)" by (rule flat_new) (rule refl)
  then have "flat_inv (rs_books st)" by (rule flat_start [OF start])
  moreover obtain t snap where reach: "steps_reach (\<lambda>_. True) ?step st t" and final: "?step snap True t = Inr st'"
    by (rule run_loop_reach [OF loop, where good = "\<lambda>_. True" and P = "\<lambda>_. True"])
      (auto simp: feed_yields_def)
  ultimately have "flat_inv (rs_books t)"
    by (intro steps_reach_invariant [OF reach, where I = "\<lambda>t. flat_inv (rs_books t)"])
      (auto dest: flat_step)
  from flat_step [OF final this] show ?thesis by (simp add: run assemble_run_def)
qed

section \<open>A run of the leg set\<close>

text \<open>One short call, entered at the start, held over one snapshot, closed at the end.\<close>

definition never_exit :: "nat policy_api" where
  "never_exit = \<lparr>pa_check = (\<lambda>_ _ _ _ _ _ _. False), pa_target = 0, pa_stop_loss = 1, pa_expiration = 2,
     pa_other = (\<lambda>_. 3), pa_display = (\<lambda>_. [])\<rparr>"

definition one_call :: leg_set_strategy where
  "one_call = \<lparr>lt_legs = [sample_leg_spec Short], lt_underlying = ''SPX'', lt_entered = False,
     lt_exit = Expiration\<rparr>"

definition leg_set_sample :: "(leg_set_strategy, int, nat) strategy" where
  "leg_set_sample = leg_set exact_ext never_exit"

definition leg_set_loop :: "((leg_set_strategy, naive_fill, int, nat) run_state \<times> int) res" where
  "leg_set_loop = rbind (run_on_start sample_api leg_set_sample (naive_model exact_ext) sample_snapshot
       (run_state_new one_call sample_naive (bc_seed sample_config) (bc_initial_capital sample_config)))
     (tape_loop (engine_step exact_ext sample_api leg_set_sample (naive_model exact_ext)) 1
        sample_snapshot [sample_snapshot\<lparr>cs_ts := 6, cs_step := 1\<rparr>])"

lemma leg_set_loop_evaluates:
  "case leg_set_loop of Inl _ \<Rightarrow> False | Inr (st, t) \<Rightarrow> length (bd_fills (bk_bundle (rs_books st))) = 2"
  by code_simp

lemma leg_set_sample_runs:
  "\<exists>run :: (unit data_source_spec, nat) backtest_run.
     run_backtest exact_ext sample_api (\<lambda>n. n) sample_config sample_feed (shared_feed \<lparr>sp_tape = sample_tape\<rparr>)
       (naive_model exact_ext) sample_naive leg_set_sample one_call ''sample'' = Some (Inr run) \<and>
     length (br_fills run) = 2"
proof -
  let ?step = "engine_step exact_ext sample_api leg_set_sample (naive_model exact_ext)"
  let ?feed = "shared_feed \<lparr>sp_tape = sample_tape\<rparr>"
  obtain st' t where loop: "leg_set_loop = Inr (st', t)"
    and st': "length (bd_fills (bk_bundle (rs_books st'))) = 2"
    using leg_set_loop_evaluates by (auto split: sum.splits)
  from loop [unfolded leg_set_loop_def rbind_Inr] obtain st where
    st: "run_on_start sample_api leg_set_sample (naive_model exact_ext) sample_snapshot
      (run_state_new one_call sample_naive (bc_seed sample_config) (bc_initial_capital sample_config)) = Inr st"
    and tape: "tape_loop ?step 1 sample_snapshot [sample_snapshot\<lparr>cs_ts := 6, cs_step := 1\<rparr>] st = Inr (st', t)"
    by blast
  have "parquet_remaining \<lparr>pf_tape = sample_tape, pf_cursor = 1\<rparr> = [sample_snapshot\<lparr>cs_ts := 6, cs_step := 1\<rparr>]"
    by (simp add: parquet_remaining_def sample_tape_def)
  then have loop: "run_loop ?step parquet_next 1 sample_snapshot \<lparr>pf_tape = sample_tape, pf_cursor = 1\<rparr> st = Some (Inr (st', t))"
    using tape by (simp add: parquet.run_loop_replays)
  let ?run = "assemble_run exact_ext ''sample'' (bc_initial_capital sample_config)
    (df_tape_meta sample_feed ?feed) (df_meta sample_feed ?feed) st' t"
  have "run_backtest exact_ext sample_api (\<lambda>n. n) sample_config sample_feed ?feed (naive_model exact_ext)
      sample_naive leg_set_sample one_call ''sample'' = Some (Inr ?run)"
  proof (rule run_backtest_starts)
    show "run_on_start sample_api leg_set_sample (naive_model exact_ext) sample_snapshot
        (run_state_new one_call sample_naive (bc_seed sample_config) (bc_initial_capital sample_config)) = Inr st"
      by (rule st)
    show "run_loop ?step (df_next sample_feed) (tm_final_step (df_tape_meta sample_feed ?feed)) sample_snapshot
        \<lparr>pf_tape = sample_tape, pf_cursor = 1\<rparr> st = Some (Inr (st', t))"
      using loop by (simp add: sample_feed_def parquet_data_feed_def parquet_tape_meta_def shared_feed_def
          sample_tape_def)
  qed (simp_all add: sample_config_def sample_feed_def parquet_data_feed_def parquet_tape_meta_def
      shared_feed_def parquet_next_def sample_tape_def width_simps)
  moreover have "length (br_fills ?run) = 2" using st' by (simp add: assemble_run_def)
  ultimately show ?thesis by (intro exI [of _ ?run] conjI)
qed

theorem leg_set_run_ends_flat_witness:
  "\<exists>run. run_backtest exact_ext sample_api (\<lambda>n. n) sample_config sample_feed (shared_feed \<lparr>sp_tape = sample_tape\<rparr>)
       (naive_model exact_ext) sample_naive leg_set_sample one_call ''sample'' = Some (Inr run) \<and>
     length (br_fills run) = 2 \<and> br_open_at_end run = []"
  using leg_set_sample_runs
proof (elim exE conjE)
  fix run :: "(unit data_source_spec, nat) backtest_run"
  assume run: "run_backtest exact_ext sample_api (\<lambda>n. n) sample_config sample_feed (shared_feed \<lparr>sp_tape = sample_tape\<rparr>)
       (naive_model exact_ext) sample_naive leg_set_sample one_call ''sample'' = Some (Inr run)"
    and fills: "length (br_fills run) = 2"
  from leg_set_run_ends_flat [OF run [unfolded leg_set_sample_def]] run fills show ?thesis
    by (intro exI [of _ run] conjI)
qed

end
