(* ===== verification/Liquidity.thy ===== *)
theory Liquidity
  imports Execution_Seam
begin

text \<open>
  The liquidity a snapshot seeds the order books with (\<open>src/execution/liquidity.rs\<close>): for every
  quote a ladder of bids going down and of asks going up, one tick apart, whose sizes decay
  from the size at the touch.
\<close>

record seed_order =
  so_contract :: contract_key
  so_is_ask :: bool
  so_price :: price_cents
  so_size :: quantity

definition touch_size_contracts :: "liquidity_profile \<Rightarrow> quote_view \<Rightarrow> bool \<Rightarrow> int" where
  "touch_size_contracts profile quote is_ask =
     (case lp_touch_size profile of
        QuotedSize \<Rightarrow> if is_ask then qv_ask_size quote else qv_bid_size quote
      | Flat contracts \<Rightarrow> contracts)"

definition decayed_size :: "ext \<Rightarrow> int \<Rightarrow> rat \<Rightarrow> int res" where
  "decayed_size X touch factor =
     rbind (ok_or (dec_mul X (of_int touch) factor) ArithmeticOverflow) (\<lambda>raw.
     checked (dec_to X U32 (dec_round0 X raw)))"

text \<open>The loop over the levels of one side; \<open>break\<close> returns the plan as it is.\<close>

definition level_price :: "bool \<Rightarrow> int \<Rightarrow> int \<Rightarrow> int option res" where
  "level_price is_ask touch_cents offset =
     (if is_ask then rbind (checked (checked_add U64 touch_cents offset)) (\<lambda>p. Inr (Some p))
      else Inr (checked_sub U64 touch_cents offset))"

fun push_levels ::
    "ext \<Rightarrow> contract_key \<Rightarrow> bool \<Rightarrow> int \<Rightarrow> int \<Rightarrow> rat \<Rightarrow> int \<Rightarrow> int list \<Rightarrow> rat \<Rightarrow> seed_order list
      \<Rightarrow> seed_order list res" where
  "push_levels X contract is_ask touch_cents tick decay touch [] factor plan = Inr plan"
| "push_levels X contract is_ask touch_cents tick decay touch (level # levels) factor plan =
     rbind (decayed_size X touch factor) (\<lambda>sz.
     if sz = 0 then Inr plan
     else rbind (checked (checked_mul U64 tick level)) (\<lambda>offset.
          rbind (level_price is_ask touch_cents offset) (\<lambda>price.
          case price of
            None \<Rightarrow> Inr plan
          | Some price \<Rightarrow>
              rbind (quantity_new sz) (\<lambda>qty.
              rbind (ok_or (dec_mul X factor decay) ArithmeticOverflow) (\<lambda>factor.
              push_levels X contract is_ask touch_cents tick decay touch levels factor
                (plan @ [\<lparr>so_contract = contract, so_is_ask = is_ask, so_price = price, so_size = qty\<rparr>]))))))"

definition push_side_ladder ::
    "ext \<Rightarrow> contract_key \<Rightarrow> bool \<Rightarrow> int \<Rightarrow> int \<Rightarrow> liquidity_profile \<Rightarrow> quote_view \<Rightarrow> seed_order list
      \<Rightarrow> seed_order list res" where
  "push_side_ladder X contract is_ask touch_cents tick profile quote plan =
     push_levels X contract is_ask touch_cents tick (lp_decay profile)
       (touch_size_contracts profile quote is_ask) [0..lp_depth_levels profile] 1 plan"

definition plan_quote ::
    "ext \<Rightarrow> liquidity_profile \<Rightarrow> int \<Rightarrow> contract_key \<times> quote_view \<Rightarrow> seed_order list \<Rightarrow> seed_order list res" where
  "plan_quote X profile tick = (\<lambda>(contract, quote) plan.
     rbind (push_side_ladder X contract False (qv_bid quote) tick profile quote plan) (\<lambda>plan.
     push_side_ladder X contract True (qv_ask quote) tick profile quote plan))"

definition plan_seed :: "ext \<Rightarrow> chain_snapshot \<Rightarrow> liquidity_profile \<Rightarrow> seed_order list res" where
  "plan_seed X snap profile =
     (let tick = sp_tick (cs_spec snap) in
      if tick = 0 then Inl (Execution (MsgOfRealistic MsgSeedTick))
      else fold_res (plan_quote X profile tick) (cs_quotes snap) [])"

section \<open>The ladders\<close>

text \<open>One side of one quote: consecutive ticks from the touch, away from the other side.\<close>

definition price_at_level :: "bool \<Rightarrow> int \<Rightarrow> int \<Rightarrow> int \<Rightarrow> int" where
  "price_at_level is_ask touch_cents tick level =
     (if is_ask then touch_cents + tick * level else touch_cents - tick * level)"

definition ladder :: "contract_key \<Rightarrow> bool \<Rightarrow> int \<Rightarrow> int \<Rightarrow> int list \<Rightarrow> seed_order list \<Rightarrow> bool" where
  "ladder contract is_ask touch_cents tick levels orders \<longleftrightarrow>
     map so_price orders = map (price_at_level is_ask touch_cents tick) (take (length orders) levels) \<and>
     length orders \<le> length levels \<and>
     (\<forall>r \<in> set orders. so_contract r = contract \<and> so_is_ask r = is_ask \<and> is_quantity (so_size r) \<and>
        is_price (so_price r))"

lemma ladder_Nil [simp]: "ladder contract is_ask touch_cents tick levels []"
  by (simp add: ladder_def)

lemma push_levels_Cons:
  assumes "push_levels X contract is_ask touch_cents tick decay touch (level # levels) factor plan = Inr plan'"
    and "converts_in_range X"
  shows "plan' = plan \<or> (\<exists>sz p f. is_quantity sz \<and> is_price p \<and>
    p = price_at_level is_ask touch_cents tick level \<and>
    push_levels X contract is_ask touch_cents tick decay touch levels f
      (plan @ [\<lparr>so_contract = contract, so_is_ask = is_ask, so_price = p, so_size = sz\<rparr>]) = Inr plan')"
proof (cases "plan' = plan")
  case False
  from assms(1) False obtain sz offset p f where sz: "decayed_size X touch factor = Inr sz" "sz \<noteq> 0"
    and offset: "checked (checked_mul U64 tick level) = Inr offset"
    and p: "level_price is_ask touch_cents offset = Inr (Some p)"
    and rest: "push_levels X contract is_ask touch_cents tick decay touch levels f
      (plan @ [\<lparr>so_contract = contract, so_is_ask = is_ask, so_price = p, so_size = sz\<rparr>]) = Inr plan'"
    by (auto simp: rbind_Inr quantity_new_Inr split: if_splits option.splits)
  have "fits U32 sz"
    using sz(1) assms(2) by (auto simp: decayed_size_def converts_in_range_def res_simps)
  then have "is_quantity sz" using sz(2) by (simp add: is_quantity_def)
  moreover have "is_price p \<and> p = price_at_level is_ask touch_cents tick level"
    using offset p by (auto simp: level_price_def price_at_level_def is_price_def checked_defs res_simps split: if_splits)
  ultimately show ?thesis using rest by blast
qed simp

lemma push_levels_ladder:
  assumes "push_levels X contract is_ask touch_cents tick decay touch levels factor plan = Inr plan'"
    and "converts_in_range X"
  shows "\<exists>new. plan' = plan @ new \<and> ladder contract is_ask touch_cents tick levels new"
  using assms(1)
proof (induction levels arbitrary: factor plan)
  case (Cons level levels)
  from push_levels_Cons [OF Cons.prems assms(2)] show ?case
  proof (elim disjE exE conjE)
    fix sz p f
    let ?r = "\<lparr>so_contract = contract, so_is_ask = is_ask, so_price = p, so_size = sz\<rparr>"
    assume o: "is_quantity sz" "is_price p" "p = price_at_level is_ask touch_cents tick level"
      and rest: "push_levels X contract is_ask touch_cents tick decay touch levels f (plan @ [?r]) = Inr plan'"
    from Cons.IH [OF rest] obtain new where "plan' = plan @ ?r # new"
      and "ladder contract is_ask touch_cents tick levels new" by auto
    with o show ?thesis by (intro exI [of _ "?r # new"]) (simp add: ladder_def)
  qed simp
qed simp

text \<open>What one quote adds to the plan.\<close>

definition quote_ladders :: "int \<Rightarrow> int list \<Rightarrow> contract_key \<times> quote_view \<Rightarrow> seed_order list \<Rightarrow> bool" where
  "quote_ladders tick levels entry orders \<longleftrightarrow>
     (\<exists>bids asks. orders = bids @ asks \<and>
        ladder (fst entry) False (qv_bid (snd entry)) tick levels bids \<and>
        ladder (fst entry) True (qv_ask (snd entry)) tick levels asks)"

lemma plan_quote_ladders:
  assumes "plan_quote X profile tick entry plan = Inr plan'" and "converts_in_range X"
  shows "\<exists>new. plan' = plan @ new \<and> quote_ladders tick [0..lp_depth_levels profile] entry new"
proof -
  obtain contract quote where entry: "entry = (contract, quote)" by fastforce
  from assms(1) obtain mid where
    bids: "push_side_ladder X contract False (qv_bid quote) tick profile quote plan = Inr mid"
    and asks: "push_side_ladder X contract True (qv_ask quote) tick profile quote mid = Inr plan'"
    by (auto simp: plan_quote_def entry res_simps)
  from push_levels_ladder [OF bids [unfolded push_side_ladder_def] assms(2)]
    push_levels_ladder [OF asks [unfolded push_side_ladder_def] assms(2)]
  show ?thesis by (fastforce simp: entry quote_ladders_def)
qed

text \<open>
  The plan of a snapshot is the concatenation, in contract order, of the two ladders of each
  quote.
\<close>

lemma plan_seed_ladders:
  assumes "plan_seed X snap profile = Inr plan" and "converts_in_range X"
  shows "\<exists>parts. plan = concat parts \<and>
    list_all2 (quote_ladders (sp_tick (cs_spec snap)) [0..lp_depth_levels profile]) (cs_quotes snap) parts"
proof -
  have "\<exists>parts. plan = plan0 @ concat parts \<and> list_all2 (quote_ladders tick [0..lp_depth_levels profile]) qs parts"
    if "fold_res (plan_quote X profile tick) qs plan0 = Inr plan" for tick qs plan0
    using that
  proof (induction qs arbitrary: plan0)
    case (Cons q qs)
    then obtain p1 where p1: "plan_quote X profile tick q plan0 = Inr p1"
      and rest: "fold_res (plan_quote X profile tick) qs p1 = Inr plan" by (auto simp: res_simps)
    from plan_quote_ladders [OF p1 assms(2)] obtain new where "p1 = plan0 @ new"
      and "quote_ladders tick [0..lp_depth_levels profile] q new" by blast
    moreover from Cons.IH [OF rest] obtain parts where "plan = p1 @ concat parts"
      and "list_all2 (quote_ladders tick [0..lp_depth_levels profile]) qs parts" by blast
    ultimately show ?case by (intro exI [of _ "new # parts"]) simp
  qed simp
  from this [of "sp_tick (cs_spec snap)" "cs_quotes snap" "[]"] assms(1) show ?thesis
    by (auto simp: plan_seed_def Let_def split: if_splits)
qed

lemma ladder_prices:
  assumes "ladder contract is_ask touch_cents tick [0..depth] orders" and "o1 \<in> set orders" and "0 \<le> tick"
  shows "(if is_ask then touch_cents \<le> so_price o1 else so_price o1 \<le> touch_cents) \<and>
    (tick dvd touch_cents \<longrightarrow> tick dvd so_price o1)"
proof -
  have "so_price o1 \<in> set (map so_price orders)" using assms(2) by simp
  also have "\<dots> \<subseteq> price_at_level is_ask touch_cents tick ` {0..depth}"
    using assms(1) set_take_subset [of "length orders" "[0..depth]"] by (auto simp: ladder_def)
  finally obtain l where "0 \<le> l" "so_price o1 = price_at_level is_ask touch_cents tick l" by auto
  with assms(3) show ?thesis by (simp add: price_at_level_def)
qed

end
