(* ===== verification/Realistic_Fill.thy ===== *)
theory Realistic_Fill
  imports Liquidity
begin

text \<open>
  The realistic fill model (\<open>src/execution/realistic.rs\<close>): one order book per contract, seeded
  from every snapshot, against which the submits of a step are matched. The book is
  \<open>option_chain_orderbook\<close>'s and a parameter: its constructor and the three operations the
  code calls, with the errors they return. The model keeps a mirror of the orders of the
  strategy that rest in the books, which is what the lemmas are about.
\<close>

section \<open>The order book\<close>

datatype ob_order_id = Sequential int | OtherId string

datatype ob_side = ObBuy | ObSell

record trade =
  td_maker :: ob_order_id
  td_price :: int
  td_quantity :: int

record trade_result =
  tr_trades :: "trade list"
  tr_remaining :: int

record 'b book_api =
  ob_new :: "string \<Rightarrow> option_style \<Rightarrow> 'b"
  ob_add_limit :: "ob_order_id \<Rightarrow> ob_side \<Rightarrow> int \<Rightarrow> int \<Rightarrow> 'b \<Rightarrow> string + 'b"
  ob_add_limit_full :: "ob_order_id \<Rightarrow> ob_side \<Rightarrow> int \<Rightarrow> int \<Rightarrow> 'b \<Rightarrow> string + trade_result \<times> 'b"
  ob_cancel :: "ob_order_id \<Rightarrow> 'b \<Rightarrow> string + bool \<times> 'b"

definition book_res :: "string + 'a \<Rightarrow> 'a res" where
  "book_res r = (case r of Inl e \<Rightarrow> Inl (OrderBook (MsgForeign ''order book'' e)) | Inr x \<Rightarrow> Inr x)"

lemma book_res_Inr [res_simps]: "book_res r = Inr x \<longleftrightarrow> r = Inr x"
  by (auto simp: book_res_def split: sum.splits)

section \<open>The model's state\<close>

definition STRATEGY_ID_BASE :: int where
  "STRATEGY_ID_BASE = 1"

definition MAKER_ID_BASE :: int where
  "MAKER_ID_BASE = 2 ^ 48"

record resting_order =
  ro_order_id :: order_id
  ro_contract :: contract_key
  ro_side :: side
  ro_decision_mid :: price_cents
  ro_remaining :: int
  ro_first_fill_done :: bool

record 'b realistic_fill =
  rf_fees :: fee_schedule
  rf_cap_ticks :: int
  rf_seed :: int
  rf_next_strategy :: int
  rf_next_maker :: int
  rf_profile :: "liquidity_profile option"
  rf_seed_ids :: "(contract_key, int list) btmap"
  rf_resting :: "(int, resting_order) btmap"
  rf_order_index :: "(order_id, int) btmap"
  rf_carry :: "carry_group list"
  rf_live :: "(contract_key, int) btmap"
  rf_seed_plan :: "seed_order list"
  rf_groups :: "fill_group list"
  rf_books :: "(contract_key, 'b) btmap"

definition realistic_new :: "fee_schedule \<Rightarrow> int \<Rightarrow> int \<Rightarrow> 'b realistic_fill" where
  "realistic_new fees cap seed = \<lparr>rf_fees = fees, rf_cap_ticks = cap, rf_seed = seed,
     rf_next_strategy = STRATEGY_ID_BASE, rf_next_maker = MAKER_ID_BASE, rf_profile = None,
     rf_seed_ids = bt_empty, rf_resting = bt_empty, rf_order_index = bt_empty, rf_carry = [],
     rf_live = bt_empty, rf_seed_plan = [], rf_groups = [], rf_books = bt_empty\<rparr>"

definition with_liquidity_profile ::
    "fee_schedule \<Rightarrow> int \<Rightarrow> int \<Rightarrow> liquidity_profile \<Rightarrow> 'b realistic_fill" where
  "with_liquidity_profile fees cap seed profile = (realistic_new fees cap seed)\<lparr>rf_profile := Some profile\<rparr>"

definition realistic_err :: "realistic_message \<Rightarrow> backtest_error" where
  "realistic_err m = Execution (MsgOfRealistic m)"

definition next_strategy_order_id :: "'b realistic_fill \<Rightarrow> (int \<times> 'b realistic_fill) res" where
  "next_strategy_order_id R =
     (let n = rf_next_strategy R in
      if n \<ge> MAKER_ID_BASE then Inl (realistic_err (MsgStrategyIds n))
      else Inr (n, R\<lparr>rf_next_strategy := n + 1\<rparr>))"

definition next_maker_order_id :: "'b realistic_fill \<Rightarrow> (int \<times> 'b realistic_fill) res" where
  "next_maker_order_id R =
     (let n = rf_next_maker R in
      rbind (ok_or (checked_add U64 n 1) (realistic_err MsgMakerIds)) (\<lambda>next.
      Inr (n, R\<lparr>rf_next_maker := next\<rparr>)))"

section \<open>Prices\<close>

fun to_ob_side :: "side \<Rightarrow> ob_side" where
  "to_ob_side Long = ObBuy"
| "to_ob_side Short = ObSell"

definition cents_to_ticks :: "price_cents \<Rightarrow> int \<Rightarrow> int res" where
  "cents_to_ticks price tick =
     (if tick = 0 then Inl (realistic_err MsgScaleTick)
      else if price mod tick \<noteq> 0 then Inl (PriceNotTickAligned price tick)
      else Inr (price div tick))"

definition ticks_to_cents :: "int \<Rightarrow> int \<Rightarrow> price_cents res" where
  "ticks_to_cents ticks tick =
     rbind (checked (checked_mul U128 ticks tick)) (\<lambda>cents. checked (try_into U64 cents))"

definition marketable_limit_cents :: "side \<Rightarrow> quote_view \<Rightarrow> int \<Rightarrow> int \<Rightarrow> price_cents res" where
  "marketable_limit_cents sd quote tick cap =
     rbind (checked (checked_mul U64 tick cap)) (\<lambda>cap_offset.
     case to_ob_side sd of
       ObBuy \<Rightarrow> checked (checked_add U64 (qv_ask quote) cap_offset)
     | ObSell \<Rightarrow> checked (try_into U64 (max (qv_bid quote - cap_offset) 0)))"

section \<open>Books\<close>

text \<open>The book of a contract, made on first use.\<close>

definition leaf_book_in ::
    "ext \<Rightarrow> 'b book_api \<Rightarrow> contract_key \<Rightarrow> (contract_key, 'b) btmap \<Rightarrow> ('b \<times> (contract_key, 'b) btmap) res" where
  "leaf_book_in X B contract books =
     (case bt_get books contract of
        Some book \<Rightarrow> Inr (book, books)
      | None \<Rightarrow>
          rbind (to_contract_id X contract) (\<lambda>symbol.
          let book = ob_new B symbol (ck_style contract) in
          Inr (book, bt_insert contract book books)))"

definition seed_maker_limit ::
    "ext \<Rightarrow> 'b book_api \<Rightarrow> contract_key \<Rightarrow> bool \<Rightarrow> price_cents \<Rightarrow> quantity \<Rightarrow> price_cents
      \<Rightarrow> 'b realistic_fill \<Rightarrow> 'b realistic_fill res" where
  "seed_maker_limit X B contract is_ask price quantity tick R =
     rbind (cents_to_ticks price tick) (\<lambda>price_ticks.
     let sd = (if is_ask then ObSell else ObBuy) in
     rbind (next_maker_order_id R) (\<lambda>(n, R).
     rbind (leaf_book_in X B contract (rf_books R)) (\<lambda>(book, books).
     rbind (book_res (ob_add_limit B (Sequential n) sd price_ticks quantity book)) (\<lambda>book.
     Inr (R\<lparr>rf_books := bt_insert contract book books\<rparr>)))))"

text \<open>The cancelling of the seed of the previous snapshot, one contract at a time.\<close>

definition cancel_in_book :: "'b book_api \<Rightarrow> int \<Rightarrow> 'b \<Rightarrow> 'b res" where
  "cancel_in_book B n book = rbind (book_res (ob_cancel B (Sequential n) book)) (\<lambda>(_, book). Inr book)"

definition cancel_contract_seed ::
    "'b book_api \<Rightarrow> contract_key \<times> int list \<Rightarrow> (contract_key, 'b) btmap \<Rightarrow> (contract_key, 'b) btmap res" where
  "cancel_contract_seed B = (\<lambda>(contract, ids) books.
     case bt_get books contract of
       Some book \<Rightarrow>
         rbind (fold_res (cancel_in_book B) ids book) (\<lambda>book. Inr (bt_insert contract book books))
     | None \<Rightarrow> Inr books)"

definition cancel_stale_seed :: "'b book_api \<Rightarrow> 'b realistic_fill \<Rightarrow> 'b realistic_fill res" where
  "cancel_stale_seed B R =
     rbind (fold_res (cancel_contract_seed B) (rf_seed_ids R) (rf_books R)) (\<lambda>books.
     Inr (R\<lparr>rf_books := books, rf_seed_ids := map (\<lambda>(contract, _). (contract, [])) (rf_seed_ids R)\<rparr>))"

definition release_live_order ::
    "(contract_key, int) btmap \<Rightarrow> contract_key \<Rightarrow> (contract_key, int) btmap res" where
  "release_live_order live contract =
     rbind (ok_or (bt_get live contract) (realistic_err MsgLiveMissing)) (\<lambda>count.
     rbind (ok_or (checked_sub U32 count 1) (realistic_err MsgLiveUnderflow)) (\<lambda>count.
     Inr (if count = 0 then bt_remove contract live else bt_insert contract count live)))"

section \<open>Refresh\<close>

definition push_carry :: "order_id \<Rightarrow> carry_group list \<Rightarrow> carry_group list res" where
  "push_carry oid groups =
     (if groups \<noteq> [] \<and> cg_order_id (last groups) = oid
      then rbind (checked (checked_add U32 (cg_count (last groups)) 1)) (\<lambda>n.
           Inr (butlast groups @ [(last groups)\<lparr>cg_count := n\<rparr>]))
      else Inr (groups @ [\<lparr>cg_order_id = oid, cg_count = 1\<rparr>]))"

definition drop_resting :: "int \<Rightarrow> 'b realistic_fill \<Rightarrow> 'b realistic_fill res" where
  "drop_resting n R =
     (case bt_get (rf_resting R) n of
        None \<Rightarrow> Inr R
      | Some meta \<Rightarrow>
          rbind (release_live_order (rf_live R) (ro_contract meta)) (\<lambda>live.
          Inr (R\<lparr>rf_resting := bt_remove n (rf_resting R), rf_live := live\<rparr>)))"

text \<open>A trade of a reseed order against a resting order of the strategy.\<close>

definition refresh_trade ::
    "contract_key \<Rightarrow> int \<Rightarrow> chain_snapshot \<Rightarrow> int \<Rightarrow> resting_order \<Rightarrow> int \<Rightarrow> int
      \<Rightarrow> 'b realistic_fill \<times> fill list \<Rightarrow> ('b realistic_fill \<times> fill list) res" where
  "refresh_trade contract tick snap n meta price_ticks trade_qty = (\<lambda>(R, out).
     rbind (ticks_to_cents price_ticks tick) (\<lambda>exec_price.
     rbind (checked (try_into U32 trade_qty)) (\<lambda>matched.
     rbind (quantity_new matched) (\<lambda>quantity.
     let charge = (if ro_first_fill_done meta then LaterFill else FirstFill) in
     rbind (ok_or (checked_sub U64 (ro_remaining meta) trade_qty) (realistic_err MsgDesync)) (\<lambda>remaining.
     let R = R\<lparr>rf_resting := bt_insert n (meta\<lparr>ro_first_fill_done := True, ro_remaining := remaining\<rparr>)
                 (rf_resting R)\<rparr> in
     rbind (assemble_fill \<lparr>fd_ts = cs_ts snap, fd_step = cs_step snap, fd_contract = contract,
              fd_side = ro_side meta, fd_quantity = quantity, fd_price = exec_price,
              fd_decision_mid = ro_decision_mid meta\<rparr> Realistic (rf_fees R) charge) (\<lambda>f.
     rbind (push_carry (ro_order_id meta) (rf_carry R)) (\<lambda>carry.
     let R = R\<lparr>rf_carry := carry\<rparr> in
     if remaining = 0
     then rbind (drop_resting n R) (\<lambda>R.
          Inr (R\<lparr>rf_order_index := bt_remove (ro_order_id meta) (rf_order_index R)\<rparr>, out @ [f]))
     else Inr (R, out @ [f]))))))))"

definition capture_refresh_fill ::
    "contract_key \<Rightarrow> int \<Rightarrow> chain_snapshot \<Rightarrow> trade \<Rightarrow> 'b realistic_fill \<times> fill list
      \<Rightarrow> ('b realistic_fill \<times> fill list) res" where
  "capture_refresh_fill contract tick snap t s =
     (case td_maker t of
        OtherId _ \<Rightarrow> Inr s
      | Sequential n \<Rightarrow>
          case bt_get (rf_resting (fst s)) n of
            None \<Rightarrow> Inr s
          | Some meta \<Rightarrow> refresh_trade contract tick snap n meta (td_price t) (td_quantity t) s)"

definition reseed_order ::
    "ext \<Rightarrow> 'b book_api \<Rightarrow> int \<Rightarrow> chain_snapshot \<Rightarrow> seed_order \<Rightarrow> 'b realistic_fill \<times> fill list
      \<Rightarrow> ('b realistic_fill \<times> fill list) res" where
  "reseed_order X B tick snap ord = (\<lambda>(R, out).
     rbind (cents_to_ticks (so_price ord) tick) (\<lambda>price_ticks.
     let sd = (if so_is_ask ord then ObSell else ObBuy) in
     rbind (next_maker_order_id R) (\<lambda>(n, R).
     rbind (leaf_book_in X B (so_contract ord) (rf_books R)) (\<lambda>(book, books).
     rbind (book_res (ob_add_limit_full B (Sequential n) sd price_ticks (so_size ord) book)) (\<lambda>(result, book).
     let R = R\<lparr>rf_books := bt_insert (so_contract ord) book books\<rparr> in
     rbind (fold_res (capture_refresh_fill (so_contract ord) tick snap) (tr_trades result) (R, out)) (\<lambda>(R, out).
     Inr (if tr_remaining result > 0
          then R\<lparr>rf_seed_ids := bt_insert (so_contract ord)
                   (unwrap_or [] (bt_get (rf_seed_ids R) (so_contract ord)) @ [n]) (rf_seed_ids R)\<rparr>
          else R, out)))))))"

definition reseed ::
    "ext \<Rightarrow> 'b book_api \<Rightarrow> chain_snapshot \<Rightarrow> liquidity_profile \<Rightarrow> int \<Rightarrow> 'b realistic_fill \<times> fill list
      \<Rightarrow> ('b realistic_fill \<times> fill list) res" where
  "reseed X B snap profile tick s =
     rbind (plan_seed X snap profile) (\<lambda>plan.
     rbind (fold_res (reseed_order X B tick snap) plan s) (\<lambda>(R, out).
     Inr (R\<lparr>rf_seed_plan := plan\<rparr>, out)))"

definition evict_departed :: "chain_snapshot \<Rightarrow> 'b realistic_fill \<Rightarrow> 'b realistic_fill" where
  "evict_departed snap R =
     (let keep = (\<lambda>contract. bt_contains (cs_quotes snap) contract \<or> bt_contains (rf_live R) contract) in
      R\<lparr>rf_books := bt_retain keep (rf_books R), rf_seed_ids := bt_retain keep (rf_seed_ids R)\<rparr>)"

definition refresh_books ::
    "ext \<Rightarrow> 'b book_api \<Rightarrow> chain_snapshot \<Rightarrow> 'b realistic_fill \<times> fill list
      \<Rightarrow> ('b realistic_fill \<times> fill list) res" where
  "refresh_books X B snap = (\<lambda>(R, out).
     case rf_profile R of
       None \<Rightarrow> Inr (R, out)
     | Some profile \<Rightarrow>
         let tick = sp_tick (cs_spec snap) in
         if tick = 0 then Inl (realistic_err MsgRefreshTick)
         else rbind (cancel_stale_seed B R) (\<lambda>R.
              reseed X B snap profile tick (evict_departed snap R, out)))"

section \<open>Commands\<close>

definition cancel_resting :: "'b book_api \<Rightarrow> order_id \<Rightarrow> 'b realistic_fill \<Rightarrow> 'b realistic_fill res" where
  "cancel_resting B oid R =
     (case bt_get (rf_order_index R) oid of
        None \<Rightarrow> Inr R
      | Some n \<Rightarrow>
          rbind (case bt_get (rf_resting R) n of
                   None \<Rightarrow> Inr R
                 | Some meta \<Rightarrow>
                     case bt_get (rf_books R) (ro_contract meta) of
                       None \<Rightarrow> Inr R
                     | Some book \<Rightarrow>
                         rbind (cancel_in_book B n book) (\<lambda>book.
                         Inr (R\<lparr>rf_books := bt_insert (ro_contract meta) book (rf_books R)\<rparr>))) (\<lambda>R.
          rbind (drop_resting n R) (\<lambda>R.
          Inr (R\<lparr>rf_order_index := bt_remove oid (rf_order_index R)\<rparr>))))"

definition limit_of ::
    "order_intent \<Rightarrow> chain_snapshot \<Rightarrow> int \<Rightarrow> int \<Rightarrow> price_cents res" where
  "limit_of oi snap tick cap =
     (case oi_limit oi of
        Some limit \<Rightarrow> Inr limit
      | None \<Rightarrow>
          rbind (ok_or (bt_get (cs_quotes snap) (oi_contract oi))
            (realistic_err (MsgMarketableNotQuoted (ck_strike (oi_contract oi)) (cs_step snap)))) (\<lambda>quote.
          marketable_limit_cents (oi_side oi) quote tick cap))"

definition crosses_self :: "'b realistic_fill \<Rightarrow> trade list \<Rightarrow> bool" where
  "crosses_self R trades \<longleftrightarrow>
     list_ex (\<lambda>t. case td_maker t of Sequential n \<Rightarrow> bt_contains (rf_resting R) n | OtherId _ \<Rightarrow> False) trades"

definition level_fill ::
    "fee_schedule \<Rightarrow> order_intent \<Rightarrow> chain_snapshot \<Rightarrow> int \<Rightarrow> nat \<times> trade \<Rightarrow> fill list \<Rightarrow> fill list res" where
  "level_fill fees oi snap tick = (\<lambda>(level, t) out.
     rbind (ticks_to_cents (td_price t) tick) (\<lambda>exec_price.
     rbind (checked (try_into U32 (td_quantity t))) (\<lambda>matched.
     rbind (quantity_new matched) (\<lambda>quantity.
     let charge = (if level = 0 then FirstFill else LaterFill) in
     rbind (assemble_fill \<lparr>fd_ts = cs_ts snap, fd_step = cs_step snap, fd_contract = oi_contract oi,
              fd_side = oi_side oi, fd_quantity = quantity, fd_price = exec_price,
              fd_decision_mid = oi_decision_mid oi\<rparr> Realistic fees charge) (\<lambda>f.
     Inr (out @ [f]))))))"

definition track_resting ::
    "order_intent \<Rightarrow> order_id \<Rightarrow> int \<Rightarrow> int \<Rightarrow> 'b realistic_fill \<Rightarrow> 'b realistic_fill res" where
  "track_resting oi oid n remaining R =
     rbind (checked (checked_add U32 (unwrap_or 0 (bt_get (rf_live R) (oi_contract oi))) 1)) (\<lambda>count.
     Inr (R\<lparr>rf_resting := bt_insert n \<lparr>ro_order_id = oid, ro_contract = oi_contract oi,
               ro_side = oi_side oi, ro_decision_mid = oi_decision_mid oi, ro_remaining = remaining,
               ro_first_fill_done = (remaining < oi_quantity oi)\<rparr> (rf_resting R),
            rf_order_index := bt_insert oid n (rf_order_index R),
            rf_live := bt_insert (oi_contract oi) count (rf_live R)\<rparr>))"

definition fill_submit ::
    "ext \<Rightarrow> 'b book_api \<Rightarrow> order_intent \<Rightarrow> order_id \<Rightarrow> chain_snapshot \<Rightarrow> 'b realistic_fill \<times> fill list
      \<Rightarrow> ('b realistic_fill \<times> fill list) res" where
  "fill_submit X B oi oid snap = (\<lambda>(R, out).
     let tick = sp_tick (cs_spec snap) in
     if tick = 0 then Inl (realistic_err MsgSubmitTick)
     else rbind (limit_of oi snap tick (rf_cap_ticks R)) (\<lambda>limit_cents.
          rbind (cents_to_ticks limit_cents tick) (\<lambda>price_ticks.
          rbind (next_strategy_order_id R) (\<lambda>(n, R).
          rbind (leaf_book_in X B (oi_contract oi) (rf_books R)) (\<lambda>(book, books).
          rbind (book_res (ob_add_limit_full B (Sequential n) (to_ob_side (oi_side oi)) price_ticks
                   (oi_quantity oi) book)) (\<lambda>(result, book).
          let remaining = tr_remaining result in
          rbind (if oi_tif oi = Ioc \<and> remaining > 0 then cancel_in_book B n book else Inr book) (\<lambda>book.
          let R = R\<lparr>rf_books := bt_insert (oi_contract oi) book books\<rparr> in
          if crosses_self R (tr_trades result) then Inl (realistic_err MsgSelfCross)
          else rbind (fold_res (level_fill (rf_fees R) oi snap tick) (enumerate 0 (tr_trades result)) out) (\<lambda>out.
          rbind (if oi_tif oi = Gtc \<and> remaining > 0 then track_resting oi oid n remaining R else Inr R) (\<lambda>R.
          Inr (R, out))))))))))"

section \<open>The step\<close>

definition lifecycle_command :: "'b book_api \<Rightarrow> order_command \<Rightarrow> 'b realistic_fill \<Rightarrow> 'b realistic_fill res" where
  "lifecycle_command B cmd R =
     (case cmd of
        Cancel oid \<Rightarrow> cancel_resting B oid R
      | Replace oid _ \<Rightarrow> cancel_resting B oid R
      | Submit _ \<Rightarrow> Inr R)"

definition submitted :: "order_command \<Rightarrow> order_intent option" where
  "submitted cmd = (case cmd of Submit oi \<Rightarrow> Some oi | Replace _ oi \<Rightarrow> Some oi | Cancel _ \<Rightarrow> None)"

definition push_group :: "nat \<Rightarrow> nat \<Rightarrow> nat \<Rightarrow> 'b realistic_fill \<Rightarrow> 'b realistic_fill res" where
  "push_group index before after R =
     rbind (ok_or (checked_sub Usize (int after) (int before)) (realistic_err MsgBufferShrank)) (\<lambda>produced.
     if produced > 0
     then rbind (checked (try_into U32 produced)) (\<lambda>n.
          Inr (R\<lparr>rf_groups := rf_groups R @ [\<lparr>fg_command = index, fg_count = n\<rparr>]\<rparr>))
     else Inr R)"

definition submit_step ::
    "ext \<Rightarrow> 'b book_api \<Rightarrow> order_id list \<Rightarrow> chain_snapshot \<Rightarrow> nat \<times> order_command
      \<Rightarrow> nat \<times> 'b realistic_fill \<times> fill list \<Rightarrow> (nat \<times> 'b realistic_fill \<times> fill list) res" where
  "submit_step X B ids snap = (\<lambda>(index, cmd) (k, R, out).
     case submitted cmd of
       None \<Rightarrow> Inr (k, R, out)
     | Some oi \<Rightarrow>
         rbind (if k < length ids then Inr (ids ! k) else Inl (realistic_err MsgIdsUnderCover)) (\<lambda>oid.
         rbind (checked (checked_add Usize (int k) 1)) (\<lambda>k'.
         rbind (fill_submit X B oi oid snap (R, out)) (\<lambda>(R, out').
         rbind (push_group index (length out) (length out') R) (\<lambda>R.
         Inr (nat k', R, out'))))))"

definition realistic_fill_op ::
    "ext \<Rightarrow> 'b book_api \<Rightarrow> order_command list \<Rightarrow> order_id list \<Rightarrow> chain_snapshot \<Rightarrow> fill list
      \<Rightarrow> 'b realistic_fill \<Rightarrow> ('b realistic_fill \<times> fill list) res" where
  "realistic_fill_op X B cmds ids snap buf R =
     rbind (refresh_books X B snap (R\<lparr>rf_groups := [], rf_carry := []\<rparr>, buf)) (\<lambda>(R, buf).
     rbind (fold_res (lifecycle_command B) cmds R) (\<lambda>R.
     rbind (fold_res (submit_step X B ids snap) (enumerate 0 cmds) (0, R, buf)) (\<lambda>(_, R, buf).
     Inr (R, buf))))"

definition realistic_model :: "ext \<Rightarrow> 'b book_api \<Rightarrow> 'b realistic_fill execution_model" where
  "realistic_model X B = \<lparr>ex_fill = realistic_fill_op X B, ex_carry = rf_carry,
     ex_groups = (\<lambda>R. Some (rf_groups R)), ex_mode = (\<lambda>_. Realistic)\<rparr>"

end
