(* ===== verification/Realistic_Mirror.thy ===== *)
theory Realistic_Mirror
  imports Realistic_Fill
begin

text \<open>
  What the realistic fill model keeps: the fills of a step are its carried groups followed by
  the groups of its commands, and the mirror of the resting orders (the orders by book id, the
  engine ids, the number of live orders of each contract) describes one set of orders, whose
  books are kept.
\<close>

lemma if_Inl_Inr: "(if P then Inl e else m) = Inr x \<longleftrightarrow> \<not> P \<and> m = Inr x"
  by auto

section \<open>The groups account for the fills\<close>

definition carry_total :: "'b realistic_fill \<Rightarrow> int" where
  "carry_total R = sum_list (map cg_count (rf_carry R))"

definition group_total :: "'b realistic_fill \<Rightarrow> int" where
  "group_total R = sum_list (map fg_count (rf_groups R))"

definition accounted :: "fill list \<Rightarrow> 'b realistic_fill \<times> fill list \<Rightarrow> bool" where
  "accounted buf = (\<lambda>(R, out). \<exists>new. out = buf @ new \<and> int (length new) = carry_total R + group_total R)"

lemma push_carry_total:
  "push_carry oid groups = Inr groups' \<Longrightarrow>
     sum_list (map cg_count groups') = sum_list (map cg_count groups) + 1"
  by (cases groups rule: rev_cases) (auto simp: push_carry_def res_simps checked_defs split: if_splits)

lemma drop_resting_frame:
  "drop_resting n R = Inr R' \<Longrightarrow> rf_carry R' = rf_carry R \<and> rf_groups R' = rf_groups R \<and>
     rf_fees R' = rf_fees R \<and> rf_books R' = rf_books R \<and> rf_order_index R' = rf_order_index R \<and>
     rf_next_strategy R' = rf_next_strategy R"
  by (auto simp: drop_resting_def res_simps split: option.splits)

lemma refresh_trade_parts:
  assumes "refresh_trade contract tick snap n meta price_ticks q (R, out) = Inr (R', out')"
  obtains f remaining carry S where "out' = out @ [f]"
    and "checked_sub U64 (ro_remaining meta) q = Some remaining"
    and "push_carry (ro_order_id meta) (rf_carry R) = Inr carry"
    and "S = R\<lparr>rf_resting := bt_insert n (meta\<lparr>ro_first_fill_done := True, ro_remaining := remaining\<rparr>)
           (rf_resting R), rf_carry := carry\<rparr>"
    and "if remaining = 0 then (\<exists>T. drop_resting n S = Inr T \<and>
           R' = T\<lparr>rf_order_index := bt_remove (ro_order_id meta) (rf_order_index T)\<rparr>) else R' = S"
  using assms by (auto simp: refresh_trade_def res_simps Let_def split: if_splits intro: that)

lemma refresh_trade_accounted:
  assumes "refresh_trade contract tick snap n meta price_ticks q (R, out) = Inr (R', out')"
    and "accounted buf (R, out)"
  shows "accounted buf (R', out')"
proof (rule refresh_trade_parts [OF assms(1)])
  fix f remaining carry and S :: "'a realistic_fill"
  assume out': "out' = out @ [f]" and carry: "push_carry (ro_order_id meta) (rf_carry R) = Inr carry"
    and S: "S = R\<lparr>rf_resting := bt_insert n (meta\<lparr>ro_first_fill_done := True, ro_remaining := remaining\<rparr>)
           (rf_resting R), rf_carry := carry\<rparr>"
    and R': "if remaining = 0 then (\<exists>T. drop_resting n S = Inr T \<and>
           R' = T\<lparr>rf_order_index := bt_remove (ro_order_id meta) (rf_order_index T)\<rparr>) else R' = S"
  have "rf_carry R' = carry \<and> rf_groups R' = rf_groups R"
    using R' drop_resting_frame [of n S] by (auto simp: S split: if_splits)
  with assms(2) show ?thesis
    using push_carry_total [OF carry] by (auto simp: accounted_def carry_total_def group_total_def out')
qed

lemma capture_accounted:
  assumes "capture_refresh_fill contract tick snap t s = Inr s'" and "accounted buf s"
  shows "accounted buf s'"
proof -
  obtain R out R' out' where s: "s = (R, out)" "s' = (R', out')" by fastforce
  show ?thesis
    using assms refresh_trade_accounted [of contract tick snap _ _ "td_price t" "td_quantity t" R out R' out' buf]
    by (auto simp: capture_refresh_fill_def s split: ob_order_id.splits option.splits)
qed

lemma reseed_order_parts:
  assumes "reseed_order X B tick snap ord (R, out) = Inr (R', out')"
  obtains n S book books book' T and result :: trade_result where "next_maker_order_id R = Inr (n, S)"
    and "leaf_book_in X B (so_contract ord) (rf_books S) = Inr (book, books)"
    and "fold_res (capture_refresh_fill (so_contract ord) tick snap) (tr_trades result)
      (S\<lparr>rf_books := bt_insert (so_contract ord) book' books\<rparr>, out) = Inr (T, out')"
    and "R' = (if tr_remaining result > 0
          then T\<lparr>rf_seed_ids := bt_insert (so_contract ord)
                   (unwrap_or [] (bt_get (rf_seed_ids T) (so_contract ord)) @ [n]) (rf_seed_ids T)\<rparr>
          else T)"
  using assms by (auto simp: reseed_order_def rbind_Inr Let_def book_res_Inr split del: if_split intro: that)

lemma next_maker_frame: "next_maker_order_id R = Inr (n, S) \<Longrightarrow> S = R\<lparr>rf_next_maker := rf_next_maker S\<rparr>"
  by (auto simp: next_maker_order_id_def res_simps Let_def)

lemma reseed_order_accounted:
  assumes "reseed_order X B tick snap ord (R, out) = Inr (R', out')" and "accounted buf (R, out)"
  shows "accounted buf (R', out')"
proof (rule reseed_order_parts [OF assms(1)])
  fix n S book books book' T and result :: trade_result
  assume n: "next_maker_order_id R = Inr (n, S)"
    and loop: "fold_res (capture_refresh_fill (so_contract ord) tick snap) (tr_trades result)
      (S\<lparr>rf_books := bt_insert (so_contract ord) book' books\<rparr>, out) = Inr (T, out')"
    and R': "R' = (if tr_remaining result > 0
          then T\<lparr>rf_seed_ids := bt_insert (so_contract ord)
                   (unwrap_or [] (bt_get (rf_seed_ids T) (so_contract ord)) @ [n]) (rf_seed_ids T)\<rparr>
          else T)"
  from next_maker_frame [OF n] obtain m where S: "S = R\<lparr>rf_next_maker := m\<rparr>" by blast
  have "accounted buf (S\<lparr>rf_books := bt_insert (so_contract ord) book' books\<rparr>, out)"
    using assms(2) by (simp add: accounted_def carry_total_def group_total_def S)
  then have "accounted buf (T, out')"
    using fold_res_invariant [OF loop, of "accounted buf"] capture_accounted by blast
  then show ?thesis by (simp add: accounted_def carry_total_def group_total_def R')
qed

lemma refresh_accounted:
  assumes "refresh_books X B snap (R, out) = Inr (R', out')" and "accounted buf (R, out)"
  shows "accounted buf (R', out')"
proof (cases "rf_profile R")
  case None
  with assms show ?thesis by (simp add: refresh_books_def)
next
  case (Some profile)
  with assms(1) obtain S plan T where S: "cancel_stale_seed B R = Inr S"
    and loop: "fold_res (reseed_order X B (sp_tick (cs_spec snap)) snap) plan (evict_departed snap S, out) = Inr (T, out')"
    and R': "R' = T\<lparr>rf_seed_plan := plan\<rparr>"
    by (auto simp: refresh_books_def reseed_def res_simps Let_def split: if_splits)
  have "accounted buf (evict_departed snap S, out)"
    using S assms(2) by (auto simp: cancel_stale_seed_def evict_departed_def accounted_def carry_total_def
        group_total_def res_simps Let_def)
  then have "accounted buf (T, out')"
    using fold_res_invariant [OF loop, of "accounted buf"] reseed_order_accounted by fastforce
  then show ?thesis by (simp add: R' accounted_def carry_total_def group_total_def)
qed

lemma cancel_resting_frame:
  "cancel_resting B oid R = Inr R' \<Longrightarrow> rf_carry R' = rf_carry R \<and> rf_groups R' = rf_groups R"
  by (auto simp: cancel_resting_def res_simps dest!: drop_resting_frame split: option.splits)

lemma lifecycle_frame:
  assumes "fold_res (lifecycle_command B) cmds R = Inr R'"
  shows "rf_carry R' = rf_carry R \<and> rf_groups R' = rf_groups R"
  by (rule fold_res_invariant [OF assms, where P = "\<lambda>S. rf_carry S = rf_carry R \<and> rf_groups S = rf_groups R"])
    (auto simp: lifecycle_command_def dest!: cancel_resting_frame split: order_command.splits)

lemma level_fills_append:
  assumes "fold_res (level_fill fees oi snap tick) ts out = Inr out'"
  shows "\<exists>new. out' = out @ new"
  by (rule fold_res_invariant [OF assms, where P = "\<lambda>o'. \<exists>new. o' = out @ new"])
    (auto simp: level_fill_def res_simps Let_def)

lemma fill_submit_parts:
  assumes "fill_submit X B oi oid snap (R, out) = Inr (R', out')"
  obtains n S book books book' remaining T ts where "next_strategy_order_id R = Inr (n, S)"
    and "leaf_book_in X B (oi_contract oi) (rf_books S) = Inr (book, books)"
    and "T = S\<lparr>rf_books := bt_insert (oi_contract oi) book' books\<rparr>"
    and "fold_res (level_fill (rf_fees T) oi snap (sp_tick (cs_spec snap))) ts out = Inr out'"
    and "(if oi_tif oi = Gtc \<and> remaining > 0 then track_resting oi oid n remaining T else Inr T) = Inr R'"
  using assms
  by (auto simp: fill_submit_def rbind_Inr Let_def book_res_Inr if_Inl_Inr split del: if_split intro: that)

lemma fill_submit_frame:
  assumes "fill_submit X B oi oid snap (R, out) = Inr (R', out')"
  shows "rf_carry R' = rf_carry R \<and> rf_groups R' = rf_groups R \<and> (\<exists>new. out' = out @ new)"
proof (rule fill_submit_parts [OF assms])
  fix n S book books book' remaining T ts
  assume n: "next_strategy_order_id R = Inr (n, S)"
    and T: "T = S\<lparr>rf_books := bt_insert (oi_contract oi) book' books\<rparr>"
    and out: "fold_res (level_fill (rf_fees T) oi snap (sp_tick (cs_spec snap))) ts out = Inr out'"
    and R': "(if oi_tif oi = Gtc \<and> remaining > 0 then track_resting oi oid n remaining T else Inr T) = Inr R'"
  have "rf_carry S = rf_carry R \<and> rf_groups S = rf_groups R"
    using n by (auto simp: next_strategy_order_id_def Let_def split: if_splits)
  moreover have "rf_carry R' = rf_carry T \<and> rf_groups R' = rf_groups T"
    using R' by (auto simp: track_resting_def res_simps split: if_splits)
  ultimately show ?thesis using level_fills_append [OF out] T by simp
qed

lemma push_group_Inr:
  assumes "push_group index before after R = Inr R'"
  shows "before \<le> after \<and> R' = (if before < after
    then R\<lparr>rf_groups := rf_groups R @ [\<lparr>fg_command = index, fg_count = int after - int before\<rparr>]\<rparr> else R)"
  using assms by (auto simp: push_group_def res_simps checked_defs width_simps split: if_splits)

lemma submit_step_parts:
  assumes "submit_step X B ids snap (index, cmd) (k, R, out) = Inr (k', R', out')" and "submitted cmd = Some oi"
  obtains S where "k < length ids" and "k' = Suc k" and "fill_submit X B oi (ids ! k) snap (R, out) = Inr (S, out')"
    and "push_group index (length out) (length out') S = Inr R'"
proof -
  from assms(1) obtain oid k1 where
    oid: "(if k < length ids then Inr (ids ! k) else Inl (realistic_err MsgIdsUnderCover)) = Inr oid"
    and k1: "checked (checked_add Usize (int k) 1) = Inr k1"
    and rest: "rbind (fill_submit X B oi oid snap (R, out)) (\<lambda>(R, out').
         rbind (push_group index (length out) (length out') R) (\<lambda>R. Inr (nat k1, R, out'))) = Inr (k', R', out')"
    unfolding submit_step_def assms(2) prod.case option.case by (auto elim!: rbindE)
  have "k < length ids" "oid = ids ! k" using oid by (auto split: if_splits)
  moreover have "nat k1 = Suc k" using k1 by (auto simp: checked_defs res_simps)
  ultimately show ?thesis using rest by (auto simp: rbind_Inr intro: that)
qed

lemma submit_step_accounted:
  assumes "submit_step X B ids snap (index, cmd) (k, R, out) = Inr (k', R', out')" and "accounted buf (R, out)"
  shows "accounted buf (R', out')"
proof (cases "submitted cmd")
  case None
  with assms show ?thesis by (simp add: submit_step_def)
next
  case (Some oi)
  from submit_step_parts [OF assms(1) Some] obtain S where
    S: "fill_submit X B oi (ids ! k) snap (R, out) = Inr (S, out')"
    and group: "push_group index (length out) (length out') S = Inr R'" by metis
  from fill_submit_frame [OF S] obtain new where "rf_carry S = rf_carry R" "rf_groups S = rf_groups R"
    and "out' = out @ new" by blast
  then show ?thesis
    using assms(2) push_group_Inr [OF group]
    by (cases "new = []") (auto simp: accounted_def carry_total_def group_total_def)
qed

lemma realistic_fill_parts:
  assumes "realistic_fill_op X B cmds ids snap buf R = Inr (R', buf')"
  obtains S out T k where "refresh_books X B snap (R\<lparr>rf_groups := [], rf_carry := []\<rparr>, buf) = Inr (S, out)"
    and "fold_res (lifecycle_command B) cmds S = Inr T"
    and "fold_res (submit_step X B ids snap) (enumerate 0 cmds) (0, T, out) = Inr (k, R', buf')"
  using assms by (auto simp: realistic_fill_op_def res_simps intro: that)

lemma realistic_accounts:
  assumes "realistic_fill_op X B cmds ids snap buf R = Inr (R', buf')"
  shows "accounted buf (R', buf')"
proof (rule realistic_fill_parts [OF assms])
  fix S out T k
  assume refresh: "refresh_books X B snap (R\<lparr>rf_groups := [], rf_carry := []\<rparr>, buf) = Inr (S, out)"
    and cancels: "fold_res (lifecycle_command B) cmds S = Inr T"
    and submits: "fold_res (submit_step X B ids snap) (enumerate 0 cmds) (0, T, out) = Inr (k, R', buf')"
  have "accounted buf (S, out)"
    by (rule refresh_accounted [OF refresh]) (simp add: accounted_def carry_total_def group_total_def)
  then have "accounted buf (T, out)"
    using lifecycle_frame [OF cancels] by (simp add: accounted_def carry_total_def group_total_def)
  then have "accounted buf (snd (k, R', buf'))"
    by (intro fold_res_invariant [OF submits, where P = "\<lambda>s. accounted buf (snd s)"])
      (auto dest: submit_step_accounted)
  then show ?thesis by simp
qed

interpretation realistic: execution_model "ex_fill (realistic_model X B)" "ex_carry (realistic_model X B)"
    "ex_groups (realistic_model X B)" "\<lambda>_. True" for X B
proof unfold_locales
  fix cmds ids snap buf x x' buf'
  assume "ex_fill (realistic_model X B) cmds ids snap buf x = Inr (x', buf')"
  then show "\<exists>new. buf' = buf @ new"
    using realistic_accounts [of X B cmds ids snap buf x x' buf'] by (auto simp: realistic_model_def accounted_def)
next
  fix cmds ids snap buf x x' new
  assume "ex_fill (realistic_model X B) cmds ids snap buf x = Inr (x', buf @ new)"
  then show "case ex_groups (realistic_model X B) x' of
      None \<Rightarrow> ex_carry (realistic_model X B) x' = [] \<and> length new = length (submits cmds)
    | Some gs \<Rightarrow> int (length new) =
        sum_list (map cg_count (ex_carry (realistic_model X B) x')) + sum_list (map fg_count gs)"
    using realistic_accounts [of X B cmds ids snap buf x x' "buf @ new"]
    by (auto simp: realistic_model_def accounted_def carry_total_def group_total_def)
qed simp

section \<open>Counting the entries of a map\<close>

lemma bt_remove_insert: "bt_remove k (bt_insert k v m) = bt_remove k m"
  by (induction k v m rule: bt_insert.induct) (auto simp: bt_remove_def)

lemma count_fresh:
  "bt_get m k = None \<Longrightarrow> length (filter P (bt_insert k v m)) = length (filter P m) + (if P (k, v) then 1 else 0)"
  by (induction k v m rule: bt_insert.induct) (auto simp: bt_get_def split: if_splits)

lemma count_remove:
  assumes "bt_inv m" and "bt_get m k = Some v"
  shows "length (filter P m) = length (filter P (bt_remove k m)) + (if P (k, v) then 1 else 0)"
  using assms
proof (induction m)
  case (Cons e m)
  obtain k' v' where e: "e = (k', v')" by fastforce
  have inv: "bt_inv m" and above: "\<forall>x \<in> set (map fst m). k' < x"
    using Cons.prems(1) by (auto simp: bt_inv_def e)
  show ?case
  proof (cases "k' = k")
    case True
    have "bt_remove k m = m"
      using above True by (force simp: bt_remove_def filter_id_conv)
    then show ?thesis using Cons.prems(2) True by (simp add: e bt_remove_def bt_get_def)
  next
    case False
    with Cons.IH [OF inv] Cons.prems(2) show ?thesis by (simp add: e bt_remove_def bt_get_def)
  qed
qed (simp add: bt_get_def)

lemma count_update:
  assumes "bt_inv m" and "bt_get m k = Some v" and "P (k, v') = P (k, v)"
  shows "length (filter P (bt_insert k v' m)) = length (filter P m)"
  using count_remove [OF assms(1,2), of P] count_remove [of "bt_insert k v' m" k v' P] assms
  by (simp add: bt_remove_insert)

section \<open>The mirror\<close>

text \<open>How many orders rest in the book of a contract.\<close>

definition resting_at :: "(int, resting_order) btmap \<Rightarrow> contract_key \<Rightarrow> int" where
  "resting_at m c = int (length (filter (\<lambda>(_, r). ro_contract r = c) m))"

definition mirror_inv :: "'b realistic_fill \<Rightarrow> bool" where
  "mirror_inv R \<longleftrightarrow> bt_inv (rf_resting R) \<and>
     (\<forall>n r. bt_get (rf_resting R) n = Some r \<longrightarrow>
        bt_get (rf_order_index R) (ro_order_id r) = Some n \<and> n < rf_next_strategy R \<and>
        bt_contains (rf_books R) (ro_contract r)) \<and>
     (\<forall>oid n. bt_get (rf_order_index R) oid = Some n \<longrightarrow>
        (\<exists>r. bt_get (rf_resting R) n = Some r \<and> ro_order_id r = oid)) \<and>
     (\<forall>c. fits U32 (resting_at (rf_resting R) c) \<and>
        bt_get (rf_live R) c = (if resting_at (rf_resting R) c = 0 then None
                                else Some (resting_at (rf_resting R) c)))"

lemma mirror_new: "mirror_inv (with_liquidity_profile fees cap seed profile)" "mirror_inv (realistic_new fees cap seed)"
  by (simp_all add: mirror_inv_def with_liquidity_profile_def realistic_new_def resting_at_def width_simps)
    (simp_all add: bt_empty_def)

lemma mirror_restingD:
  assumes "mirror_inv R" and "bt_get (rf_resting R) n = Some r"
  shows "bt_get (rf_order_index R) (ro_order_id r) = Some n" "n < rf_next_strategy R"
    "bt_contains (rf_books R) (ro_contract r)"
  using assms by (auto simp: mirror_inv_def)

lemma mirror_indexD:
  "mirror_inv R \<Longrightarrow> bt_get (rf_order_index R) oid = Some n \<Longrightarrow> \<exists>r. bt_get (rf_resting R) n = Some r \<and> ro_order_id r = oid"
  by (auto simp: mirror_inv_def)

text \<open>The operations that touch the books and counters only.\<close>

lemma mirror_frame:
  assumes "mirror_inv R" and "rf_resting S = rf_resting R" and "rf_order_index S = rf_order_index R"
    and "rf_live S = rf_live R" and "rf_next_strategy R \<le> rf_next_strategy S"
    and "\<And>c. bt_contains (rf_live R) c \<Longrightarrow> bt_contains (rf_books R) c \<Longrightarrow> bt_contains (rf_books S) c"
  shows "mirror_inv S"
proof -
  have "bt_contains (rf_books S) (ro_contract r) \<and> n < rf_next_strategy S"
    if r: "bt_get (rf_resting R) n = Some r" for n r
  proof
    have "resting_at (rf_resting R) (ro_contract r) \<noteq> 0"
      using bt_get_mem [OF r] by (force simp: resting_at_def filter_empty_conv)
    then have "bt_contains (rf_live R) (ro_contract r)"
      using assms(1) by (auto simp: mirror_inv_def bt_contains_def)
    then show "bt_contains (rf_books S) (ro_contract r)"
      using assms(6) mirror_restingD(3) [OF assms(1) r] by blast
  qed (use mirror_restingD(2) [OF assms(1) r] assms(5) in simp)
  with assms(1) show ?thesis by (auto simp: mirror_inv_def assms(2-4))
qed

lemma mirror_update:
  assumes "mirror_inv R" and r: "bt_get (rf_resting R) n = Some r"
    and "ro_order_id r' = ro_order_id r" and "ro_contract r' = ro_contract r"
  shows "mirror_inv (R\<lparr>rf_resting := bt_insert n r' (rf_resting R)\<rparr>)"
proof -
  have "resting_at (bt_insert n r' (rf_resting R)) c = resting_at (rf_resting R) c" for c
    using count_update [OF _ r, of "\<lambda>(_, q). ro_contract q = c" r'] assms
    by (simp add: resting_at_def mirror_inv_def)
  moreover have "ro_order_id r = oid" if "bt_get (rf_order_index R) oid = Some n" for oid
    using mirror_indexD [OF assms(1) that] r by simp
  ultimately show ?thesis using assms by (auto simp: mirror_inv_def)
qed

lemma resting_at_remove:
  assumes "bt_inv m" and "bt_get m n = Some r"
  shows "resting_at (bt_remove n m) c = resting_at m c - (if ro_contract r = c then 1 else 0)"
  using count_remove [OF assms, of "\<lambda>(_, q). ro_contract q = c"] by (simp add: resting_at_def)

text \<open>Releasing a resting order succeeds, and leaves the mirror of the others.\<close>

lemma release_ok:
  assumes "mirror_inv R" and r: "bt_get (rf_resting R) n = Some r"
  shows "\<exists>live. release_live_order (rf_live R) (ro_contract r) = Inr live \<and>
    (\<forall>c. fits U32 (resting_at (bt_remove n (rf_resting R)) c) \<and>
       bt_get live c = (if resting_at (bt_remove n (rf_resting R)) c = 0 then None
                        else Some (resting_at (bt_remove n (rf_resting R)) c)))"
proof -
  have inv: "bt_inv (rf_resting R)" using assms(1) by (simp add: mirror_inv_def)
  let ?n = "resting_at (rf_resting R) (ro_contract r)"
  have rem: "resting_at (bt_remove n (rf_resting R)) c = resting_at (rf_resting R) c - (if ro_contract r = c then 1 else 0)" for c
    by (rule resting_at_remove [OF inv r])
  have nonneg: "0 \<le> resting_at (bt_remove n (rf_resting R)) c" for c by (simp add: resting_at_def)
  have pos: "1 \<le> ?n" using nonneg [of "ro_contract r"] rem [of "ro_contract r"] by simp
  have fits: "fits U32 (resting_at (rf_resting R) c)" for c using assms(1) by (simp add: mirror_inv_def)
  have live: "bt_get (rf_live R) c = (if resting_at (rf_resting R) c = 0 then None
      else Some (resting_at (rf_resting R) c))" for c
    using assms(1) by (simp add: mirror_inv_def)
  have sub: "checked_sub U32 ?n 1 = Some (?n - 1)"
    using fits [of "ro_contract r"] pos by (simp add: checked_defs width_simps)
  let ?live = "if ?n - 1 = 0 then bt_remove (ro_contract r) (rf_live R)
    else bt_insert (ro_contract r) (?n - 1) (rf_live R)"
  have "release_live_order (rf_live R) (ro_contract r) = Inr ?live"
    using pos sub live [of "ro_contract r"] by (simp add: release_live_order_def)
  moreover have "fits U32 (resting_at (bt_remove n (rf_resting R)) c)" for c
    using fits [of c] rem [of c] nonneg [of c] by (auto simp: width_simps split: if_splits)
  moreover have "bt_get ?live c = (if resting_at (bt_remove n (rf_resting R)) c = 0 then None
      else Some (resting_at (bt_remove n (rf_resting R)) c))" for c
    using live [of c] rem [of c] by auto
  ultimately show ?thesis by blast
qed

lemma drop_resting_ok:
  assumes "mirror_inv R" and r: "bt_get (rf_resting R) n = Some r"
  shows "\<exists>S. drop_resting n R = Inr S \<and>
    mirror_inv (S\<lparr>rf_order_index := bt_remove (ro_order_id r) (rf_order_index S)\<rparr>)"
proof -
  from release_ok [OF assms] obtain live where
    l: "release_live_order (rf_live R) (ro_contract r) = Inr live"
    and live: "\<And>c. fits U32 (resting_at (bt_remove n (rf_resting R)) c)"
      "\<And>c. bt_get live c = (if resting_at (bt_remove n (rf_resting R)) c = 0 then None
                        else Some (resting_at (bt_remove n (rf_resting R)) c))"
    by blast
  let ?S = "R\<lparr>rf_resting := bt_remove n (rf_resting R), rf_live := live\<rparr>"
  have "drop_resting n R = Inr ?S" using r l by (simp add: drop_resting_def)
  moreover have "mirror_inv (?S\<lparr>rf_order_index := bt_remove (ro_order_id r) (rf_order_index ?S)\<rparr>)"
  proof -
    have "bt_inv (bt_remove n (rf_resting R))" using assms(1) by (simp add: mirror_inv_def)
    moreover have "bt_get (bt_remove (ro_order_id r) (rf_order_index R)) (ro_order_id q) = Some k \<and>
        k < rf_next_strategy R \<and> bt_contains (rf_books R) (ro_contract q)"
      if "bt_get (bt_remove n (rf_resting R)) k = Some q" for k q
    proof -
      have k: "k \<noteq> n" "bt_get (rf_resting R) k = Some q" using that by (auto split: if_splits)
      with mirror_restingD [OF assms(1) k(2)] mirror_restingD(1) [OF assms] show ?thesis by auto
    qed
    moreover have "\<exists>q. bt_get (bt_remove n (rf_resting R)) k = Some q \<and> ro_order_id q = oid"
      if "bt_get (bt_remove (ro_order_id r) (rf_order_index R)) oid = Some k" for oid k
    proof -
      have oid: "oid \<noteq> ro_order_id r" "bt_get (rf_order_index R) oid = Some k" using that by (auto split: if_splits)
      with mirror_indexD [OF assms(1) oid(2)] r show ?thesis by auto
    qed
    ultimately show ?thesis using live unfolding mirror_inv_def by simp
  qed
  ultimately show ?thesis by blast
qed

section \<open>Operations on the mirror\<close>

text \<open>
  The defensive errors: a tracked order without a live count, a count below zero. A result is safe when it is none of them and, when it is a value, satisfies a
  condition.
\<close>

definition live_desync :: "backtest_error \<Rightarrow> bool" where
  "live_desync e \<longleftrightarrow> e = realistic_err MsgLiveMissing \<or> e = realistic_err MsgLiveUnderflow"

definition safe :: "('a \<Rightarrow> bool) \<Rightarrow> 'a res \<Rightarrow> bool" where
  "safe P r \<longleftrightarrow> (case r of Inl e \<Rightarrow> \<not> live_desync e | Inr x \<Rightarrow> P x)"

lemma safe_simps [simp]: "safe P (Inr x) = P x" "safe P (Inl e) = (\<not> live_desync e)"
  by (simp_all add: safe_def)

lemma safe_rbind: "safe P m \<Longrightarrow> (\<And>x. m = Inr x \<Longrightarrow> P x \<Longrightarrow> safe Q (f x)) \<Longrightarrow> safe Q (rbind m f)"
  by (cases m) auto

lemma safe_bind: "safe (\<lambda>_. True) m \<Longrightarrow> (\<And>x. m = Inr x \<Longrightarrow> safe Q (f x)) \<Longrightarrow> safe Q (rbind m f)"
  by (cases m) auto

lemma safe_fold:
  assumes "P s" and step: "\<And>x s. x \<in> set xs \<Longrightarrow> P s \<Longrightarrow> safe P (f x s)"
  shows "safe P (fold_res f xs s)"
  using assms
proof (induction xs arbitrary: s)
  case (Cons x xs)
  show ?case unfolding fold_res.simps
  proof (rule safe_rbind [of P])
    show "safe P (f x s)" using Cons.prems by simp
  next
    fix t assume "P t"
    then show "safe P (fold_res f xs t)" using Cons.prems(2) by (intro Cons.IH) auto
  qed
qed simp

lemma safe_checked [simp]: "safe (\<lambda>_. True) (checked r)"
  by (cases r) (simp_all add: live_desync_def realistic_err_def)

lemma safe_ok_or: "\<not> live_desync e \<Longrightarrow> safe (\<lambda>_. True) (ok_or r e)"
  by (cases r) simp_all

lemma safe_book [simp]: "safe (\<lambda>_. True) (book_res r)"
  by (auto simp: book_res_def live_desync_def realistic_err_def split: sum.splits)

lemma safe_all: "(\<And>e. r = Inl e \<Longrightarrow> \<not> live_desync e) \<Longrightarrow> safe (\<lambda>_. True) r"
  by (auto simp: safe_def split: sum.splits)

lemma safe_parts [simp]:
  "safe (\<lambda>_. True) (quantity_new q)"
  "safe (\<lambda>_. True) (to_contract_id X c)"
  "safe (\<lambda>_. True) (assemble_fill d mode fees charge)"
  "safe (\<lambda>_. True) (cents_to_ticks price tick)"
  "safe (\<lambda>_. True) (ticks_to_cents t tick)"
  "safe (\<lambda>_. True) (push_carry oid groups)"
  "safe (\<lambda>_. True) (next_maker_order_id R)"
  "safe (\<lambda>_. True) (next_strategy_order_id R)"
  "safe (\<lambda>_. True) (limit_of oi snap tick cap)"
  by (auto intro!: safe_all simp: live_desync_def realistic_err_def res_simps quantity_new_def
      to_contract_id_def expiration_ns_def assemble_fill_def slippage_cents_def fee_for_fill_def
      cents_to_ticks_def ticks_to_cents_def push_carry_def next_maker_order_id_def
      next_strategy_order_id_def limit_of_def marketable_limit_cents_def Let_def
      split: if_splits option.splits expiration.splits fee_charge.splits ob_side.splits)
    (metis fee_charge.exhaust ob_side.exhaust)+

text \<open>The mirror of orders whose engine ids are in a set.\<close>

definition mirror_of :: "order_id set \<Rightarrow> 'b realistic_fill \<Rightarrow> bool" where
  "mirror_of D R \<longleftrightarrow> mirror_inv R \<and> (\<forall>oid. bt_contains (rf_order_index R) oid \<longrightarrow> oid \<in> D)"

lemma mirror_of_frame:
  assumes "mirror_of D R" and "rf_resting S = rf_resting R" and "rf_order_index S = rf_order_index R"
    and "rf_live S = rf_live R" and "rf_next_strategy R \<le> rf_next_strategy S"
    and "\<And>c. bt_contains (rf_live R) c \<Longrightarrow> bt_contains (rf_books R) c \<Longrightarrow> bt_contains (rf_books S) c"
  shows "mirror_of D S"
  using assms mirror_frame [of R S] by (simp add: mirror_of_def)

lemma mirror_of_simps [simp]:
  "mirror_of D (R\<lparr>rf_seed_ids := ids\<rparr>) = mirror_of D R"
  "mirror_of D (R\<lparr>rf_seed_plan := plan\<rparr>) = mirror_of D R"
  "mirror_of D (R\<lparr>rf_groups := groups\<rparr>) = mirror_of D R"
  "mirror_of D (R\<lparr>rf_carry := carry\<rparr>) = mirror_of D R"
  by (simp_all add: mirror_of_def mirror_inv_def)

lemma contains_insert: "bt_contains m c \<Longrightarrow> bt_contains (bt_insert c' v m) c"
  by (simp add: bt_contains_def)

lemma leaf_book_contains:
  "leaf_book_in X B c books = Inr (book, books') \<Longrightarrow> bt_contains books d \<Longrightarrow> bt_contains books' d"
  by (auto simp: leaf_book_in_def res_simps Let_def contains_insert split: option.splits)

lemma leaf_book_safe [simp]: "safe (\<lambda>_. True) (leaf_book_in X B c books)"
  by (auto simp: leaf_book_in_def Let_def intro!: safe_bind [of "to_contract_id X c"] split: option.splits)

lemma drop_resting_mirror:
  assumes "mirror_of D R" and r: "bt_get (rf_resting R) n = Some r"
  shows "safe (\<lambda>S. mirror_of D (S\<lparr>rf_order_index := bt_remove (ro_order_id r) (rf_order_index S)\<rparr>)) (drop_resting n R)"
proof -
  from drop_resting_ok [OF _ r] assms(1) obtain S where S: "drop_resting n R = Inr S"
    and "mirror_inv (S\<lparr>rf_order_index := bt_remove (ro_order_id r) (rf_order_index S)\<rparr>)"
    by (auto simp: mirror_of_def)
  moreover have "rf_order_index S = rf_order_index R" using drop_resting_frame [OF S] by simp
  ultimately show ?thesis using assms(1) by (auto simp: mirror_of_def bt_contains_def)
qed

lemma refresh_trade_mirror:
  assumes "mirror_of D R" and r: "bt_get (rf_resting R) n = Some meta"
  shows "safe (\<lambda>s. mirror_of D (fst s)) (refresh_trade contract tick snap n meta price_ticks q (R, out))"
proof -
  have updated: "mirror_of D (R\<lparr>rf_resting := bt_insert n (meta\<lparr>ro_first_fill_done := True, ro_remaining := m\<rparr>)
      (rf_resting R)\<rparr>)" for m
    using assms mirror_update [OF _ r, of "meta\<lparr>ro_first_fill_done := True, ro_remaining := m\<rparr>"]
    by (simp add: mirror_of_def)
  have drop: "safe (\<lambda>S. mirror_of D (S\<lparr>rf_order_index := bt_remove (ro_order_id meta) (rf_order_index S)\<rparr>))
      (drop_resting n (R\<lparr>rf_resting := bt_insert n (meta\<lparr>ro_first_fill_done := True, ro_remaining := m\<rparr>)
      (rf_resting R), rf_carry := carry\<rparr>))" for m carry
    using drop_resting_mirror [of D "R\<lparr>rf_resting := bt_insert n (meta\<lparr>ro_first_fill_done := True, ro_remaining := m\<rparr>)
      (rf_resting R), rf_carry := carry\<rparr>" n "meta\<lparr>ro_first_fill_done := True, ro_remaining := m\<rparr>"] updated
    by simp
  show ?thesis
    unfolding refresh_trade_def prod.case Let_def
    by (intro safe_bind safe_parts safe_checked safe_ok_or)
      (auto simp: live_desync_def realistic_err_def updated intro!: safe_rbind [OF drop])
qed

lemma capture_mirror:
  assumes "mirror_of D (fst s)"
  shows "safe (\<lambda>s. mirror_of D (fst s)) (capture_refresh_fill contract tick snap t s)"
  using assms refresh_trade_mirror [of D "fst s" _ _ contract tick snap "td_price t" "td_quantity t" "snd s"]
  by (simp add: capture_refresh_fill_def split: ob_order_id.splits option.splits)

lemma reseed_order_mirror:
  assumes "mirror_of D (fst s)"
  shows "safe (\<lambda>s. mirror_of D (fst s)) (reseed_order X B tick snap ord s)"
proof -
  obtain R out where s: "s = (R, out)" by fastforce
  show ?thesis
    unfolding reseed_order_def s prod.case Let_def
  proof (intro safe_bind safe_parts safe_checked, goal_cases)
    case (1 price n_S)
    obtain n S where n_S: "n_S = (n, S)" by fastforce
    from next_maker_frame [of R n S] 1(2) obtain m where S: "S = R\<lparr>rf_next_maker := m\<rparr>" by (auto simp: n_S)
    show ?case unfolding n_S prod.case
    proof (intro safe_bind leaf_book_safe, goal_cases)
      case (1 leaf)
      obtain book books where leaf: "leaf = (book, books)" by fastforce
      note books = leaf_book_contains [OF 1 [unfolded leaf]]
      show ?case unfolding leaf prod.case
      proof (intro safe_bind safe_book, goal_cases)
        case (1 added)
        obtain result book' where added: "added = (result, book')" by fastforce
        let ?T = "S\<lparr>rf_books := bt_insert (so_contract ord) book' books\<rparr>"
        have "mirror_of D ?T"
        proof (rule mirror_of_frame [of D R])
          fix c assume "bt_contains (rf_books R) c"
          then have "bt_contains (rf_books S) c" by (simp add: S)
          then show "bt_contains (rf_books ?T) c" using contains_insert [OF books] by simp
        qed (use assms in \<open>simp_all add: s S\<close>)
        then have loop: "safe (\<lambda>s. mirror_of D (fst s))
            (fold_res (capture_refresh_fill (so_contract ord) tick snap) (tr_trades result) (?T, out))"
          by (intro safe_fold capture_mirror) simp_all
        show ?case unfolding added prod.case
          by (rule safe_rbind [OF loop]) (simp add: case_prod_beta)
      qed
    qed
  qed
qed

lemma cancel_stale_mirror:
  fixes R :: "'a realistic_fill"
  assumes "mirror_of D R"
  shows "safe (mirror_of D) (cancel_stale_seed B R)"
proof -
  have contract: "safe (\<lambda>books'. \<forall>c. bt_contains books c \<longrightarrow> bt_contains books' c) (cancel_contract_seed B entry books)"
    for entry and books :: "(contract_key, 'a) btmap"
  proof -
    have "safe (\<lambda>_. True) (fold_res (cancel_in_book B) ids book)" for ids book
      by (rule safe_fold) (auto simp: cancel_in_book_def intro!: safe_bind)
    then show ?thesis
      by (auto simp: cancel_contract_seed_def contains_insert intro!: safe_bind split: prod.splits option.splits)
  qed
  have loop: "safe (\<lambda>books'. \<forall>c. bt_contains (rf_books R) c \<longrightarrow> bt_contains books' c)
      (fold_res (cancel_contract_seed B) (rf_seed_ids R) (rf_books R))"
  proof (rule safe_fold)
    fix entry and books :: "(contract_key, 'a) btmap"
    assume "\<forall>c. bt_contains (rf_books R) c \<longrightarrow> bt_contains books c"
    with contract [of books entry] show "safe (\<lambda>books'. \<forall>c. bt_contains (rf_books R) c \<longrightarrow> bt_contains books' c)
        (cancel_contract_seed B entry books)"
      by (auto simp: safe_def split: sum.splits)
  qed simp
  show ?thesis
    unfolding cancel_stale_seed_def
  proof (rule safe_rbind [OF loop])
    fix books :: "(contract_key, 'a) btmap"
    assume "\<forall>c. bt_contains (rf_books R) c \<longrightarrow> bt_contains books c"
    then show "safe (mirror_of D) (Inr (R\<lparr>rf_books := books,
        rf_seed_ids := map (\<lambda>(contract, _). (contract, [])) (rf_seed_ids R)\<rparr>))"
      using assms by (simp add: mirror_of_frame [of D R])
  qed
qed

text \<open>The eviction of departed contracts never takes the book of a resting order.\<close>

lemma evict_mirror: "mirror_of D R \<Longrightarrow> mirror_of D (evict_departed snap R)"
  by (rule mirror_of_frame [of D R]) (auto simp: evict_departed_def Let_def bt_contains_def)

lemma plan_seed_safe: "safe (\<lambda>_. True) (plan_seed X snap profile)"
proof -
  have levels: "safe (\<lambda>_. True) (push_levels X c is_ask touch_cents tick decay touch levels factor plan)"
    for c is_ask touch_cents tick decay touch levels factor plan
  proof (induction levels arbitrary: factor plan)
    case (Cons level levels)
    show ?case unfolding push_levels.simps
      by (intro safe_bind) (auto simp: decayed_size_def level_price_def live_desync_def realistic_err_def Cons.IH
          intro!: safe_bind safe_ok_or split: option.splits)
  qed simp
  have "safe (\<lambda>_. True) (fold_res (plan_quote X profile tick) qs plan)" for tick qs plan
    by (rule safe_fold) (auto simp: plan_quote_def push_side_ladder_def levels intro!: safe_bind)
  then show ?thesis by (simp add: plan_seed_def Let_def live_desync_def realistic_err_def)
qed

lemma refresh_mirror:
  assumes "mirror_of D R"
  shows "safe (\<lambda>s. mirror_of D (fst s)) (refresh_books X B snap (R, out))"
proof (cases "rf_profile R")
  case None
  with assms show ?thesis by (simp add: refresh_books_def)
next
  case (Some profile)
  have reseed: "safe (\<lambda>s. mirror_of D (fst s)) (reseed X B snap profile tick (S, out))" if "mirror_of D S" for S tick
  proof -
    have loop: "safe (\<lambda>s. mirror_of D (fst s)) (fold_res (reseed_order X B tick snap) plan (S, out))" for plan
      using that by (intro safe_fold reseed_order_mirror) simp_all
    show ?thesis unfolding reseed_def
      by (rule safe_bind [OF plan_seed_safe], rule safe_rbind [OF loop]) (simp add: case_prod_beta)
  qed
  show ?thesis
    using safe_rbind [OF cancel_stale_mirror [OF assms], of B "\<lambda>s. mirror_of D (fst s)"
        "\<lambda>R. reseed X B snap profile (sp_tick (cs_spec snap)) (evict_departed snap R, out)"]
    by (simp add: refresh_books_def Some Let_def reseed evict_mirror live_desync_def realistic_err_def)
qed

lemma cancel_resting_mirror:
  assumes "mirror_of D R"
  shows "safe (mirror_of D) (cancel_resting B oid R)"
proof (cases "bt_get (rf_order_index R) oid")
  case (Some n)
  then obtain r where r: "bt_get (rf_resting R) n = Some r" and oid: "ro_order_id r = oid"
    using mirror_indexD [of R oid n] assms by (auto simp: mirror_of_def)
  then obtain book where book: "bt_get (rf_books R) (ro_contract r) = Some book"
    using mirror_restingD(3) [of R n r] assms by (auto simp: mirror_of_def bt_contains_def)
  have drop: "safe (mirror_of D) (rbind (drop_resting n S) (\<lambda>S. Inr (S\<lparr>rf_order_index := bt_remove oid (rf_order_index S)\<rparr>)))"
    if "mirror_of D S" "bt_get (rf_resting S) n = Some r" for S
    by (rule safe_rbind [OF drop_resting_mirror [OF that]]) (simp add: oid)
  have book': "mirror_of D (R\<lparr>rf_books := bt_insert (ro_contract r) book' (rf_books R)\<rparr>)" for book'
    by (rule mirror_of_frame [OF assms]) (simp_all add: contains_insert)
  show ?thesis
    unfolding cancel_resting_def
    by (auto simp: Some r book cancel_in_book_def rbind_assoc intro!: safe_bind [OF safe_book] drop book')
qed (simp add: cancel_resting_def assms)

lemma lifecycle_mirror:
  fixes R :: "'a realistic_fill"
  assumes "mirror_of D R"
  shows "safe (mirror_of D) (fold_res (lifecycle_command B) cmds R)"
proof (rule safe_fold [of "mirror_of D", OF assms])
  fix cmd and S :: "'a realistic_fill" assume "mirror_of D S"
  then show "safe (mirror_of D) (lifecycle_command B cmd S)"
    by (simp add: lifecycle_command_def cancel_resting_mirror split: order_command.splits)
qed

section \<open>Submits\<close>

lemma track_resting_mirror:
  assumes "mirror_of D R" and "bt_get (rf_resting R) n = None" and "n < rf_next_strategy R"
    and fresh: "bt_get (rf_order_index R) oid = None" and "bt_contains (rf_books R) (oi_contract oi)"
  shows "safe (mirror_of (insert oid D)) (track_resting oi oid n remaining R)"
proof -
  let ?c = "oi_contract oi" and ?r = "\<lparr>ro_order_id = oid, ro_contract = oi_contract oi,
    ro_side = oi_side oi, ro_decision_mid = oi_decision_mid oi, ro_remaining = remaining,
    ro_first_fill_done = (remaining < oi_quantity oi)\<rparr>"
  have inv: "mirror_inv R" using assms(1) by (simp add: mirror_of_def)
  have live: "bt_get (rf_live R) c = (if resting_at (rf_resting R) c = 0 then None
      else Some (resting_at (rf_resting R) c))" "fits U32 (resting_at (rf_resting R) c)" for c
    using inv by (simp_all add: mirror_inv_def)
  have count: "resting_at (bt_insert n ?r (rf_resting R)) c = resting_at (rf_resting R) c + (if c = ?c then 1 else 0)" for c
    using count_fresh [OF assms(2), of "\<lambda>(_, q). ro_contract q = c" ?r] by (simp add: resting_at_def)
  have nonneg: "0 \<le> resting_at (rf_resting R) c" for c by (simp add: resting_at_def)
  have current: "unwrap_or 0 (bt_get (rf_live R) ?c) = resting_at (rf_resting R) ?c"
    using live(1) [of ?c] by simp
  show ?thesis
  proof (cases "checked_add U32 (resting_at (rf_resting R) ?c) 1")
    case None
    then show ?thesis by (simp add: track_resting_def current live_desync_def realistic_err_def)
  next
    case (Some m)
    then have m: "m = resting_at (rf_resting R) ?c + 1" "fits U32 m" by (auto simp: checked_defs res_simps)
    let ?S = "R\<lparr>rf_resting := bt_insert n ?r (rf_resting R), rf_order_index := bt_insert oid n (rf_order_index R),
      rf_live := bt_insert ?c m (rf_live R)\<rparr>"
    have "bt_inv (bt_insert n ?r (rf_resting R))" using inv by (simp add: mirror_inv_def)
    moreover have "bt_get (bt_insert oid n (rf_order_index R)) (ro_order_id q) = Some k \<and>
        k < rf_next_strategy R \<and> bt_contains (rf_books R) (ro_contract q)"
      if "bt_get (bt_insert n ?r (rf_resting R)) k = Some q" for k q
    proof (cases "k = n")
      case False
      then have q: "bt_get (rf_resting R) k = Some q" using that by simp
      from mirror_restingD [OF inv q] fresh show ?thesis by auto
    qed (use that assms(3,5) in auto)
    moreover have "\<exists>q. bt_get (bt_insert n ?r (rf_resting R)) k = Some q \<and> ro_order_id q = i"
      if "bt_get (bt_insert oid n (rf_order_index R)) i = Some k" for i k
    proof (cases "i = oid")
      case False
      then have "bt_get (rf_order_index R) i = Some k" using that by simp
      from mirror_indexD [OF inv this] assms(2) show ?thesis by auto
    qed (use that in auto)
    moreover have "fits U32 (resting_at (bt_insert n ?r (rf_resting R)) c) \<and>
        bt_get (bt_insert ?c m (rf_live R)) c = (if resting_at (bt_insert n ?r (rf_resting R)) c = 0 then None
          else Some (resting_at (bt_insert n ?r (rf_resting R)) c))" for c
      using live [of c] nonneg [of c] m by (auto simp: count)
    ultimately have "mirror_inv ?S" unfolding mirror_inv_def by simp
    then show ?thesis
      using assms(1) by (simp add: track_resting_def current Some mirror_of_def bt_contains_def)
  qed
qed

lemma mirror_weaken: "mirror_of D R \<Longrightarrow> D \<subseteq> E \<Longrightarrow> mirror_of E R"
  by (auto simp: mirror_of_def)

lemma level_fills_safe: "safe (\<lambda>_. True) (fold_res (level_fill fees oi snap tick) ts out)"
  by (rule safe_fold) (auto simp: level_fill_def Let_def intro!: safe_bind split: prod.splits)

lemma fill_submit_mirror:
  assumes "mirror_of D R" and "oid \<notin> D"
  shows "safe (\<lambda>s. mirror_of (insert oid D) (fst s)) (fill_submit X B oi oid snap (R, out))"
proof (cases "sp_tick (cs_spec snap) = 0")
  case True
  then show ?thesis by (simp add: fill_submit_def live_desync_def realistic_err_def)
next
  case False
  have inv: "mirror_inv R" using assms(1) by (simp add: mirror_of_def)
  show ?thesis
    unfolding fill_submit_def prod.case Let_def if_not_P [OF False]
  proof (intro safe_bind safe_parts, goal_cases)
    case (1 limit_cents price n_S)
    obtain n S where n_S: "n_S = (n, S)" by fastforce
    have n: "n = rf_next_strategy R" "S = R\<lparr>rf_next_strategy := n + 1\<rparr>"
      using 1(3) by (auto simp: n_S next_strategy_order_id_def Let_def split: if_splits)
    have free: "bt_get (rf_resting R) n = None"
      using mirror_restingD(2) [OF inv, of n] n(1) by (cases "bt_get (rf_resting R) n") auto
    show ?case unfolding n_S prod.case
    proof (intro safe_bind leaf_book_safe, goal_cases)
      case (1 leaf)
      obtain book books where leaf: "leaf = (book, books)" by fastforce
      note books = leaf_book_contains [OF 1 [unfolded leaf]]
      show ?case unfolding leaf prod.case
      proof (intro safe_bind safe_book, goal_cases)
        case (1 added)
        obtain result book1 where added: "added = (result, book1)" by fastforce
        have cancel: "safe (\<lambda>_. True) (if c then cancel_in_book B n book1 else Inr book1)" for c
          by (auto simp: cancel_in_book_def intro!: safe_bind)
        show ?case unfolding added prod.case
        proof (rule safe_bind [OF cancel])
          fix book2 :: 'a
          let ?T = "S\<lparr>rf_books := bt_insert (oi_contract oi) book2 books\<rparr>"
          have T: "mirror_of D ?T"
          proof (rule mirror_of_frame [OF assms(1)])
            fix c assume "bt_contains (rf_books R) c"
            then have "bt_contains (rf_books S) c" by (simp add: n(2))
            then show "bt_contains (rf_books ?T) c" using contains_insert [OF books] by simp
          qed (simp_all add: n)
          have track: "safe (mirror_of (insert oid D)) (if c then track_resting oi oid n remaining ?T else Inr ?T)"
            for c remaining
          proof -
            have "safe (mirror_of (insert oid D)) (track_resting oi oid n remaining ?T)"
              by (rule track_resting_mirror [OF T])
                (use free assms in \<open>auto simp: n(2) bt_contains_def mirror_of_def\<close>)
            then show ?thesis using mirror_weaken [OF T] by auto
          qed
          show "safe (\<lambda>s. mirror_of (insert oid D) (fst s))
              (if crosses_self ?T (tr_trades result) then Inl (realistic_err MsgSelfCross)
               else rbind (fold_res (level_fill (rf_fees ?T) oi snap (sp_tick (cs_spec snap)))
                   (enumerate 0 (tr_trades result)) out) (\<lambda>out.
                 rbind (if oi_tif oi = Gtc \<and> tr_remaining result > 0
                   then track_resting oi oid n (tr_remaining result) ?T else Inr ?T) (\<lambda>R. Inr (R, out))))"
          proof (cases "crosses_self ?T (tr_trades result)")
            case True
            then show ?thesis by (simp add: live_desync_def realistic_err_def)
          next
            case False
            show ?thesis unfolding if_not_P [OF False]
              by (rule safe_bind [OF level_fills_safe], rule safe_rbind [OF track]) simp
          qed
        qed
      qed
    qed
  qed
qed

definition submit_inv :: "order_id set \<Rightarrow> order_id list \<Rightarrow> nat \<times> 'b realistic_fill \<times> fill list \<Rightarrow> bool" where
  "submit_inv D ids = (\<lambda>(k, R, out). mirror_of (D \<union> set (take k ids)) R \<and> k \<le> length ids)"

lemma submit_step_mirror:
  assumes inv: "submit_inv D ids (k, R, out)" and "distinct ids" and "D \<inter> set ids = {}"
  shows "safe (submit_inv D ids) (submit_step X B ids snap (index, cmd) (k, R, out))"
proof (cases "submitted cmd")
  case None
  then show ?thesis using inv by (simp add: submit_step_def)
next
  case (Some oi)
  show ?thesis
  proof (cases "k < length ids")
    case False
    then show ?thesis by (simp add: submit_step_def Some live_desync_def realistic_err_def)
  next
    case True
    have take: "set (take (Suc k) ids) = insert (ids ! k) (set (take k ids))"
      using True by (simp add: take_Suc_conv_app_nth)
    have "ids ! k \<notin> set (take k ids)"
      using assms(2) True by (metis distinct_take id_take_nth_drop not_distinct_conv_prefix)
    then have fresh: "ids ! k \<notin> D \<union> set (take k ids)"
      using assms(3) True by auto
    have fill: "safe (\<lambda>s. mirror_of (D \<union> set (take (Suc k) ids)) (fst s)) (fill_submit X B oi (ids ! k) snap (R, out))"
      using fill_submit_mirror [OF _ fresh, of R] inv by (simp add: submit_inv_def take)
    have group: "safe (mirror_of E) (push_group index before after T)" if "mirror_of E T"
      for E before after and T :: "'a realistic_fill"
      using that by (auto simp: push_group_def live_desync_def realistic_err_def intro!: safe_bind safe_ok_or)
    have oid: "(if k < length ids then Inr (ids ! k) else Inl (realistic_err MsgIdsUnderCover)) = Inr (ids ! k)"
      using True by simp
    show ?thesis
      unfolding submit_step_def prod.case Some option.case oid rbind_simps
    proof (rule safe_bind [OF safe_checked])
      fix k' assume "checked (checked_add Usize (int k) 1) = Inr k'"
      then have k': "nat k' = Suc k" by (auto simp: checked_defs res_simps)
      show "safe (submit_inv D ids) (rbind (fill_submit X B oi (ids ! k) snap (R, out)) (\<lambda>(R, out').
          rbind (push_group index (length out) (length out') R) (\<lambda>R. Inr (nat k', R, out'))))"
      proof (rule safe_rbind [OF fill], unfold case_prod_beta)
        fix s :: "'a realistic_fill \<times> fill list"
        assume s: "mirror_of (D \<union> set (take (Suc k) ids)) (fst s)"
        show "safe (submit_inv D ids) (rbind (push_group index (length out) (length (snd s)) (fst s))
            (\<lambda>R. Inr (nat k', R, snd s)))"
          by (rule safe_rbind [OF group [OF s]]) (use True in \<open>simp add: submit_inv_def k'\<close>)
      qed
    qed
  qed
qed

text \<open>
  A step with fresh engine ids never meets a defensive error, and keeps the mirror, of the
  orders it knew and those submitted.
\<close>

lemma realistic_step_mirror:
  assumes "mirror_of D R" and "distinct ids" and "D \<inter> set ids = {}"
  shows "safe (\<lambda>s. mirror_of (D \<union> set ids) (fst s)) (realistic_fill_op X B cmds ids snap buf R)"
proof -
  have cleared: "mirror_of D (R\<lparr>rf_groups := [], rf_carry := []\<rparr>)" using assms(1) by simp
  have steps: "safe (submit_inv D ids) (fold_res (submit_step X B ids snap) cs (0, S, out))"
    if "mirror_of D S" for S cs out
  proof (rule safe_fold)
    fix c :: "nat \<times> order_command" and s :: "nat \<times> 'a realistic_fill \<times> fill list"
    assume "submit_inv D ids s"
    then show "safe (submit_inv D ids) (submit_step X B ids snap c s)"
      by (cases c; cases s) (simp add: submit_step_mirror [OF _ assms(2,3)])
  qed (use that in \<open>simp add: submit_inv_def\<close>)
  show ?thesis
    unfolding realistic_fill_op_def
  proof (rule safe_rbind [OF refresh_mirror [OF cleared]], unfold case_prod_beta)
    fix s :: "'a realistic_fill \<times> fill list"
    assume "mirror_of D (fst s)"
    from lifecycle_mirror [OF this] show "safe (\<lambda>s. mirror_of (D \<union> set ids) (fst s))
       (rbind (fold_res (lifecycle_command B) cmds (fst s)) (\<lambda>R.
        rbind (fold_res (submit_step X B ids snap) (enumerate 0 cmds) (0, R, snd s)) (\<lambda>t.
        Inr (fst (snd t), snd (snd t)))))"
    proof (rule safe_rbind)
      fix S :: "'a realistic_fill" assume "mirror_of D S"
      from steps [OF this] show "safe (\<lambda>s. mirror_of (D \<union> set ids) (fst s))
         (rbind (fold_res (submit_step X B ids snap) (enumerate 0 cmds) (0, S, snd s)) (\<lambda>t.
          Inr (fst (snd t), snd (snd t))))"
        by (rule safe_rbind) (auto simp: submit_inv_def case_prod_beta elim!: mirror_weaken dest: in_set_takeD)
    qed
  qed
qed

end
