(* ===== verification/Realistic_Run.thy ===== *)
theory Realistic_Run
  imports Realistic_Mirror Run_Invariant
begin

text \<open>
  Runs under the realistic fill model: the engine never reuses an order id, so the mirror of
  the resting orders holds in every state of a run, and the model's defensive errors are
  unreachable.
\<close>

section \<open>Order ids\<close>

lemma mint_submit_ids_fresh:
  assumes "mint_submit_ids cmds ids = Inr (ids', oids)"
  shows "ic_order ids \<le> ic_order ids' \<and> distinct oids \<and> set oids \<subseteq> {ic_order ids ..< ic_order ids'}"
proof -
  let ?P = "\<lambda>s. ic_order ids \<le> ic_order (fst s) \<and> distinct (snd s) \<and>
    set (snd s) \<subseteq> {ic_order ids ..< ic_order (fst s)}"
  have "?P (ids', oids)"
    by (rule fold_res_invariant [OF assms [unfolded mint_submit_ids_def], where P = ?P])
      (auto simp: mint_for_def mint_order_def res_simps checked_defs split: order_command.splits)
  then show ?thesis by simp
qed

lemma close_position_ids:
  "close_position snap m ts oid pid reason base fs f agg b = Inr b' \<Longrightarrow> bk_ids b' = bk_ids b"
  by (erule close_position_parts)

interpretation order_counter: books_invariant "\<lambda>b. ic_order (bk_ids b) = k" for k
  by unfold_locales
    (auto simp: open_new_leg_def extend_leg_def mint_position_def res_simps Let_def dest!: close_position_ids)

section \<open>Every state of a run\<close>

text \<open>The mirror knows only ids the engine has minted.\<close>

definition mirrors :: "('s, 'b realistic_fill, 'r, 'e) run_state \<Rightarrow> bool" where
  "mirrors st \<longleftrightarrow> mirror_of {oid. oid < ic_order (bk_ids (rs_books st))} (rs_execution st)"

lemma fresh_step:
  assumes "mirror_of {oid. oid < ic_order ids} R" and mint: "mint_submit_ids cmds ids = Inr (ids', oids)"
  shows "safe (\<lambda>s. mirror_of {oid. oid < ic_order ids'} (fst s)) (realistic_fill_op X B cmds oids snap buf R)"
proof -
  have fresh: "distinct oids" "{oid. oid < ic_order ids} \<inter> set oids = {}"
    and sub: "{oid. oid < ic_order ids} \<union> set oids \<subseteq> {oid. oid < ic_order ids'}"
    using mint_submit_ids_fresh [OF mint] by force+
  show ?thesis
    using realistic_step_mirror [OF assms(1) fresh, of X B cmds snap buf] mirror_weaken [OF _ sub]
    by (auto simp: safe_def split: sum.splits)
qed

lemma mirrors_start:
  assumes "run_on_start R SY (realistic_model X B) snap st = Inr st'" and "mirrors st"
  shows "mirrors st'"
proof (rule run_on_start_Inr [OF assms(1)])
  fix cmds ids oids x fills groups carry reasons
  assume mint: "mint_submit_ids cmds (bk_ids (rs_books st)) = Inr (ids, oids)"
    and pass: "apply_step_fills R cmds fills groups carry oids snap reasons ((rs_books st)\<lparr>bk_ids := ids\<rparr>)
      = Inr (rs_books st')"
    and x: "rs_execution st' = x"
    and fill: "ex_fill (realistic_model X B) cmds oids snap [] (rs_execution st) = Inr (x, fills)"
  have "ic_order (bk_ids (rs_books st')) = ic_order ids"
    by (rule order_counter.step_fills_invar [OF _ pass]) simp
  then show ?thesis
    using fresh_step [OF assms(2) [unfolded mirrors_def] mint, of X B snap "[]"] fill x
    by (simp add: mirrors_def realistic_model_def)
qed

lemma mirrors_step:
  assumes "engine_step Y R SY (realistic_model X B) snap is_last st = Inr st'" and "mirrors st"
  shows "mirrors st'"
proof (rule engine_step_Inr [OF assms(1)])
  fix cmds ids oids x fills reasons b l point rows
  assume mint: "mint_submit_ids cmds (bk_ids (rs_books st)) = Inr (ids, oids)"
    and fill: "ex_fill (realistic_model X B) cmds oids snap [] (rs_execution st) = Inr (x, fills)"
    and pass: "apply_step_fills R cmds fills (ex_groups (realistic_model X B) x) (ex_carry (realistic_model X B) x)
      oids snap reasons ((rs_books st)\<lparr>bk_ids := ids\<rparr>) = Inr b"
    and st': "rs_execution st' = x" "rs_books st' = b\<lparr>bk_ledger := l, bk_bundle := rows\<rparr>"
  have "ic_order (bk_ids b) = ic_order ids"
    by (rule order_counter.step_fills_invar [OF _ pass]) simp
  then show ?thesis
    using fresh_step [OF assms(2) [unfolded mirrors_def] mint, of X B snap "[]"] fill st'
    by (simp add: mirrors_def realistic_model_def)
qed

text \<open>
  C40. In every state a run under the realistic model reaches, the model's mirror of its resting
  orders is consistent: the orders by book id and the engine ids determine each other, the
  count of live orders of every contract is the number of orders that rest in its book, that
  book is kept however the universe of contracts rolls, and whatever the strategy submits next
  the two errors that guard the count of live orders cannot occur.
\<close>

theorem realistic_run_mirror:
  fixes B :: "'b book_api"
  assumes "run_on_start R SY (realistic_model X B) first
      (run_state_new s (with_liquidity_profile fees cap seed profile) rng capital) = Inr st"
    and "steps_reach (\<lambda>_. True) (engine_step X R SY (realistic_model X B)) st t"
  shows "(\<forall>oid n. bt_get (rf_order_index (rs_execution t)) oid = Some n \<longleftrightarrow>
      (\<exists>r. bt_get (rf_resting (rs_execution t)) n = Some r \<and> ro_order_id r = oid)) \<and>
    (\<forall>c. unwrap_or 0 (bt_get (rf_live (rs_execution t)) c) = resting_at (rf_resting (rs_execution t)) c \<and>
      (resting_at (rf_resting (rs_execution t)) c > 0 \<longrightarrow> bt_contains (rf_books (rs_execution t)) c)) \<and>
    (\<forall>cmds ids oids snap. mint_submit_ids cmds (bk_ids (rs_books t)) = Inr (ids, oids) \<longrightarrow>
      ex_fill (realistic_model X B) cmds oids snap [] (rs_execution t) \<noteq> Inl (realistic_err MsgLiveMissing) \<and>
      ex_fill (realistic_model X B) cmds oids snap [] (rs_execution t) \<noteq> Inl (realistic_err MsgLiveUnderflow))"
proof -
  have "mirrors (run_state_new s (with_liquidity_profile fees cap seed profile) rng capital
      :: ('a, 'b realistic_fill, 'c, 'd) run_state)"
    using mirror_new(1) [of fees cap seed profile]
    by (simp add: mirrors_def run_state_new_def mirror_of_def bt_contains_def with_liquidity_profile_def realistic_new_def)
  from mirrors_start [OF assms(1) this] have "mirrors t"
    by (intro steps_reach_invariant [OF assms(2), where I = mirrors]) (auto dest: mirrors_step)
  then have of_t: "mirror_of {oid. oid < ic_order (bk_ids (rs_books t))} (rs_execution t)"
    and inv: "mirror_inv (rs_execution t)" by (simp_all add: mirrors_def mirror_of_def)
  show ?thesis
  proof (intro conjI allI)
    fix oid n
    show "bt_get (rf_order_index (rs_execution t)) oid = Some n \<longleftrightarrow>
      (\<exists>r. bt_get (rf_resting (rs_execution t)) n = Some r \<and> ro_order_id r = oid)"
      using mirror_indexD [OF inv] mirror_restingD(1) [OF inv] by blast
  next
    fix c
    show "unwrap_or 0 (bt_get (rf_live (rs_execution t)) c) = resting_at (rf_resting (rs_execution t)) c"
      using inv by (simp add: mirror_inv_def)
    show "resting_at (rf_resting (rs_execution t)) c > 0 \<longrightarrow> bt_contains (rf_books (rs_execution t)) c"
    proof
      assume "resting_at (rf_resting (rs_execution t)) c > 0"
      then obtain n r where "(n, r) \<in> set (rf_resting (rs_execution t))" and "ro_contract r = c"
        by (auto simp: resting_at_def filter_empty_conv)
      moreover have "bt_inv (rf_resting (rs_execution t))" using inv by (simp add: mirror_inv_def)
      ultimately have "bt_get (rf_resting (rs_execution t)) n = Some r" by (simp add: bt_mem_get)
      from mirror_restingD(3) [OF inv this] \<open>ro_contract r = c\<close>
      show "bt_contains (rf_books (rs_execution t)) c" by simp
    qed
  next
    fix cmds ids oids snap
    show "mint_submit_ids cmds (bk_ids (rs_books t)) = Inr (ids, oids) \<longrightarrow>
      ex_fill (realistic_model X B) cmds oids snap [] (rs_execution t) \<noteq> Inl (realistic_err MsgLiveMissing) \<and>
      ex_fill (realistic_model X B) cmds oids snap [] (rs_execution t) \<noteq> Inl (realistic_err MsgLiveUnderflow)"
    proof
      assume "mint_submit_ids cmds (bk_ids (rs_books t)) = Inr (ids, oids)"
      from fresh_step [OF of_t this, of X B snap "[]"]
      show "ex_fill (realistic_model X B) cmds oids snap [] (rs_execution t) \<noteq> Inl (realistic_err MsgLiveMissing) \<and>
        ex_fill (realistic_model X B) cmds oids snap [] (rs_execution t) \<noteq> Inl (realistic_err MsgLiveUnderflow)"
        by (auto simp: realistic_model_def safe_def live_desync_def split: sum.splits)
    qed
  qed
qed

text \<open>A book on which every order rests, and a strategy that leaves one limit order in it.\<close>

definition resting_book :: "(ob_order_id list) book_api" where
  "resting_book = \<lparr>
     ob_new = (\<lambda>_ _. []),
     ob_add_limit = (\<lambda>n _ _ _ b. Inr (n # b)),
     ob_add_limit_full = (\<lambda>n _ _ q b. Inr (\<lparr>tr_trades = [], tr_remaining = q\<rparr>, n # b)),
     ob_cancel = (\<lambda>n b. Inr (n \<in> set b, filter (\<lambda>m. m \<noteq> n) b))\<rparr>"

definition small_call :: contract_key where
  "small_call = ContractKey ''SPX'' (DateTime 9) 50 Call"

definition small_snapshot :: chain_snapshot where
  "small_snapshot = sample_snapshot\<lparr>cs_quotes := [(small_call, sample_quote\<lparr>qv_contract := small_call\<rparr>)]\<rparr>"

definition limit_strategy :: "(unit, int, nat) strategy" where
  "limit_strategy = sample_strategy\<lparr>sy_on_start := (\<lambda>ctx out s. Inr (s, cx_rng ctx,
     out @ [Submit (sample_intent\<lparr>oi_contract := small_call, oi_limit := Some 130, oi_tif := Gtc\<rparr>)]))\<rparr>"

definition limit_start :: "(unit, (ob_order_id list) realistic_fill, int, nat) run_state res" where
  "limit_start = run_on_start sample_api limit_strategy (realistic_model exact_ext resting_book) small_snapshot
     (run_state_new () (with_liquidity_profile \<lparr>fs_per_contract = 65, fs_per_order = 100\<rparr> 10 7
        \<lparr>lp_touch_size = Flat 1, lp_depth_levels = 1, lp_decay = 1\<rparr>) 7 1000000)"

lemma limit_start_evaluates:
  "case limit_start of Inl _ \<Rightarrow> False | Inr st \<Rightarrow> bt_get (rf_live (rs_execution st)) small_call = Some 1"
  by code_simp

theorem realistic_run_mirror_witness:
  "\<exists>st. limit_start = Inr st \<and> resting_at (rf_resting (rs_execution st)) small_call = 1 \<and>
     bt_contains (rf_books (rs_execution st)) small_call"
proof -
  obtain st where st: "limit_start = Inr st" and live: "bt_get (rf_live (rs_execution st)) small_call = Some 1"
    using limit_start_evaluates by (auto split: sum.splits)
  from realistic_run_mirror [OF st [unfolded limit_start_def] steps_reach.start]
  have "unwrap_or 0 (bt_get (rf_live (rs_execution st)) small_call) = resting_at (rf_resting (rs_execution st)) small_call \<and>
    (resting_at (rf_resting (rs_execution st)) small_call > 0 \<longrightarrow> bt_contains (rf_books (rs_execution st)) small_call)"
    by blast
  with st live show ?thesis by auto
qed

end
