(* ===== verification/Historical_Run.thy ===== *)
theory Historical_Run
  imports Engine_Run Csv_Tape
begin

text \<open>
  Runs over the two historical feeds (\<open>src/engine/backtest.rs\<close> on \<open>src/data/historical.rs\<close>): what
  the opening of a file or a directory establishes is what the loop needs, so a run over an opened
  feed is the recursion over its tape, with no feed in it.
\<close>

lemma parquet_opened:
  assumes "parquet_open X Z S limits src = Inr feed"
  shows "parquet_remaining feed = pt_snapshots (pf_tape feed) \<and>
    tape_meta_from_tape (pt_sha256 (pf_tape feed)) (pt_snapshots (pf_tape feed)) = Inr (parquet_tape_meta feed)"
  by (rule parquet_open_Inr [OF assms]) (simp add: parquet_remaining_def parquet_tape_meta_def)

lemma csv_opened:
  assumes "csv_open X Z S R limits dir = Inr feed"
  shows "csv_remaining feed = cv_tape feed \<and> tape_meta_from_tape (cv_sha256 feed) (cv_tape feed) = Inr (cv_meta feed)"
  using assms unfolding csv_open_Inr by (auto simp: csv_remaining_def)

text \<open>
  C9. A run over an opened historical feed, a Parquet file or a directory of CSV files, is a fold over
  its tape: the startup sees the first snapshot, then every snapshot of the tape is processed
  exactly once, in the order of the tape and the last one as the last step; the result is assembled
  from the state after it, and the first error, be it of the capital, the startup or a step, is
  the result of the run. No run over such a feed fails because of the feed.
\<close>

theorem historical_run_is_fold:
  shows "(parquet_open X Z S limits src = Inr p \<longrightarrow>
      run_backtest X R seed config parquet_data_feed p EM x SY s name =
      Some (tape_run X R seed config (pt_snapshots (pf_tape p)) (parquet_tape_meta p) (parquet_meta p) EM x SY s name)) \<and>
    (csv_open X Z S V limits dir = Inr c \<longrightarrow>
      run_backtest X R seed config csv_data_feed c EM x SY s name =
      Some (tape_run X R seed config (cv_tape c) (cv_meta c) (csv_feed_meta c) EM x SY s name))"
proof (intro conjI impI)
  assume "parquet_open X Z S limits src = Inr p"
  from parquet_opened [OF this]
  show "run_backtest X R seed config parquet_data_feed p EM x SY s name =
      Some (tape_run X R seed config (pt_snapshots (pf_tape p)) (parquet_tape_meta p) (parquet_meta p) EM x SY s name)"
    using parquet.run_replays [of parquet_data_feed p "pt_snapshots (pf_tape p)" "pt_sha256 (pf_tape p)"]
    by (simp add: parquet_data_feed_def)
next
  assume "csv_open X Z S V limits dir = Inr c"
  from csv_opened [OF this]
  show "run_backtest X R seed config csv_data_feed c EM x SY s name =
      Some (tape_run X R seed config (cv_tape c) (cv_meta c) (csv_feed_meta c) EM x SY s name)"
    using csv.run_replays [of csv_data_feed c "cv_tape c" "cv_sha256 c"]
    by (simp add: csv_data_feed_def)
qed

text \<open>Both samples open; the run over each is the fold over its tape.\<close>

theorem historical_run_is_fold_witness:
  "\<exists>p c. parquet_open exact_ext sample_layout sample_sha default_resource_limits sample_source = Inr p \<and>
     csv_open exact_ext sample_layout first_byte sample_csv default_resource_limits sample_dir = Inr c \<and>
     (\<forall>R seed config EM x SY s name.
        run_backtest exact_ext R seed config parquet_data_feed p EM x SY s name =
          Some (tape_run exact_ext R seed config (pt_snapshots (pf_tape p)) (parquet_tape_meta p) (parquet_meta p)
            EM x SY s name) \<and>
        run_backtest exact_ext R seed config csv_data_feed c EM x SY s name =
          Some (tape_run exact_ext R seed config (cv_tape c) (cv_meta c) (csv_feed_meta c) EM x SY s name))"
proof (rule sample_csv_open_Inr)
  fix c
  assume c: "csv_open exact_ext sample_layout first_byte sample_csv default_resource_limits sample_dir = Inr c"
  have p: "parquet_open exact_ext sample_layout sample_sha default_resource_limits sample_source = Inr (projr sample_open)"
    using sample_open_ok by (simp add: sample_open_def)
  show ?thesis
    by (intro exI [of _ "projr sample_open"] exI [of _ c] conjI allI p c
        historical_run_is_fold [THEN conjunct1, THEN mp, OF p] historical_run_is_fold [THEN conjunct2, THEN mp, OF c])
qed

end
