(* ===== verification/Doubles.thy ===== *)
theory Doubles
  imports External Float64
begin

text \<open>
  Arithmetic of doubles for the analytic figures, which are the documented floating-point
  exception of the program: a result is the nearest binary64 value, with the exponent range;
  infinities and NaN are one value \<open>NotFinite\<close>, which every use of them tests for.
\<close>

text \<open>
  The quantum is that of 53 significant bits, at least that of the subnormals, and a result of
  magnitude \<open>2 ^ 1024\<close> is infinite.
\<close>

definition f64_of_rat :: "rat \<Rightarrow> double" where
  "f64_of_rat x =
     (if x = 0 then Finite 0
      else let u = 2 powi (max (f64_exp x) (- 1022) - 52);
               r = of_int (round_half_even (x / u)) * u
           in if \<bar>r\<bar> < 2 ^ 1024 then Finite r else NotFinite)"

definition double_op :: "(rat \<Rightarrow> rat \<Rightarrow> rat) \<Rightarrow> double \<Rightarrow> double \<Rightarrow> double" where
  "double_op f a b =
     (case (a, b) of (Finite x, Finite y) \<Rightarrow> f64_of_rat (f x y) | _ \<Rightarrow> NotFinite)"

definition double_div :: "double \<Rightarrow> double \<Rightarrow> double" where
  "double_div a b = (if b = Finite 0 then NotFinite else double_op (/) a b)"

text \<open>\<open>is_finite().then_some(..)\<close>.\<close>

definition finite_some :: "double \<Rightarrow> rat option" where
  "finite_some d = (case d of Finite x \<Rightarrow> Some x | NotFinite \<Rightarrow> None)"

text \<open>\<open>Iterator::sum\<close>, from zero in the order of the elements.\<close>

definition double_sum :: "double list \<Rightarrow> double" where
  "double_sum ds = foldl (double_op (+)) (Finite 0) ds"

section \<open>Square roots\<close>

function isqrt :: "int \<Rightarrow> int" where
  "isqrt n =
     (if n \<le> 0 then 0
      else let r = 2 * isqrt (n div 4) in if (r + 1) * (r + 1) \<le> n then r + 1 else r)"
  by auto
termination by (relation "measure nat") auto

declare isqrt.simps [simp del]

lemma isqrt_bounds: "0 \<le> n \<Longrightarrow> 0 \<le> isqrt n \<and> isqrt n * isqrt n \<le> n \<and> n < (isqrt n + 1) * (isqrt n + 1)"
proof (induction n rule: isqrt.induct)
  case (1 n)
  show ?case
  proof (cases "n \<le> 0")
    case True
    with 1 show ?thesis by (simp add: isqrt.simps)
  next
    case False
    define q where "q = isqrt (n div 4)"
    have q: "0 \<le> q" "q * q \<le> n div 4" "n div 4 < (q + 1) * (q + 1)"
      using 1 False by (simp_all add: q_def)
    then have lower: "(2 * q) * (2 * q) \<le> n" by (simp add: algebra_simps)
    have "n div 4 + 1 \<le> (q + 1) * (q + 1)" using q(3) by simp
    then have "n < 4 * ((q + 1) * (q + 1))" by linarith
    then have upper: "n < (2 * q + 1 + 1) * (2 * q + 1 + 1)" by (simp add: algebra_simps)
    have root: "isqrt n = (if (2 * q + 1) * (2 * q + 1) \<le> n then 2 * q + 1 else 2 * q)"
      using False by (subst isqrt.simps) (simp add: q_def Let_def)
    show ?thesis using q(1) lower upper by (simp add: root)
  qed
qed

text \<open>\<open>f64::sqrt\<close> of a non-negative double, correctly rounded.\<close>

definition double_sqrt :: "double \<Rightarrow> double" where
  "double_sqrt d =
     (case d of
        NotFinite \<Rightarrow> NotFinite
      | Finite x \<Rightarrow>
          if x < 0 then NotFinite
          else if x = 0 then Finite 0
          else let u = 2 powi (f64_exp x div 2 - 52);
                   y = x / (u * u);
                   r = isqrt \<lfloor>y\<rfloor>;
                   mid = (of_int r + 1 / 2) * (of_int r + 1 / 2)
               in Finite (of_int (if mid < y \<or> mid = y \<and> odd r then r + 1 else r) * u))"

end
