(* ===== verification/Metrics.thy ===== *)
theory Metrics
  imports Doubles Trade_Log Ledger
begin

text \<open>
  The summary figures of a run (\<open>src/analytics/metrics.rs\<close>): the money figures in checked
  integers, the ratios in decimals, the return statistics in doubles. The structures are
  \<open>optionstratlib\<close>'s; the records here hold the fields the code writes. The operators of
  \<open>Decimal\<close> that have no checked form panic outside its 96-bit range, and so does the code: a
  function that can panic has the value \<open>None\<close> then.
\<close>

section \<open>Decimals\<close>

definition dec_of_int :: "int \<Rightarrow> rat option" where
  "dec_of_int n = (if \<bar>n\<bar> < 2 ^ 96 then Some (of_int n) else None)"

definition checked_ratio :: "ext \<Rightarrow> rat \<Rightarrow> rat \<Rightarrow> rat option" where
  "checked_ratio X num den = (if den = 0 then None else dec_div X num den)"

text \<open>\<open>checked_ratio(Decimal::from(a), Decimal::from(b))\<close>, whose conversions may panic.\<close>

definition int_ratio :: "ext \<Rightarrow> int \<Rightarrow> int \<Rightarrow> rat option option" where
  "int_ratio X a b =
     Option.bind (dec_of_int a) (\<lambda>a. Option.bind (dec_of_int b) (\<lambda>b. Some (checked_ratio X a b)))"

definition cents_to_dollars :: "int \<Rightarrow> rat" where
  "cents_to_dollars cents = of_int cents / 100"

definition cents_to_dollars_i128 :: "int \<Rightarrow> rat option" where
  "cents_to_dollars_i128 cents = map_option (\<lambda>c. c / 100) (dec_of_int cents)"

definition cents_to_dollars_dec :: "ext \<Rightarrow> rat \<Rightarrow> rat" where
  "cents_to_dollars_dec X cents = unwrap_or 0 (dec_div X cents 100)"

text \<open>\<open>Iterator::sum\<close> of decimals.\<close>

fun dec_sum :: "ext \<Rightarrow> rat \<Rightarrow> rat list \<Rightarrow> rat option" where
  "dec_sum X acc [] = Some acc"
| "dec_sum X acc (v # vs) = Option.bind (dec_add X acc v) (\<lambda>acc. dec_sum X acc vs)"

definition mean_decimal :: "ext \<Rightarrow> rat list \<Rightarrow> rat option option" where
  "mean_decimal X values =
     (if values = [] then Some None
      else Option.bind (dec_sum X 0 values) (\<lambda>s. Some (dec_div X s (of_nat (length values)))))"

definition median_decimal :: "ext \<Rightarrow> rat list \<Rightarrow> rat option" where
  "median_decimal X vs =
     (let n = length vs in
      if n = 0 then None
      else if n mod 2 = 1 then Some (vs ! (n div 2))
      else Option.bind (dec_add X (vs ! (n div 2 - 1)) (vs ! (n div 2))) (\<lambda>s. dec_div X s 2))"

definition mean_positive :: "ext \<Rightarrow> rat list \<Rightarrow> rat option" where
  "mean_positive X values =
     (if values = [] then Some 0
      else Option.bind (dec_sum X 0 values) (\<lambda>s.
           Some (unwrap_or 0 (Option.bind (dec_div X s (of_nat (length values))) (positive_new X)))))"

definition median_positive :: "ext \<Rightarrow> rat list \<Rightarrow> rat" where
  "median_positive X vs =
     (let n = length vs in
      if n = 0 then 0
      else if n mod 2 = 1 then vs ! (n div 2)
      else unwrap_or 0
        (Option.bind (dec_add X (vs ! (n div 2 - 1)) (vs ! (n div 2))) (\<lambda>s.
         Option.bind (dec_div X s 2) (positive_new X))))"

definition metrics_nanos_per_day :: int where
  "metrics_nanos_per_day = 86400000000000"

definition days_positive :: "ext \<Rightarrow> int \<Rightarrow> rat" where
  "days_positive X nanos =
     (if nanos \<le> 0 then 0
      else unwrap_or 0 (Option.bind (dec_div X (of_int nanos) (of_int metrics_nanos_per_day)) (positive_new X)))"

text \<open>\<open>saturating_sub\<close> and \<open>saturating_add\<close>.\<close>

definition saturate :: "width \<Rightarrow> int \<Rightarrow> int" where
  "saturate w n = max (w_min w) (min (w_max w) n)"

section \<open>Premiums\<close>

definition premium_cash_cents :: "int \<Rightarrow> int \<Rightarrow> int \<Rightarrow> int res" where
  "premium_cash_cents entry_premium quantity mult =
     checked (Option.bind (checked_mul I128 entry_premium quantity) (\<lambda>p. checked_mul I128 p mult))"

definition net_add :: "int \<Rightarrow> side \<Rightarrow> int \<Rightarrow> int res" where
  "net_add net sd premium =
     checked (case sd of Short \<Rightarrow> checked_add I128 net premium | Long \<Rightarrow> checked_sub I128 net premium)"

definition net_trade :: "'e closed_trade \<Rightarrow> int \<Rightarrow> int res" where
  "net_trade t net =
     rbind (premium_cash_cents (ct_entry_premium t) (ct_quantity t) (ct_mult t)) (\<lambda>premium.
     net_add net (ct_side t) premium)"

definition net_leg :: "int \<Rightarrow> open_position \<Rightarrow> int \<Rightarrow> int res" where
  "net_leg mult leg net =
     rbind (premium_cash_cents (op_entry_premium leg) (op_quantity leg) mult) (\<lambda>premium.
     net_add net (op_side leg) premium)"

definition net_premium_cents :: "'e closed_trade list \<Rightarrow> open_position list \<Rightarrow> int res" where
  "net_premium_cents trade_log open_at_end =
     rbind (fold_res net_trade trade_log 0) (\<lambda>net.
     let run_multiplier = (case trade_log of [] \<Rightarrow> 1 | t # _ \<Rightarrow> ct_mult t) in
     rbind (fold_res (net_leg run_multiplier) open_at_end net) (\<lambda>net.
     checked (try_into I64 net)))"

section \<open>Realised trades\<close>

record realised_stats =
  rz_winners :: nat
  rz_losers :: nat
  rz_break_even :: nat
  rz_gross_profit :: int
  rz_gross_loss :: int
  rz_total :: int
  rz_short :: int
  rz_long :: int
  rz_long_trades :: nat
  rz_short_trades :: nat
  rz_call_trades :: nat
  rz_put_trades :: nat
  rz_entry_received :: int
  rz_entry_paid :: int

definition stats_zero :: realised_stats where
  "stats_zero = \<lparr>rz_winners = 0, rz_losers = 0, rz_break_even = 0, rz_gross_profit = 0, rz_gross_loss = 0,
     rz_total = 0, rz_short = 0, rz_long = 0, rz_long_trades = 0, rz_short_trades = 0,
     rz_call_trades = 0, rz_put_trades = 0, rz_entry_received = 0, rz_entry_paid = 0\<rparr>"

definition count_outcome :: "int \<Rightarrow> realised_stats \<Rightarrow> realised_stats res" where
  "count_outcome pnl s =
     (if pnl > 0 then
        rbind (checked (checked_add I128 (rz_gross_profit s) pnl)) (\<lambda>g.
        Inr (s\<lparr>rz_winners := rz_winners s + 1, rz_gross_profit := g\<rparr>))
      else if pnl < 0 then
        rbind (checked (checked_add I128 (rz_gross_loss s) pnl)) (\<lambda>g.
        Inr (s\<lparr>rz_losers := rz_losers s + 1, rz_gross_loss := g\<rparr>))
      else Inr (s\<lparr>rz_break_even := rz_break_even s + 1\<rparr>))"

definition count_side :: "side \<Rightarrow> int \<Rightarrow> int \<Rightarrow> realised_stats \<Rightarrow> realised_stats res" where
  "count_side sd pnl premium s =
     (case sd of
        Short \<Rightarrow>
          rbind (checked (checked_add I64 (rz_short s) pnl)) (\<lambda>c.
          rbind (checked (checked_add I128 (rz_entry_received s) premium)) (\<lambda>r.
          Inr (s\<lparr>rz_short_trades := rz_short_trades s + 1, rz_short := c, rz_entry_received := r\<rparr>)))
      | Long \<Rightarrow>
          rbind (checked (checked_add I64 (rz_long s) pnl)) (\<lambda>c.
          rbind (checked (checked_add I128 (rz_entry_paid s) premium)) (\<lambda>p.
          Inr (s\<lparr>rz_long_trades := rz_long_trades s + 1, rz_long := c, rz_entry_paid := p\<rparr>))))"

definition count_style :: "option_style \<Rightarrow> realised_stats \<Rightarrow> realised_stats" where
  "count_style style s =
     (case style of Call \<Rightarrow> s\<lparr>rz_call_trades := rz_call_trades s + 1\<rparr>
      | Put \<Rightarrow> s\<lparr>rz_put_trades := rz_put_trades s + 1\<rparr>)"

definition stats_trade :: "'e closed_trade \<Rightarrow> realised_stats \<Rightarrow> realised_stats res" where
  "stats_trade t s =
     rbind (premium_cash_cents (ct_entry_premium t) (ct_quantity t) (ct_mult t)) (\<lambda>premium.
     let pnl = ct_realized_pnl t in
     rbind (count_outcome pnl s) (\<lambda>s.
     rbind (checked (checked_add I64 (rz_total s) pnl)) (\<lambda>c.
     rbind (count_side (ct_side t) pnl premium (s\<lparr>rz_total := c\<rparr>)) (\<lambda>s.
     Inr (count_style (ck_style (ct_contract t)) s)))))"

definition stats_from_log :: "'e closed_trade list \<Rightarrow> realised_stats res" where
  "stats_from_log trade_log = fold_res stats_trade trade_log stats_zero"

definition stats_trades :: "realised_stats \<Rightarrow> nat" where
  "stats_trades s = rz_winners s + rz_losers s + rz_break_even s"

section \<open>Win and loss, trade and option statistics\<close>

record general_metrics =
  gm_total_return :: rat
  gm_volatility :: "rat option"
  gm_sharpe :: "rat option"
  gm_sortino :: "rat option"
  gm_downside :: "rat option"
  gm_win_rate :: "rat option"
  gm_profit_factor :: "rat option"
  gm_avg_gain :: "rat option"
  gm_avg_loss :: "rat option"
  gm_gain_loss :: "rat option"

definition set_profit_factor ::
    "ext \<Rightarrow> realised_stats \<Rightarrow> general_metrics \<Rightarrow> general_metrics option" where
  "set_profit_factor X s g =
     (if rz_gross_loss s = 0 then Some g
      else Option.bind (int_ratio X (rz_gross_profit s) \<bar>rz_gross_loss s\<bar>) (\<lambda>r.
           Some (g\<lparr>gm_profit_factor := r\<rparr>)))"

definition set_avg_gain ::
    "ext \<Rightarrow> realised_stats \<Rightarrow> general_metrics \<Rightarrow> general_metrics option" where
  "set_avg_gain X s g =
     (if rz_winners s = 0 then Some g
      else Option.bind (int_ratio X (rz_gross_profit s) (int (rz_winners s))) (\<lambda>r.
           Some (g\<lparr>gm_avg_gain := map_option (cents_to_dollars_dec X) r\<rparr>)))"

definition set_avg_loss ::
    "ext \<Rightarrow> realised_stats \<Rightarrow> general_metrics \<Rightarrow> general_metrics option" where
  "set_avg_loss X s g =
     (if rz_losers s = 0 then Some g
      else Option.bind (int_ratio X (rz_gross_loss s) (int (rz_losers s))) (\<lambda>r.
           Some (g\<lparr>gm_avg_loss := map_option (cents_to_dollars_dec X) r\<rparr>)))"

definition populate_win_loss ::
    "ext \<Rightarrow> realised_stats \<Rightarrow> general_metrics \<Rightarrow> general_metrics option" where
  "populate_win_loss X s g =
     (let n = stats_trades s in
      if n = 0 then Some g
      else Option.bind (int_ratio X (int (rz_winners s)) (int n)) (\<lambda>r.
           Option.bind (set_profit_factor X s (g\<lparr>gm_win_rate := r\<rparr>)) (\<lambda>g.
           Option.bind (set_avg_gain X s g) (\<lambda>g.
           Option.bind (set_avg_loss X s g) (\<lambda>g.
           case (gm_avg_gain g, gm_avg_loss g) of
             (Some gain, Some loss) \<Rightarrow>
               Some (if loss \<noteq> 0 then g\<lparr>gm_gain_loss := dec_div X gain \<bar>loss\<bar>\<rparr> else g)
           | _ \<Rightarrow> Some g)))))"

record trade_statistics =
  ts_trades :: nat
  ts_winners :: nat
  ts_losers :: nat
  ts_break_even :: nat
  ts_average_return :: rat
  ts_median_return :: rat
  ts_largest_win :: "rat option"
  ts_largest_loss :: "rat option"
  ts_average_holding :: rat
  ts_median_holding :: rat
  ts_min_holding :: rat
  ts_max_holding :: rat
  ts_long :: nat
  ts_short :: nat
  ts_calls :: nat
  ts_puts :: nat
  ts_spreads :: nat

definition keep_if :: "('a \<Rightarrow> bool) \<Rightarrow> 'a option \<Rightarrow> 'a option" where
  "keep_if P x = (case x of Some v \<Rightarrow> if P v then x else None | None \<Rightarrow> None)"

definition last_opt :: "'a list \<Rightarrow> 'a option" where
  "last_opt xs = (if xs = [] then None else Some (last xs))"

definition first_opt :: "'a list \<Rightarrow> 'a option" where
  "first_opt xs = (case xs of [] \<Rightarrow> None | x # _ \<Rightarrow> Some x)"

definition trade_stats :: "ext \<Rightarrow> realised_stats \<Rightarrow> 'e closed_trade list \<Rightarrow> trade_statistics option" where
  "trade_stats X s trade_log =
     (let pnls = sort (map (\<lambda>t. cents_to_dollars (ct_realized_pnl t)) trade_log);
          holding = sort (map (\<lambda>t. days_positive X (saturate I64 (ct_exit_ts t - ct_entry_ts t))) trade_log) in
      Option.bind (mean_decimal X pnls) (\<lambda>average.
      Option.bind (mean_positive X holding) (\<lambda>average_holding.
      Some \<lparr>ts_trades = stats_trades s, ts_winners = rz_winners s, ts_losers = rz_losers s,
        ts_break_even = rz_break_even s, ts_average_return = unwrap_or 0 average,
        ts_median_return = unwrap_or 0 (median_decimal X pnls),
        ts_largest_win = keep_if (\<lambda>d. \<not> dec_sign_negative X d) (last_opt pnls),
        ts_largest_loss = keep_if (dec_sign_negative X) (first_opt pnls),
        ts_average_holding = average_holding, ts_median_holding = median_positive X holding,
        ts_min_holding = unwrap_or 0 (first_opt holding), ts_max_holding = unwrap_or 0 (last_opt holding),
        ts_long = rz_long_trades s, ts_short = rz_short_trades s, ts_calls = rz_call_trades s,
        ts_puts = rz_put_trades s, ts_spreads = 0\<rparr>)))"

record options_metrics =
  om_calls :: "rat option"
  om_puts :: "rat option"
  om_long :: "rat option"
  om_short :: "rat option"
  om_return_on_premium :: "rat option"
  om_premium_capture :: "rat option"

definition default_options_metrics :: options_metrics where
  "default_options_metrics = \<lparr>om_calls = None, om_puts = None, om_long = None, om_short = None,
     om_return_on_premium = None, om_premium_capture = None\<rparr>"

definition premium_ratio :: "ext \<Rightarrow> bool \<Rightarrow> int \<Rightarrow> int \<Rightarrow> rat option option" where
  "premium_ratio X wanted a b = (if wanted then int_ratio X a b else Some None)"

definition options_stats :: "ext \<Rightarrow> realised_stats \<Rightarrow> options_metrics option" where
  "options_stats X s =
     (let n = int (stats_trades s); net = rz_entry_received s - rz_entry_paid s in
      if n = 0 then Some default_options_metrics
      else Option.bind (int_ratio X (int (rz_call_trades s)) n) (\<lambda>calls.
           Option.bind (int_ratio X (int (rz_put_trades s)) n) (\<lambda>puts.
           Option.bind (int_ratio X (int (rz_long_trades s)) n) (\<lambda>longs.
           Option.bind (int_ratio X (int (rz_short_trades s)) n) (\<lambda>shorts.
           Option.bind (premium_ratio X (net \<noteq> 0) (rz_total s) net) (\<lambda>rop.
           Option.bind (premium_ratio X (rz_entry_received s > 0) (rz_total s) (rz_entry_received s)) (\<lambda>capture.
           Some \<lparr>om_calls = calls, om_puts = puts, om_long = longs, om_short = shorts,
             om_return_on_premium = rop, om_premium_capture = capture\<rparr>)))))))"

record capital_utilization =
  cu_received :: rat
  cu_paid :: rat
  cu_net :: rat

definition capital_stats :: "realised_stats \<Rightarrow> capital_utilization option" where
  "capital_stats s =
     (let net = rz_entry_received s - rz_entry_paid s in
      Option.bind (cents_to_dollars_i128 (rz_entry_received s)) (\<lambda>received.
      Option.bind (cents_to_dollars_i128 (rz_entry_paid s)) (\<lambda>paid.
      Option.bind (cents_to_dollars_i128 net) (\<lambda>net.
      Some \<lparr>cu_received = received, cu_paid = paid, cu_net = net\<rparr>))))"

section \<open>Returns\<close>

definition step_return :: "equity_point \<Rightarrow> equity_point \<Rightarrow> rat option" where
  "step_return prev now =
     (if ep_equity prev = 0 then None
      else finite_some (double_div
             (double_op (-) (f64_of_rat (of_int (ep_equity now))) (f64_of_rat (of_int (ep_equity prev))))
             (f64_of_rat (of_int (ep_equity prev)))))"

fun step_returns :: "equity_point list \<Rightarrow> rat list" where
  "step_returns (prev # now # rest) =
     (case step_return prev now of None \<Rightarrow> [] | Some r \<Rightarrow> [r]) @ step_returns (now # rest)"
| "step_returns _ = []"

definition mean_f64 :: "rat list \<Rightarrow> rat option" where
  "mean_f64 values =
     (if values = [] then None
      else finite_some (double_div (double_sum (map Finite values)) (f64_of_rat (of_nat (length values)))))"

definition mean_square :: "double list \<Rightarrow> double" where
  "mean_square ds =
     double_div (double_sum (map (\<lambda>d. double_op (*) d d) ds)) (f64_of_rat (of_nat (length ds)))"

definition population_stddev :: "rat list \<Rightarrow> rat \<Rightarrow> rat option" where
  "population_stddev values mean =
     (if values = [] then None
      else finite_some (double_sqrt (mean_square
             (map (\<lambda>v. double_op (-) (Finite v) (Finite mean)) values))))"

definition downside_deviation :: "rat list \<Rightarrow> rat option" where
  "downside_deviation values =
     (if values = [] then None
      else finite_some (double_sqrt (mean_square (map (\<lambda>v. Finite (min v 0)) values))))"

definition ratio_f64 :: "rat \<Rightarrow> rat \<Rightarrow> rat option" where
  "ratio_f64 mean denominator =
     (if denominator \<le> 0 then None else finite_some (double_div (Finite mean) (Finite denominator)))"

definition set_volatility :: "ext \<Rightarrow> rat \<Rightarrow> rat option \<Rightarrow> general_metrics \<Rightarrow> general_metrics" where
  "set_volatility X mean stddev g =
     (case stddev of
        None \<Rightarrow> g
      | Some d \<Rightarrow>
          let g = (case Option.bind (dec_from_f64 X d) (positive_new X) of
                     Some v \<Rightarrow> g\<lparr>gm_volatility := Some v\<rparr> | None \<Rightarrow> g) in
          (case ratio_f64 mean d of Some r \<Rightarrow> g\<lparr>gm_sharpe := dec_from_f64 X r\<rparr> | None \<Rightarrow> g))"

definition set_downside :: "ext \<Rightarrow> rat \<Rightarrow> rat option \<Rightarrow> general_metrics \<Rightarrow> general_metrics" where
  "set_downside X mean downside g =
     (case downside of
        None \<Rightarrow> g
      | Some d \<Rightarrow>
          let g = (case Option.bind (dec_from_f64 X d) (positive_new X) of
                     Some v \<Rightarrow> g\<lparr>gm_downside := Some v\<rparr> | None \<Rightarrow> g) in
          (case ratio_f64 mean d of Some r \<Rightarrow> g\<lparr>gm_sortino := dec_from_f64 X r\<rparr> | None \<Rightarrow> g))"

definition populate_return_metrics :: "ext \<Rightarrow> rat list \<Rightarrow> general_metrics \<Rightarrow> general_metrics" where
  "populate_return_metrics X returns g =
     (case mean_f64 returns of
        None \<Rightarrow> g
      | Some mean \<Rightarrow>
          set_downside X mean (downside_deviation returns)
            (set_volatility X mean (population_stddev returns mean) g))"

section \<open>Drawdown and tail risk\<close>

definition decline_step :: "equity_point \<Rightarrow> int \<times> int \<Rightarrow> (int \<times> int) res" where
  "decline_step point = (\<lambda>(peak, max_decline).
     let peak = (if ep_equity point > peak then ep_equity point else peak) in
     rbind (checked (checked_sub I64 peak (ep_equity point))) (\<lambda>decline.
     Inr (peak, if decline > max_decline then decline else max_decline)))"

definition max_drawdown_cents :: "equity_point list \<Rightarrow> int \<Rightarrow> int res" where
  "max_drawdown_cents curve initial =
     rbind (fold_res decline_step curve (initial, 0)) (\<lambda>(_, max_decline). Inr max_decline)"

definition worst_drawdown_ratio :: "equity_point list \<Rightarrow> rat" where
  "worst_drawdown_ratio curve = foldl min 0 (map ep_drawdown curve)"

fun count_losses :: "rat list \<Rightarrow> nat \<Rightarrow> nat \<Rightarrow> nat" where
  "count_losses [] longest run = longest"
| "count_losses (r # rs) longest run =
     (if r < 0 then count_losses rs (if run + 1 > longest then run + 1 else longest) (run + 1)
      else count_losses rs longest 0)"

definition max_consecutive_losses :: "rat list \<Rightarrow> nat" where
  "max_consecutive_losses returns = count_losses returns 0 0"

record advanced_risk =
  ar_consecutive_losses :: nat
  ar_ulcer :: "rat option"
  ar_pain :: "rat option"

definition build_advanced_risk :: "ext \<Rightarrow> equity_point list \<Rightarrow> rat list \<Rightarrow> advanced_risk" where
  "build_advanced_risk X curve returns =
     (if curve = [] then \<lparr>ar_consecutive_losses = max_consecutive_losses returns, ar_ulcer = None, ar_pain = None\<rparr>
      else
        let n = f64_of_rat (of_nat (length curve));
            sum_sq = double_sum (map (\<lambda>p. double_op (*) (Finite (ep_drawdown p)) (Finite (ep_drawdown p))) curve);
            sum_abs = double_sum (map (\<lambda>p. Finite \<bar>ep_drawdown p\<bar>) curve);
            ulcer = double_sqrt (double_div sum_sq n);
            pain = double_div sum_abs n
        in \<lparr>ar_consecutive_losses = max_consecutive_losses returns,
            ar_ulcer = Option.bind (finite_some ulcer) (dec_from_f64 X),
            ar_pain = Option.bind (finite_some pain) (dec_from_f64 X)\<rparr>)"

record drawdown_event =
  de_start :: int
  de_bottom :: int
  de_recovery :: "int option"
  de_magnitude :: rat
  de_duration :: rat
  de_recovery_duration :: "rat option"

record drawdown_analysis =
  da_max :: rat
  da_avg :: rat
  da_events :: "drawdown_event list"
  da_max_duration :: rat
  da_recovery :: "rat option"
  da_time_to_max :: rat
  da_avg_recovery :: "rat option"
  da_underwater_days :: rat
  da_underwater_percentage :: rat

definition F64_EPSILON :: rat where
  "F64_EPSILON = 1 / 2 ^ 52"

definition at_peak :: "equity_point list \<Rightarrow> nat \<Rightarrow> bool" where
  "at_peak curve i \<longleftrightarrow> i < length curve \<and> ep_drawdown (curve ! i) \<ge> - F64_EPSILON"

text \<open>\<open>enumerate().min_by(..)\<close>: the first of the least elements.\<close>

definition bottom_index :: "equity_point list \<Rightarrow> nat" where
  "bottom_index curve =
     (case curve of
        [] \<Rightarrow> 0
      | p # ps \<Rightarrow> fst (foldl (\<lambda>(b, d) (i, q). if ep_drawdown q < d then (i, ep_drawdown q) else (b, d))
                    (0, ep_drawdown p) (enumerate 1 ps)))"

definition start_index :: "equity_point list \<Rightarrow> nat \<Rightarrow> nat" where
  "start_index curve bottom = unwrap_or 0 (List.find (at_peak curve) (rev [0..<Suc bottom]))"

definition recovery_index :: "equity_point list \<Rightarrow> nat \<Rightarrow> nat option" where
  "recovery_index curve bottom = List.find (at_peak curve) [bottom + 1..<length curve]"

definition ts_at :: "equity_point list \<Rightarrow> nat \<Rightarrow> int" where
  "ts_at curve i = (if i < length curve then ep_ts (curve ! i) else 0)"

fun underwater_ns :: "equity_point list \<Rightarrow> int \<Rightarrow> int" where
  "underwater_ns (prev # now # rest) acc =
     underwater_ns (now # rest)
       (if ep_drawdown now < 0 then saturate I64 (acc + saturate I64 (ep_ts now - ep_ts prev)) else acc)"
| "underwater_ns _ acc = acc"

definition drawdown_spans ::
    "ext \<Rightarrow> equity_point list \<Rightarrow> rat \<Rightarrow> drawdown_analysis \<Rightarrow> drawdown_analysis" where
  "drawdown_spans X curve worst a =
     (let bottom = bottom_index curve;
          start_ts = ts_at curve (start_index curve bottom);
          bottom_ts = ts_at curve bottom;
          first_ts = ts_at curve 0;
          recovery = recovery_index curve bottom;
          duration = days_positive X (saturate I64 (bottom_ts - start_ts));
          recovery_duration = map_option (\<lambda>i. days_positive X (saturate I64 (ts_at curve i - bottom_ts))) recovery in
      if worst < 0
      then a\<lparr>da_events := [\<lparr>de_start = dt_from_nanos X start_ts, de_bottom = dt_from_nanos X bottom_ts,
                de_recovery = map_option (\<lambda>i. dt_from_nanos X (ts_at curve i)) recovery,
                de_magnitude = da_max a, de_duration = duration, de_recovery_duration = recovery_duration\<rparr>],
             da_max_duration := duration, da_recovery := recovery_duration,
             da_time_to_max := days_positive X (saturate I64 (start_ts - first_ts)),
             da_avg_recovery := recovery_duration\<rparr>
      else a)"

definition drawdown_default :: drawdown_analysis where
  "drawdown_default = \<lparr>da_max = 0, da_avg = 0, da_events = [], da_max_duration = 0, da_recovery = None,
     da_time_to_max = 0, da_avg_recovery = None, da_underwater_days = 0, da_underwater_percentage = 0\<rparr>"

definition build_drawdown_analysis :: "ext \<Rightarrow> equity_point list \<Rightarrow> int \<Rightarrow> drawdown_analysis res" where
  "build_drawdown_analysis X curve initial =
     (let worst = worst_drawdown_ratio curve;
          a = (case dec_from_f64 X (- worst) of
                 Some m \<Rightarrow> drawdown_default\<lparr>da_max := m, da_avg := m\<rparr> | None \<Rightarrow> drawdown_default) in
      rbind (max_drawdown_cents curve initial) (\<lambda>_.
      if curve = [] then Inr a
      else
        let a = drawdown_spans X curve worst a;
            underwater = underwater_ns curve 0;
            a = a\<lparr>da_underwater_days := days_positive X underwater\<rparr>;
            total_ns = saturate I64 (ts_at curve (length curve - 1) - ts_at curve 0) in
        Inr (if total_ns > 0
             then (case dec_div X (of_int underwater) (of_int total_ns) of
                     Some pct \<Rightarrow> a\<lparr>da_underwater_percentage := pct\<rparr> | None \<Rightarrow> a)
             else a)))"

section \<open>The summary\<close>

record summary =
  su_general :: general_metrics
  su_trades :: trade_statistics
  su_options :: options_metrics
  su_capital :: capital_utilization
  su_drawdown :: drawdown_analysis
  su_risk :: "advanced_risk option"
  su_custom :: "(string, rat) btmap"

text \<open>The document written beside a run: the same figures, with the optional risk figures defaulted.\<close>

record metrics =
  mt_general :: general_metrics
  mt_options :: options_metrics
  mt_trades :: trade_statistics
  mt_drawdown :: drawdown_analysis
  mt_capital :: capital_utilization
  mt_risk :: advanced_risk
  mt_custom :: "(string, rat) btmap"

definition metrics_from_result :: "summary \<Rightarrow> metrics" where
  "metrics_from_result r = \<lparr>mt_general = su_general r, mt_options = su_options r, mt_trades = su_trades r,
     mt_drawdown = su_drawdown r, mt_capital = su_capital r,
     mt_risk = unwrap_or \<lparr>ar_consecutive_losses = 0, ar_ulcer = None, ar_pain = None\<rparr> (su_risk r),
     mt_custom = su_custom r\<rparr>"

text \<open>A computation that fails, or panics.\<close>

definition or_panic :: "'a option \<Rightarrow> ('a \<Rightarrow> 'b res option) \<Rightarrow> 'b res option" where
  "or_panic m f = (case m of None \<Rightarrow> None | Some x \<Rightarrow> f x)"

definition try_res :: "'a res \<Rightarrow> ('a \<Rightarrow> 'b res option) \<Rightarrow> 'b res option" where
  "try_res m f = (case m of Inl e \<Rightarrow> Some (Inl e) | Inr x \<Rightarrow> f x)"

definition total_return :: "ext \<Rightarrow> equity_point list \<Rightarrow> int \<Rightarrow> rat \<Rightarrow> rat res" where
  "total_return X curve initial old =
     (let final = (case last_opt curve of None \<Rightarrow> initial | Some p \<Rightarrow> ep_equity p) in
      if initial = 0 then Inr old
      else rbind (checked (checked_sub I64 final initial)) (\<lambda>delta.
           Inr (unwrap_or old (dec_div X (of_int delta) (of_int initial)))))"

definition custom_metrics ::
    "ext \<Rightarrow> rat \<Rightarrow> int \<Rightarrow> realised_stats \<Rightarrow> int \<Rightarrow> (string, rat) btmap \<Rightarrow> (string, rat) btmap" where
  "custom_metrics X worst drawdn s net m =
     bt_insert ''net_premium_cents'' (of_int net)
    (bt_insert ''long_legs_realized_cents'' (of_int (rz_long s))
    (bt_insert ''short_legs_realized_cents'' (of_int (rz_short s))
    (bt_insert ''realized_pnl_cents'' (of_int (rz_total s))
    (bt_insert ''max_drawdown_cents'' (of_int drawdn)
    (case dec_from_f64 X worst of Some r \<Rightarrow> bt_insert ''max_drawdown_ratio'' r m | None \<Rightarrow> m)))))"

definition populate ::
    "ext \<Rightarrow> summary \<Rightarrow> equity_point list \<Rightarrow> int \<Rightarrow> 'e closed_trade list \<Rightarrow> open_position list
      \<Rightarrow> summary res option" where
  "populate X r curve initial trade_log open_at_end =
     (let returns = step_returns curve;
          g = populate_return_metrics X returns (su_general r) in
      try_res (total_return X curve initial (gm_total_return g)) (\<lambda>tr.
      try_res (stats_from_log trade_log) (\<lambda>s.
      or_panic (populate_win_loss X s (g\<lparr>gm_total_return := tr\<rparr>)) (\<lambda>g.
      or_panic (trade_stats X s trade_log) (\<lambda>trades.
      or_panic (options_stats X s) (\<lambda>options.
      or_panic (capital_stats s) (\<lambda>capital.
      try_res (build_drawdown_analysis X curve initial) (\<lambda>drawdn.
      try_res (max_drawdown_cents curve initial) (\<lambda>drawdown_cents.
      try_res (net_premium_cents trade_log open_at_end) (\<lambda>net.
      Some (Inr \<lparr>su_general = g, su_trades = trades, su_options = options, su_capital = capital,
        su_drawdown = drawdn, su_risk = Some (build_advanced_risk X curve returns),
        su_custom = custom_metrics X (worst_drawdown_ratio curve) drawdown_cents s net (su_custom r)\<rparr>)))))))))))"

section \<open>The realised figures\<close>

text \<open>The figures of a log, as sums over it.\<close>

definition premium_cash :: "'e closed_trade \<Rightarrow> int" where
  "premium_cash t = ct_entry_premium t * ct_quantity t * ct_mult t"

definition pnl_where :: "('e closed_trade \<Rightarrow> bool) \<Rightarrow> 'e closed_trade list \<Rightarrow> int" where
  "pnl_where P ts = sum_list (map ct_realized_pnl (filter P ts))"

definition premium_where :: "('e closed_trade \<Rightarrow> bool) \<Rightarrow> 'e closed_trade list \<Rightarrow> int" where
  "premium_where P ts = sum_list (map premium_cash (filter P ts))"

definition stats_of :: "'e closed_trade list \<Rightarrow> realised_stats \<Rightarrow> bool" where
  "stats_of ts s \<longleftrightarrow>
     rz_winners s = length (filter (\<lambda>t. 0 < ct_realized_pnl t) ts) \<and>
     rz_losers s = length (filter (\<lambda>t. ct_realized_pnl t < 0) ts) \<and>
     stats_trades s = length ts \<and>
     rz_gross_profit s = pnl_where (\<lambda>t. 0 < ct_realized_pnl t) ts \<and>
     rz_gross_loss s = pnl_where (\<lambda>t. ct_realized_pnl t < 0) ts \<and>
     rz_total s = pnl_where (\<lambda>_. True) ts \<and>
     rz_short s = pnl_where (\<lambda>t. ct_side t = Short) ts \<and>
     rz_long s = pnl_where (\<lambda>t. ct_side t = Long) ts \<and>
     rz_short_trades s = length (filter (\<lambda>t. ct_side t = Short) ts) \<and>
     rz_long_trades s = length (filter (\<lambda>t. ct_side t = Long) ts) \<and>
     rz_call_trades s = length (filter (\<lambda>t. ck_style (ct_contract t) = Call) ts) \<and>
     rz_put_trades s = length (filter (\<lambda>t. ck_style (ct_contract t) = Put) ts) \<and>
     rz_entry_received s = premium_where (\<lambda>t. ct_side t = Short) ts \<and>
     rz_entry_paid s = premium_where (\<lambda>t. ct_side t = Long) ts"

lemma premium_cash_Inr: "premium_cash_cents p q m = Inr c \<Longrightarrow> c = p * q * m"
  by (auto simp: premium_cash_cents_def res_simps checked_defs bind_eq_Some_conv)

lemma count_outcome_Inr:
  "count_outcome pnl s = Inr s' \<Longrightarrow> s' = s\<lparr>
     rz_winners := rz_winners s + (if 0 < pnl then 1 else 0),
     rz_losers := rz_losers s + (if pnl < 0 then 1 else 0),
     rz_break_even := rz_break_even s + (if pnl = 0 then 1 else 0),
     rz_gross_profit := rz_gross_profit s + (if 0 < pnl then pnl else 0),
     rz_gross_loss := rz_gross_loss s + (if pnl < 0 then pnl else 0)\<rparr>"
  by (auto simp: count_outcome_def res_simps checked_defs split: if_splits)

lemma count_side_Inr:
  "count_side sd pnl premium s = Inr s' \<Longrightarrow> s' = (case sd of
     Short \<Rightarrow> s\<lparr>rz_short_trades := rz_short_trades s + 1, rz_short := rz_short s + pnl,
                rz_entry_received := rz_entry_received s + premium\<rparr>
   | Long \<Rightarrow> s\<lparr>rz_long_trades := rz_long_trades s + 1, rz_long := rz_long s + pnl,
               rz_entry_paid := rz_entry_paid s + premium\<rparr>)"
  by (cases sd) (auto simp: count_side_def res_simps checked_defs)

lemma stats_trade_step:
  assumes "stats_trade t s = Inr s'" and "stats_of ts s"
  shows "stats_of (ts @ [t]) s'"
proof -
  let ?pnl = "ct_realized_pnl t"
  from assms(1) obtain premium u v c where p: "premium_cash_cents (ct_entry_premium t) (ct_quantity t) (ct_mult t) = Inr premium"
    and u: "count_outcome ?pnl s = Inr u" and c: "checked_add I64 (rz_total u) ?pnl = Some c"
    and v: "count_side (ct_side t) ?pnl premium (u\<lparr>rz_total := c\<rparr>) = Inr v"
    and s': "s' = count_style (ck_style (ct_contract t)) v"
    by (auto simp: stats_trade_def res_simps Let_def)
  have c': "c = rz_total u + ?pnl" using c by (auto simp: checked_defs res_simps)
  have pr: "premium = premium_cash t" using premium_cash_Inr [OF p] by (simp add: premium_cash_def)
  show ?thesis
    using assms(2)
    unfolding s' count_side_Inr [OF v] count_outcome_Inr [OF u] c' pr stats_of_def
    by (cases "ct_side t"; cases "ck_style (ct_contract t)")
      (simp_all add: stats_trades_def pnl_where_def premium_where_def count_style_def)
qed

lemma stats_loop:
  "fold_res stats_trade ts s = Inr s' \<Longrightarrow> stats_of done s \<Longrightarrow> stats_of (done @ ts) s'"
proof (induction ts arbitrary: s "done")
  case (Cons t ts)
  then obtain u where u: "stats_trade t s = Inr u" and rest: "fold_res stats_trade ts u = Inr s'"
    by (auto simp: res_simps)
  from Cons.IH [OF rest stats_trade_step [OF u Cons.prems(2)]] show ?case by simp
qed simp

lemma stats_from_log_exact: "stats_from_log ts = Inr s \<Longrightarrow> stats_of ts s"
  using stats_loop [of ts stats_zero s "[]"]
  by (simp add: stats_from_log_def stats_of_def stats_zero_def stats_trades_def pnl_where_def premium_where_def)

lemma split_sum:
  "(\<And>x. x \<in> set xs \<Longrightarrow> P x = (\<not> Q x)) \<Longrightarrow>
     sum_list (map f (filter P xs)) + sum_list (map f (filter Q xs)) = sum_list (map f xs)" for f :: "'a \<Rightarrow> int"
  by (induction xs) auto

lemma pnl_by_side: "pnl_where (\<lambda>t. ct_side t = Short) ts + pnl_where (\<lambda>t. ct_side t = Long) ts = pnl_where (\<lambda>_. True) ts"
  unfolding pnl_where_def
  by (subst split_sum) (auto, metis side.exhaust)

lemma pnl_by_sign: "pnl_where (\<lambda>t. 0 < ct_realized_pnl t) ts + pnl_where (\<lambda>t. ct_realized_pnl t < 0) ts = pnl_where (\<lambda>_. True) ts"
  by (induction ts) (auto simp: pnl_where_def)

section \<open>The largest decline\<close>

lemma decline_step_Inr:
  "decline_step p (peak, d) = Inr (peak', d') \<longleftrightarrow>
     peak' = max peak (ep_equity p) \<and> d' = max d (peak' - ep_equity p) \<and> fits I64 (peak' - ep_equity p)"
  by (auto simp: decline_step_def res_simps checked_defs Let_def max_def)

lemma Max_insert_insert: "finite S \<Longrightarrow> Max (insert a (insert b S)) = Max (insert (max a b) S)" for a :: "'a::linorder"
  by (cases "S = {}") (auto simp: max.assoc)

lemma decline_loop:
  assumes "fold_res decline_step ps (peak, d) = Inr (peak', d')"
  shows "d' = Max (insert d ((\<lambda>j. Max (insert peak (set (map ep_equity (take (Suc j) ps)))) - ep_equity (ps ! j)) ` {..<length ps}))"
  using assms
proof (induction ps arbitrary: peak d)
  case (Cons p ps)
  then obtain q e where pe: "decline_step p (peak, d) = Inr (q, e)"
    and rest: "fold_res decline_step ps (q, e) = Inr (peak', d')"
    by (auto simp: res_simps)
  have q: "q = max peak (ep_equity p)" and e: "e = max d (q - ep_equity p)"
    using pe by (auto simp: decline_step_Inr)
  let ?f = "\<lambda>peak ps j. Max (insert peak (set (map ep_equity (take (Suc j) ps)))) - ep_equity (ps ! j)"
  have "?f peak (p # ps) (Suc j) = ?f q ps j" for j
    by (simp add: q Max_insert_insert del: Max_insert)
  then have falls: "?f peak (p # ps) ` {..<length (p # ps)} = insert (q - ep_equity p) (?f q ps ` {..<length ps})"
    by (auto simp: q lessThan_Suc_eq_insert_0 image_image)
  show ?case
    unfolding falls Cons.IH [OF rest] e by (rule Max_insert_insert [symmetric]) simp
qed simp

text \<open>
  C39. The largest drawdown in cents is exact: no fall from an earlier level of equity, or from
  the initial capital, to a later point of the curve is larger, and when it is not zero it is one
  of those falls.
\<close>

theorem max_drawdown_exact:
  assumes "max_drawdown_cents curve initial = Inr d"
  shows "0 \<le> d \<and>
    (\<forall>j < length curve. \<forall>level \<in> insert initial (set (map ep_equity (take (Suc j) curve))).
       level - ep_equity (curve ! j) \<le> d) \<and>
    (d = 0 \<or> (\<exists>j < length curve. \<exists>level \<in> insert initial (set (map ep_equity (take (Suc j) curve))).
       d = level - ep_equity (curve ! j)))"
proof -
  let ?levels = "\<lambda>j. insert initial (set (map ep_equity (take (Suc j) curve)))"
  let ?falls = "(\<lambda>j. Max (?levels j) - ep_equity (curve ! j)) ` {..<length curve}"
  from assms obtain peak where "fold_res decline_step curve (initial, 0) = Inr (peak, d)"
    by (auto simp: max_drawdown_cents_def res_simps)
  then have d: "d = Max (insert 0 ?falls)" by (rule decline_loop)
  have "0 \<le> d" by (simp add: d)
  moreover have "level - ep_equity (curve ! j) \<le> d" if "j < length curve" "level \<in> ?levels j" for j level
  proof -
    have "level \<le> Max (?levels j)" using that(2) by (intro Max_ge) auto
    moreover have "Max (?levels j) - ep_equity (curve ! j) \<le> d"
      unfolding d using that(1) by (intro Max_ge) auto
    ultimately show ?thesis by linarith
  qed
  moreover have "d = 0 \<or> (\<exists>j < length curve. \<exists>level \<in> ?levels j. d = level - ep_equity (curve ! j))"
  proof -
    have "d \<in> insert 0 ?falls" unfolding d by (intro Max_in) auto
    then show ?thesis
    proof
      assume "d \<in> ?falls"
      then obtain j where j: "j < length curve" "d = Max (?levels j) - ep_equity (curve ! j)" by auto
      have "Max (?levels j) \<in> ?levels j" by (intro Max_in) auto
      with j show ?thesis by blast
    qed simp
  qed
  ultimately show ?thesis by blast
qed

definition sample_curve :: "equity_point list" where
  "sample_curve = map (\<lambda>e. \<lparr>ep_step = 0, ep_ts = 0, ep_cash = e, ep_position_value = 0, ep_equity = e,
     ep_drawdown = 0\<rparr>) [90, 120, 70, 100]"

theorem max_drawdown_exact_witness: "max_drawdown_cents sample_curve 100 = Inr 50 \<and> (0::int) \<le> 50"
proof -
  have d: "max_drawdown_cents sample_curve 100 = Inr 50"
    by (simp add: max_drawdown_cents_def sample_curve_def decline_step_def checked_defs fits_def Let_def)
  from max_drawdown_exact [OF d] d show ?thesis by blast
qed

text \<open>
  The realised figures of a log: wins, losses and break-evens partition the trades, gross profit
  and gross loss add up to the total, so do the short and the long legs, and the net premium of a
  run with nothing left open is what was received less what was paid.
\<close>

lemma realised_figures_exact:
  assumes "stats_from_log ts = Inr s"
  shows "stats_trades s = length ts \<and> rz_total s = sum_list (map ct_realized_pnl ts) \<and>
    rz_gross_profit s + rz_gross_loss s = rz_total s \<and> rz_short s + rz_long s = rz_total s \<and>
    rz_long_trades s + rz_short_trades s = length ts \<and> rz_call_trades s + rz_put_trades s = length ts \<and>
    rz_winners s = length (filter (\<lambda>t. 0 < ct_realized_pnl t) ts) \<and>
    (\<forall>net. net_premium_cents ts [] = Inr net \<longrightarrow> net = rz_entry_received s - rz_entry_paid s)"
proof -
  have s: "stats_of ts s" by (rule stats_from_log_exact [OF assms])
  have "net = net0 + premium_where (\<lambda>t. ct_side t = Short) ts - premium_where (\<lambda>t. ct_side t = Long) ts"
    if "fold_res net_trade ts net0 = Inr net" for net net0 and ts :: "'a closed_trade list"
    using that
  proof (induction ts arbitrary: net0)
    case (Cons t ts)
    then obtain m where m: "net_trade t net0 = Inr m" and rest: "fold_res net_trade ts m = Inr net"
      by (auto simp: res_simps)
    have "m = net0 + (if ct_side t = Short then premium_cash t else - premium_cash t)"
      using m by (cases "ct_side t") (auto simp: net_trade_def net_add_def res_simps checked_defs premium_cash_def
          dest!: premium_cash_Inr)
    with Cons.IH [OF rest] show ?case by (cases "ct_side t") (simp_all add: premium_where_def)
  qed (simp add: premium_where_def)
  from this [of ts 0] have net: "net = rz_entry_received s - rz_entry_paid s"
    if "net_premium_cents ts [] = Inr net" for net
    using that s by (auto simp: net_premium_cents_def stats_of_def res_simps Let_def)
  have parts: "length (filter P ts) + length (filter Q ts) = length ts"
    if "\<And>t. P t = (\<not> Q t)" for P Q :: "'a closed_trade \<Rightarrow> bool"
  proof -
    have "P = (\<lambda>t. \<not> Q t)" using that by (rule ext)
    with sum_length_filter_compl [of Q ts] show ?thesis by simp
  qed
  have "\<And>t :: 'a closed_trade. (ct_side t = Long) = (ct_side t \<noteq> Short)"
    "\<And>t :: 'a closed_trade. (ck_style (ct_contract t) = Call) = (ck_style (ct_contract t) \<noteq> Put)"
    by (metis side.exhaust side.distinct(1), metis option_style.exhaust option_style.distinct(1))
  with parts s net pnl_by_side [of ts] pnl_by_sign [of ts] show ?thesis
    by (auto simp: stats_of_def pnl_where_def)
qed

end
