(* ===== verification/Scenario.thy ===== *)
theory Scenario
  imports Parquet_Tape Doubles
begin

text \<open>
  Scenario expansion (\<open>src/engine/scenario.rs\<close>): the configurations of a batch, each with seeds
  derived from the base seed and its index, and the walk shocks of a stress test. JSON values
  are \<open>serde_json\<close>'s, the hash is a parameter, and \<open>Decimal::to_f64\<close> is a parameter \<open>F\<close>.
\<close>

section \<open>JSON values and doubles\<close>

datatype (plugins del: quickcheck_narrowing quickcheck_exhaustive quickcheck_random quickcheck_full_exhaustive lifting transfer)
  json =
    JNull | JBool bool | JInt int | JFloat rat | JString string | JArray "json list"
  | JObject "(string \<times> json) list"

text \<open>\<open>Value::as_f64\<close>.\<close>

definition as_f64 :: "json \<Rightarrow> double option" where
  "as_f64 v =
     (case v of JInt n \<Rightarrow> Some (f64_of_rat (of_int n)) | JFloat x \<Rightarrow> Some (Finite x) | _ \<Rightarrow> None)"

text \<open>\<open>Number::from_f64\<close>.\<close>

definition number_from_f64 :: "double \<Rightarrow> json option" where
  "number_from_f64 d = (case d of Finite x \<Rightarrow> Some (JFloat x) | NotFinite \<Rightarrow> None)"

definition scenario_err :: "scenario_message \<Rightarrow> backtest_error" where
  "scenario_err m = Conversion (MsgScenario m)"

section \<open>Parameters\<close>

datatype scenario_type = MonteCarlo | StressTest | Historical | CustomScenario

fun scenario_code :: "scenario_type \<Rightarrow> nat" where
  "scenario_code MonteCarlo = 0"
| "scenario_code StressTest = 1"
| "scenario_code Historical = 2"
| "scenario_code CustomScenario = 3"

record config_override =
  ov_seed :: "int option"
  ov_volatility_factor :: "rat option"
  ov_drift_delta :: "rat option"

definition default_override :: config_override where
  "default_override = \<lparr>ov_seed = None, ov_volatility_factor = None, ov_drift_delta = None\<rparr>"

record scenario_params =
  sc_kind :: scenario_type
  sc_base_seed :: int
  sc_count :: int
  sc_sweep :: "config_override list"

section \<open>Seeds\<close>

fun le_bytes :: "nat \<Rightarrow> int \<Rightarrow> nat list" where
  "le_bytes 0 n = []"
| "le_bytes (Suc k) n = nat (n mod 256) # le_bytes k (n div 256)"

fun from_le_bytes :: "nat list \<Rightarrow> int" where
  "from_le_bytes [] = 0"
| "from_le_bytes (b # bs) = int b + 256 * from_le_bytes bs"

definition ascii_bytes :: "string \<Rightarrow> nat list" where
  "ascii_bytes s = map of_char s"

definition ENGINE_SEED_TAG :: "nat list" where
  "ENGINE_SEED_TAG = ascii_bytes ''ironcondor.scenario.child_seed.v1'' @ [0]"

definition DATA_SEED_TAG :: "nat list" where
  "DATA_SEED_TAG = ascii_bytes ''ironcondor.scenario.child_data_seed.v1'' @ [0]"

definition seed_from :: "'h sha_api \<Rightarrow> nat list \<Rightarrow> int \<Rightarrow> int \<Rightarrow> int" where
  "seed_from S tag base_seed index =
     (let digest = sha_final S (sha_update S (le_bytes 4 index)
            (sha_update S (le_bytes 8 base_seed) (sha_update S tag (sha_new S))));
          bytes = take 8 digest @ replicate (8 - length digest) 0
      in from_le_bytes bytes)"

definition child_seed :: "'h sha_api \<Rightarrow> int \<Rightarrow> int \<Rightarrow> int" where
  "child_seed S base_seed index = seed_from S ENGINE_SEED_TAG base_seed index"

definition child_data_seed :: "'h sha_api \<Rightarrow> int \<Rightarrow> int \<Rightarrow> int" where
  "child_data_seed S base_seed index = seed_from S DATA_SEED_TAG base_seed index"

section \<open>Walk presets\<close>

datatype walk_preset =
    Brownian rat rat rat \<comment> \<open>dt, drift, volatility\<close>
  | GeometricBrownian rat rat rat
  | MeanReverting rat rat rat rat \<comment> \<open>dt, volatility, speed, mean\<close>
  | JumpDiffusion rat rat rat rat rat rat \<comment> \<open>dt, drift, volatility, intensity, mean, volatility of a jump\<close>
  | Garch rat rat rat rat rat \<comment> \<open>dt, drift, volatility, alpha, beta\<close>
  | Heston rat rat rat rat rat rat rat \<comment> \<open>dt, drift, volatility, kappa, theta, xi, rho\<close>

fun variant_name :: "walk_preset \<Rightarrow> string" where
  "variant_name (Brownian _ _ _) = ''Brownian''"
| "variant_name (GeometricBrownian _ _ _) = ''GeometricBrownian''"
| "variant_name (MeanReverting _ _ _ _) = ''MeanReverting''"
| "variant_name (JumpDiffusion _ _ _ _ _ _) = ''JumpDiffusion''"
| "variant_name (Garch _ _ _ _ _) = ''Garch''"
| "variant_name (Heston _ _ _ _ _ _ _) = ''Heston''"

definition finite_f64 :: "(rat \<Rightarrow> double option) \<Rightarrow> rat \<Rightarrow> rat option" where
  "finite_f64 F value = (case F value of Some (Finite x) \<Rightarrow> Some x | _ \<Rightarrow> None)"

definition num :: "(rat \<Rightarrow> double option) \<Rightarrow> rat \<Rightarrow> json res" where
  "num F value =
     rbind (ok_or (finite_f64 F value) (scenario_err (MsgWalkParameter value))) (\<lambda>x.
     ok_or (number_from_f64 (Finite x)) (scenario_err (MsgWalkNumber value)))"

text \<open>The \<open>json!\<close> of one variant: the fields in their order, each through \<open>num\<close>.\<close>

definition num_field ::
    "(rat \<Rightarrow> double option) \<Rightarrow> string \<times> rat \<Rightarrow> (string, json) btmap \<Rightarrow> (string, json) btmap res" where
  "num_field F = (\<lambda>(name, value) obj. rbind (num F value) (\<lambda>v. Inr (bt_insert name v obj)))"

fun walk_fields :: "walk_preset \<Rightarrow> (string \<times> rat) list" where
  "walk_fields (Brownian dt drift vol) = [(''dt'', dt), (''drift'', drift), (''volatility'', vol)]"
| "walk_fields (GeometricBrownian dt drift vol) = [(''dt'', dt), (''drift'', drift), (''volatility'', vol)]"
| "walk_fields (MeanReverting dt vol speed mean) =
     [(''dt'', dt), (''volatility'', vol), (''speed'', speed), (''mean'', mean)]"
| "walk_fields (JumpDiffusion dt drift vol intensity jm jv) =
     [(''dt'', dt), (''drift'', drift), (''volatility'', vol), (''intensity'', intensity),
      (''jump_mean'', jm), (''jump_volatility'', jv)]"
| "walk_fields (Garch dt drift vol alpha beta) =
     [(''dt'', dt), (''drift'', drift), (''volatility'', vol), (''alpha'', alpha), (''beta'', beta)]"
| "walk_fields (Heston dt drift vol kappa theta xi rho) =
     [(''dt'', dt), (''drift'', drift), (''volatility'', vol), (''kappa'', kappa), (''theta'', theta),
      (''xi'', xi), (''rho'', rho)]"

definition to_method_json :: "(rat \<Rightarrow> double option) \<Rightarrow> walk_preset \<Rightarrow> json res" where
  "to_method_json F w =
     rbind (fold_res (num_field F) (walk_fields w) bt_empty) (\<lambda>params.
     Inr (JObject (bt_insert (variant_name w) (JObject params) bt_empty)))"

section \<open>Shocks\<close>

record session_request =
  sq_symbol :: string
  sq_steps :: int
  sq_initial_price :: double
  sq_days_to_expiration :: double
  sq_volatility :: double
  sq_risk_free_rate :: double
  sq_dividend_yield :: double
  sq_method :: json
  sq_time_frame :: string
  sq_chain_size :: "int option"
  sq_strike_interval :: "double option"
  sq_skew_slope :: "double option"
  sq_smile_curve :: "double option"
  sq_spread :: "double option"
  sq_seed :: "int option"

definition shock_scalar :: "(rat \<Rightarrow> double option) \<Rightarrow> rat \<Rightarrow> rat res" where
  "shock_scalar F value = ok_or (finite_f64 F value) (scenario_err (MsgShock value))"

definition finite_or :: "double \<Rightarrow> string \<Rightarrow> rat res" where
  "finite_or value what =
     (case value of Finite x \<Rightarrow> Inr x | NotFinite \<Rightarrow> Inl (scenario_err (MsgShocked what)))"

definition shock_method_field :: "json \<Rightarrow> string \<Rightarrow> (double \<Rightarrow> double) \<Rightarrow> json res" where
  "shock_method_field m field f =
     (case m of
        JObject [(variant, JObject params)] \<Rightarrow>
          (case bt_get params field of
             None \<Rightarrow> Inr m
           | Some slot \<Rightarrow>
               (case as_f64 slot of
                  None \<Rightarrow> Inr m
                | Some current \<Rightarrow>
                    rbind (finite_or (f current) field) (\<lambda>shocked.
                    rbind (ok_or (number_from_f64 (Finite shocked)) (scenario_err (MsgShockedNumber field))) (\<lambda>n.
                    Inr (JObject [(variant, JObject (bt_insert field n params))])))))
      | _ \<Rightarrow> Inr m)"

definition shock_volatility ::
    "(rat \<Rightarrow> double option) \<Rightarrow> rat \<Rightarrow> session_request \<Rightarrow> session_request res" where
  "shock_volatility F factor q =
     rbind (shock_scalar F factor) (\<lambda>factor.
     if factor < 0 then Inl (scenario_err (MsgNegativeFactor factor))
     else rbind (finite_or (double_op (*) (sq_volatility q) (Finite factor)) ''session volatility'') (\<lambda>v.
          rbind (shock_method_field (sq_method q) ''volatility'' (\<lambda>x. double_op (*) x (Finite factor))) (\<lambda>m.
          Inr (q\<lparr>sq_volatility := Finite v, sq_method := m\<rparr>))))"

definition shock_drift ::
    "(rat \<Rightarrow> double option) \<Rightarrow> rat \<Rightarrow> session_request \<Rightarrow> session_request res" where
  "shock_drift F delta q =
     rbind (shock_scalar F delta) (\<lambda>delta.
     rbind (shock_method_field (sq_method q) ''drift'' (\<lambda>x. double_op (+) x (Finite delta))) (\<lambda>m.
     Inr (q\<lparr>sq_method := m\<rparr>)))"

definition apply_walk_shocks ::
    "(rat \<Rightarrow> double option) \<Rightarrow> config_override \<Rightarrow> session_request \<Rightarrow> session_request res" where
  "apply_walk_shocks F over q =
     rbind (case ov_volatility_factor over of None \<Rightarrow> Inr q | Some f \<Rightarrow> shock_volatility F f q) (\<lambda>q.
     case ov_drift_delta over of None \<Rightarrow> Inr q | Some d \<Rightarrow> shock_drift F d q)"

section \<open>Expansion\<close>

definition MAX_RUNS :: int where
  "MAX_RUNS = 1000000"

type_synonym run_config = "session_request data_source_spec backtest_config"

definition derive_config ::
    "'h sha_api \<Rightarrow> (rat \<Rightarrow> double option) \<Rightarrow> run_config \<Rightarrow> int \<Rightarrow> int \<Rightarrow> config_override \<Rightarrow> run_config res" where
  "derive_config S F base base_seed index over =
     (let config = base\<lparr>bc_seed := (case ov_seed over of Some s \<Rightarrow> s | None \<Rightarrow> child_seed S base_seed index)\<rparr> in
      case bc_data_source config of
        SimulatorSource spec \<Rightarrow>
          let data_seed = child_data_seed S base_seed index in
          rbind (apply_walk_shocks F over ((ss_session spec)\<lparr>sq_seed := Some data_seed\<rparr>)) (\<lambda>session.
          Inr (config\<lparr>bc_data_source := SimulatorSource (spec\<lparr>ss_data_seed := data_seed,
                 ss_session := session, ss_tape_sha256 := []\<rparr>)\<rparr>))
      | _ \<Rightarrow> Inr config)"

definition has_shock :: "config_override \<Rightarrow> bool" where
  "has_shock over \<longleftrightarrow> ov_volatility_factor over \<noteq> None \<or> ov_drift_delta over \<noteq> None"

definition expand_one ::
    "'h sha_api \<Rightarrow> (rat \<Rightarrow> double option) \<Rightarrow> run_config \<Rightarrow> int \<Rightarrow> config_override
      \<Rightarrow> run_config list \<times> int \<Rightarrow> (run_config list \<times> int) res" where
  "expand_one S F base base_seed over = (\<lambda>(out, index).
     rbind (derive_config S F base base_seed index over) (\<lambda>config.
     rbind (checked (checked_add U32 index 1)) (\<lambda>index. Inr (out @ [config], index))))"

definition expand ::
    "'h sha_api \<Rightarrow> (rat \<Rightarrow> double option) \<Rightarrow> scenario_params \<Rightarrow> run_config \<Rightarrow> run_config list res" where
  "expand S F params base =
     (let overrides = (if sc_sweep params = [] then [default_override] else sc_sweep params) in
      if sc_kind params \<noteq> StressTest \<and> list_ex has_shock overrides
      then Inl (Config (MsgShockKind (scenario_code (sc_kind params))))
      else if sc_count params > 1 \<and> list_ex (\<lambda>over. ov_seed over \<noteq> None) overrides
      then Inl (Config MsgSeedReplicated)
      else rbind (checked (try_into Usize (sc_count params))) (\<lambda>count.
           rbind (checked (checked_mul Usize (int (length overrides)) count)) (\<lambda>total.
           if total > MAX_RUNS then Inl (Config (MsgTooManyRuns total))
           else rbind (fold_res (\<lambda>over. fold_res (\<lambda>_. expand_one S F base (sc_base_seed params) over)
                   [0..<nat count]) overrides ([], 0)) (\<lambda>(out, _). Inr out))))"

section \<open>The runs of an expansion\<close>

text \<open>The runs in order: every override, repeated.\<close>

definition run_plan :: "scenario_params \<Rightarrow> config_override list" where
  "run_plan params =
     concat (map (replicate (nat (sc_count params)))
       (if sc_sweep params = [] then [default_override] else sc_sweep params))"

lemma expand_fold:
  "fold_res (\<lambda>over. fold_res (\<lambda>_. expand_one S F base seed over) [0..<n]) overs =
     fold_res (expand_one S F base seed) (concat (map (replicate n) overs))"
proof (induction overs)
  case Nil
  show ?case by (rule ext) simp
next
  case (Cons over overs)
  have rep: "fold_res (\<lambda>_. f x) ys = fold_res f (replicate (length ys) x)"
    for f :: "'p \<Rightarrow> 's \<Rightarrow> 's res" and x and ys :: "nat list"
    by (induction ys) auto
  with Cons show ?case by (intro ext) (simp add: fold_res_append rep)
qed

lemma expand_one_Inr:
  "expand_one S F base seed over (out, i) = Inr (out', j) \<longleftrightarrow>
     (\<exists>c. derive_config S F base seed i over = Inr c \<and> fits U32 (i + 1) \<and> out' = out @ [c] \<and> j = i + 1)"
  by (auto simp: expand_one_def res_simps checked_defs)

lemma expand_loop:
  assumes "fold_res (expand_one S F base seed) overs (out, i) = Inr (out', j)"
  shows "\<exists>new. out' = out @ new \<and> j = i + int (length overs) \<and> length new = length overs \<and>
    (\<forall>k < length overs. derive_config S F base seed (i + int k) (overs ! k) = Inr (new ! k))"
  using assms
proof (induction overs arbitrary: out i)
  case (Cons over overs)
  then obtain c where c: "derive_config S F base seed i over = Inr c"
    and rest: "fold_res (expand_one S F base seed) overs (out @ [c], i + 1) = Inr (out', j)"
    by (auto simp: rbind_Inr expand_one_Inr)
  from Cons.IH [OF rest] obtain new where new: "out' = out @ [c] @ new" "j = i + 1 + int (length overs)"
    "length new = length overs"
    "\<forall>k < length overs. derive_config S F base seed (i + 1 + int k) (overs ! k) = Inr (new ! k)"
    by auto
  show ?case
  proof (intro exI [of _ "c # new"] conjI allI impI)
    fix k assume "k < length (over # overs)"
    then show "derive_config S F base seed (i + int k) ((over # overs) ! k) = Inr ((c # new) ! k)"
      using c new(4) by (cases k) (auto simp: algebra_simps)
  qed (use new in auto)
qed simp

text \<open>
  A batch is one configuration per planned run, each derived from the base by its position
  alone: no state is shared and no order of execution can change it.
\<close>

lemma expand_runs:
  assumes "expand S F params base = Inr configs"
  shows "length configs = length (run_plan params) \<and> int (length configs) \<le> MAX_RUNS \<and>
    (\<forall>k < length configs. derive_config S F base (sc_base_seed params) (int k) (run_plan params ! k)
       = Inr (configs ! k))"
proof -
  let ?overs = "if sc_sweep params = [] then [default_override] else sc_sweep params"
  from assms obtain total j where total: "total = int (length ?overs) * sc_count params" "total \<le> MAX_RUNS"
    and count: "0 \<le> sc_count params"
    and loop: "fold_res (\<lambda>over. fold_res (\<lambda>_. expand_one S F base (sc_base_seed params) over)
      [0..<nat (sc_count params)]) ?overs ([], 0) = Inr (configs, j)"
    by (auto simp: expand_def res_simps checked_defs width_simps Let_def split: if_splits)
  from expand_loop [OF loop [unfolded expand_fold]]
  have runs: "length configs = length (run_plan params)"
    "\<forall>k < length (run_plan params). derive_config S F base (sc_base_seed params) (int k) (run_plan params ! k)
       = Inr (configs ! k)"
    by (auto simp: run_plan_def)
  have len: "length (concat (map (replicate n) xs)) = length xs * n" for n and xs :: "config_override list"
    by (induction xs) auto
  have "int (length (run_plan params)) = total"
    using count by (simp only: run_plan_def len total of_nat_mult) simp
  with runs total(2) show ?thesis by simp
qed

text \<open>What a derived configuration changes: the seed, and for a simulator its session.\<close>

lemma derive_config_Inr:
  assumes "derive_config S F base seed i over = Inr c"
  shows "c\<lparr>bc_data_source := bc_data_source base, bc_seed := bc_seed base\<rparr> = base \<and>
    bc_seed c = unwrap_or (child_seed S seed i) (ov_seed over) \<and>
    (case bc_data_source base of
       SimulatorSource spec \<Rightarrow> \<exists>spec'. bc_data_source c = SimulatorSource spec' \<and>
         ss_data_seed spec' = child_data_seed S seed i \<and> ss_tape_sha256 spec' = [] \<and>
         sq_seed (ss_session spec') = Some (child_data_seed S seed i)
     | src \<Rightarrow> bc_data_source c = src)"
proof -
  have keep: "sq_seed q' = sq_seed q" if "apply_walk_shocks F over q = Inr q'" for q q'
    using that by (auto simp: apply_walk_shocks_def shock_volatility_def shock_drift_def res_simps
        split: option.splits if_splits)
  show ?thesis
    using assms keep
    by (cases "bc_data_source base"; cases "ov_seed over")
      (fastforce simp: derive_config_def res_simps Let_def)+
qed

end
