(* ===== verification/Run_Spec.thy ===== *)
theory Run_Spec
  imports Metrics Leg_Set Engine_Run Realistic_Fill Scenario
begin

text \<open>
  The runner (\<open>src/run.rs\<close>): a validated configuration selects the fill model, a strategy
  specification the strategy, and the result of the engine is completed with the summary and the
  attribution. A value \<open>None\<close> is a run that does not return normally: a loop that does not end,
  which \<open>run_returns\<close> excludes, or a panic of a decimal operator.
\<close>

record ('d, 'e) analysed_run = "('d, 'e) backtest_run" +
  an_summary :: summary
  an_rows :: "attribution_row list"

definition analyse :: "('d, 'e) backtest_run \<Rightarrow> summary \<Rightarrow> attribution_row list \<Rightarrow> ('d, 'e) analysed_run" where
  "analyse run summary rows = backtest_run.extend run (analysed_run.fields summary rows)"

text \<open>What the runner takes from outside: the engine's parameters and the fresh summary.\<close>

record ('e, 'r, 'b) runner =
  ru_ext :: ext
  ru_reasons :: "'e reason_api"
  ru_rng :: "int \<Rightarrow> 'r"
  ru_book :: "'b book_api"
  ru_blank :: summary

definition engine_run ::
    "('e, 'r, 'b) runner \<Rightarrow> 'c backtest_config \<Rightarrow> ('f, 'd) data_feed \<Rightarrow> 'f \<Rightarrow> ('s, 'r, 'e) strategy \<Rightarrow> 's
      \<Rightarrow> string \<Rightarrow> ('d, 'e) backtest_run res option" where
  "engine_run U config F f SY s name =
     (case bc_mode config of
        Naive \<Rightarrow>
          run_backtest (ru_ext U) (ru_reasons U) (ru_rng U) config F f (naive_model (ru_ext U))
            (naive_fill_new (bc_slippage config) (bc_fees config)) SY s name
      | Realistic \<Rightarrow>
          run_backtest (ru_ext U) (ru_reasons U) (ru_rng U) config F f (realistic_model (ru_ext U) (ru_book U))
            (with_liquidity_profile (bc_fees config) (bc_marketable_cap_ticks config) (bc_seed config)
              (bc_liquidity_profile config)) SY s name)"

definition run_with_feed ::
    "('e, 'r, 'b) runner \<Rightarrow> 'c backtest_config \<Rightarrow> ('f, 'd) data_feed \<Rightarrow> 'f \<Rightarrow> ('s, 'r, 'e) strategy \<Rightarrow> 's
      \<Rightarrow> string \<Rightarrow> ('d, 'e) analysed_run res option" where
  "run_with_feed U config F f SY s name =
     try_res (backtest_config_validate (ru_ext U) config) (\<lambda>_.
     or_panic (engine_run U config F f SY s name) (\<lambda>r.
     try_res r (\<lambda>run.
     try_res (ok_or (try_into I64 (bc_initial_capital config)) (Config MsgCapitalRange)) (\<lambda>initial.
     or_panic (populate (ru_ext U) (ru_blank U) (br_equity_curve run) initial (br_trade_log run)
       (br_open_at_end run)) (\<lambda>r.
     try_res r (\<lambda>summary.
     try_res (attribute (ru_ext U) (br_substrate run)) (\<lambda>rows.
     Some (Inr (analyse run summary rows)))))))))"

text \<open>The strategies a specification names: the two upstream objects and what they need.\<close>

record ('p, 'q, 'c, 'e) upstream =
  up_dates :: rfc3339
  up_chain :: "'c chain_api"
  up_texts :: texts
  up_policies :: "'e policy_api"
  up_iron_condor :: "upstream_args \<Rightarrow> string + 'p"
  up_iron_condor_ops :: "'p positionable"
  up_strangle :: "upstream_args \<Rightarrow> string + 'q"
  up_strangle_ops :: "'q positionable"

definition run_spec_with_feed ::
    "('e, 'r, 'b) runner \<Rightarrow> ('p, 'q, 'c, 'e) upstream \<Rightarrow> 'k backtest_config \<Rightarrow> ('f, 'd) data_feed \<Rightarrow> 'f
      \<Rightarrow> strategy_spec \<Rightarrow> exit_policy \<Rightarrow> ('d, 'e) analysed_run res option" where
  "run_spec_with_feed U V config F f spec exit =
     (let name = spec_kind spec in
      case spec of
        IronCondorSpec _ \<Rightarrow>
          try_res (iron_condor_from_spec (ru_ext U) (up_iron_condor V) spec exit) (\<lambda>s.
          run_with_feed U config F f
            (opt_strat (ru_ext U) (up_dates V) (up_chain V) (up_iron_condor_ops V) (up_policies V)) s name)
      | ShortStrangleSpec _ \<Rightarrow>
          try_res (short_strangle_from_spec (ru_ext U) (up_strangle V) spec exit) (\<lambda>s.
          run_with_feed U config F f
            (opt_strat (ru_ext U) (up_dates V) (up_chain V) (up_strangle_ops V) (up_policies V)) s name)
      | LegsSpec _ \<Rightarrow>
          try_res (leg_set_from_spec (ru_ext U) (up_texts V) spec exit) (\<lambda>s.
          run_with_feed U config F f (leg_set (ru_ext U) (up_policies V)) s name))"

text \<open>The file system: what is found at a path, with the layout and hash of the reader.\<close>

record 'h tape_files =
  tf_layout :: layout
  tf_sha :: "'h sha_api"
  tf_at :: "string \<Rightarrow> parquet_source"

definition parquet_open_at ::
    "ext \<Rightarrow> 'h tape_files \<Rightarrow> resource_limits \<Rightarrow> string \<Rightarrow> parquet_feed res" where
  "parquet_open_at X P limits path = parquet_open X (tf_layout P) (tf_sha P) limits (tf_at P path)"

definition run_from_config ::
    "('e, 'r, 'b) runner \<Rightarrow> ('p, 'q, 'c, 'e) upstream \<Rightarrow> 'h tape_files \<Rightarrow> run_config \<Rightarrow> strategy_spec \<Rightarrow> exit_policy
      \<Rightarrow> (session_request data_source_spec, 'e) analysed_run res option" where
  "run_from_config U V P config spec exit =
     try_res (backtest_config_validate (ru_ext U) config) (\<lambda>_.
     case bc_data_source config of
       ParquetSource path _ \<Rightarrow>
         try_res (parquet_open_at (ru_ext U) P (bc_limits config) path) (\<lambda>feed.
         run_spec_with_feed U V config parquet_data_feed feed spec exit)
     | _ \<Rightarrow> Some (Inl (Config MsgRunSource)))"

section \<open>What a successful run went through\<close>

lemma try_res_Inr: "try_res m f = Some (Inr y) \<longleftrightarrow> (\<exists>x. m = Inr x \<and> f x = Some (Inr y))"
  by (cases m) (auto simp: try_res_def)

lemma or_panic_Inr: "or_panic m f = Some r \<longleftrightarrow> (\<exists>x. m = Some x \<and> f x = Some r)"
  by (cases m) (auto simp: or_panic_def)

lemma run_with_feed_Inr:
  assumes "run_with_feed U config F f SY s name = Some (Inr out)"
  obtains run summary rows initial where "backtest_config_validate (ru_ext U) config = Inr ()"
    and "engine_run U config F f SY s name = Some (Inr run)"
    and "populate (ru_ext U) (ru_blank U) (br_equity_curve run) initial (br_trade_log run)
       (br_open_at_end run) = Some (Inr summary)"
    and "attribute (ru_ext U) (br_substrate run) = Inr rows"
    and "out = analyse run summary rows"
  using assms by (auto simp: run_with_feed_def try_res_Inr or_panic_Inr intro: that)

text \<open>
  A leg set is run the same whatever order its legs are written in: the order reaches neither the
  strategy nor the run.
\<close>

lemma leg_set_run_order_free:
  assumes "mset legs = mset (lss_legs s)"
  shows "run_spec_with_feed U V config F f (LegsSpec (s\<lparr>lss_legs := legs\<rparr>)) exit = Some (Inr run) \<longleftrightarrow>
    run_spec_with_feed U V config F f (LegsSpec s) exit = Some (Inr run)"
proof -
  have "leg_set_from_spec X T (LegsSpec (s\<lparr>lss_legs := legs\<rparr>)) exit = Inr t \<longleftrightarrow>
      leg_set_from_spec X T (LegsSpec s) exit = Inr t" for X T t
    using leg_set_new_Inr [of X T "s\<lparr>lss_legs := legs\<rparr>" exit t] leg_set_new_Inr [of X T s exit t]
      leg_order.sort_by_order_free [OF assms, of T] mset_eq_setD [OF assms] assms
    by (auto simp: leg_set_from_spec_def)
  then show ?thesis by (simp add: run_spec_with_feed_def try_res_Inr)
qed

end
