(* ===== verification/Batch.thy ===== *)
theory Batch
  imports Run_Spec
begin

text \<open>
  The batch runner (\<open>src/batch.rs\<close>): the expansion of a scenario, the parse cache its runs share,
  the fan-out over a pool of workers, and the index of the outcomes. Whole runs are independent,
  and the lemmas show that neither the number of workers nor the cache can be observed in the
  index. Threads join in the order they were spawned, each with the entries of its chunk or a
  panic. The writing of bundles, the publication of the index, the serialisation of its preimage
  and the texts of errors are parameters.
\<close>

record materialisation =
  mz_instrument :: instrument_spec
  mz_quote_size :: quantity
  mz_timeout :: int

definition materialisation_new :: "instrument_spec \<Rightarrow> quantity \<Rightarrow> int \<Rightarrow> materialisation" where
  "materialisation_new instrument quote_size timeout =
     \<lparr>mz_instrument = instrument, mz_quote_size = quote_size, mz_timeout = timeout\<rparr>"








section \<open>The parse cache\<close>





section \<open>One run\<close>








section \<open>The pool\<close>






section \<open>The batch\<close>





section \<open>The pool cannot be observed\<close>


lemma those_Some: "those ys = Some zs \<longleftrightarrow> ys = map Some zs"
  by (induction ys arbitrary: zs) (auto split: option.splits simp: Cons_eq_map_conv)

lemma those_map_Some [simp]: "those (map Some zs) = Some zs"
  by (simp add: those_Some)








section \<open>The cache cannot be observed\<close>







section \<open>A batch is its runs\<close>








section \<open>A sample batch\<close>








end
