(* ===== verification/Spec2Isabelle.thy ===== *)
theory Spec2Isabelle
  imports Money Contract Contract_Id Market Orders Run_Config Sim_Clock Ledger Trade_Log
    Bundle_Collector Substrate Attribution Execution_Seam Naive_Fill Engine_Books Engine_Fills
    Fill_Effects Books_Sync Books_Errors Tape_Feed Data_Source Replay_Feed Strategy_Seam Engine
    Engine_Run Convert Tape_Build Parquet_Tape Csv_Tape Chain_Convert Run_Invariant
    Strategy_Spec Exit_Policy Leg_Set Leg_Set_Run
    Liquidity Realistic_Fill Realistic_Mirror Realistic_Run
    Historical_Run Metrics Scenario Run_Spec Batch
begin

text \<open>
  A verification library for IronCondor, an options backtester in Rust (the crate under
  \<open>src/src/\<close>).

  \<^bold>\<open>The program.\<close> A run replays a tape of option chain snapshots. At every snapshot the engine
  (\<open>engine/backtest.rs\<close>) moves the clock, lets the strategy emit closes and then entries, gives
  the commands to an execution model, books the fills it returns and settles the ledger. The
  state of a run is the inventory of open legs, the ledger of cash and marks, the log of closed
  trades, the rows of the result bundle, the registry of resting orders and the samples from
  which profit is attributed to the greeks afterwards.

  \<^bold>\<open>Conventions.\<close> Machine integers are HOL integers with their width written out: a checked
  operation or a \<open>try_from\<close> of the source tests the range and its failure is a value. Errors
  are values of a sum (\<open>Prelude\<close>, \<open>Backtest_Error\<close>); a call that fails discards the state, as
  every caller in the source does. Structures are records, enumerations datatypes, ordered maps
  sorted association lists (\<open>Btree_Map\<close>). Loops are folds or recursions over lists; the loop of a
  run, whose end depends on the feed, is a partial function whose value \<open>None\<close> would mean that
  it does not return, and \<open>run_returns\<close> shows that it always does. No fuel is used anywhere.
  A double is a real number rounded to the nearest double (\<open>Float64\<close>). What comes from other
  crates is a parameter: decimals and instants (record \<open>ext\<close> in \<open>External\<close>, with what their
  documentation promises as named predicates), the order book, the upstream strategy objects and
  exit policies, exit reasons, the random generator and, as the
  engine is generic in them, the strategy, the execution model and the feed.

  \<^bold>\<open>Theories and what they model.\<close>
  \<^item> \<open>Money\<close> (\<open>domain/money.rs\<close>): cents, prices, quantities and their decimal conversions.
  \<^item> \<open>Contract\<close>, \<open>Contract_Id\<close>, \<open>Integer_Text\<close> (\<open>domain/contract.rs\<close>): identity, order and the
    textual identifier of a contract, with its round trip.
  \<^item> \<open>Market\<close>, \<open>Orders\<close> (\<open>domain/market.rs\<close>, \<open>domain/execution.rs\<close>): snapshots, intents, commands,
    positions, fills, the sign convention.
  \<^item> \<open>Run_Config\<close> (\<open>config.rs\<close>), \<open>Sim_Clock\<close> (\<open>engine/clock.rs\<close>).
  \<^item> \<open>Ledger\<close> (\<open>engine/ledger.rs\<close>), \<open>Trade_Log\<close> (\<open>engine/tradelog.rs\<close>), \<open>Bundle_Collector\<close>
    (\<open>engine/bundle_collector.rs\<close>): cash, marks, equity and drawdown; realised trades; bundle rows.
  \<^item> \<open>Substrate\<close>, \<open>Attribution\<close> (\<open>engine/substrate.rs\<close>, \<open>analytics/attribution.rs\<close>): the samples of
    a step, and the attribution pass, whose rows sum exactly to the step profit.
  \<^item> \<open>Execution_Seam\<close> (\<open>execution/mod.rs\<close>): the interface of an execution model as a locale;
    \<open>Naive_Fill\<close> (\<open>execution/naive.rs\<close>) interprets it.
  \<^item> \<open>Engine_Books\<close>, \<open>Engine_Fills\<close> (\<open>engine/backtest.rs\<close>): ids, pending orders, leg changes, and the
    pass that correlates fills with the commands of a step. \<open>Fill_Effects\<close> shows that every fill
    is booked exactly once, \<open>Books_Sync\<close> that inventory, trade log and bundle rows stay three
    views of the same open legs, \<open>Books_Errors\<close> that the defensive errors are unreachable then.
  \<^item> \<open>Convert\<close>, \<open>Chain_Convert\<close> (\<open>data/convert.rs\<close>): the validation of raw quotes, with the exact
    set of accepted inputs; the response of the simulator; the option chain of a snapshot.
  \<^item> \<open>Data_Source\<close>, \<open>Tape_Feed\<close>, \<open>Replay_Feed\<close> (\<open>data/mod.rs\<close>, \<open>data/feed.rs\<close>, \<open>data/historical.rs\<close>):
    recorded sources, tape validation, and the feeds that replay a tape, as interpretations of
    one locale.
  \<^item> \<open>Tape_Build\<close>, \<open>Parquet_Tape\<close>, \<open>Csv_Tape\<close> (\<open>data/historical.rs\<close>): the ceilings of a tape, and
    the reading of a Parquet file and of a directory of CSV files, from what the operating system
    and the crates report of them to a tape that is valid, within its limits and complete.
  \<^item> \<open>Strategy_Seam\<close>, \<open>Engine\<close>, \<open>Engine_Run\<close> (\<open>engine/strategy.rs\<close>, \<open>engine/backtest.rs\<close>): the
    strategy interface, a step, the loop; every run returns. \<open>Historical_Run\<close>: a run over an opened
    historical feed is a fold over its tape.
  \<^item> \<open>Run_Invariant\<close>: the states a run reaches, as an inductive relation, and what holds in all of
    them; the profit of a run is what the attribution explains, its cash, fees and slippage are
    those of its fills.
  \<^item> \<open>Strategy_Spec\<close> (\<open>domain/strategy_spec.rs\<close>): specifications and the canonical order of legs.
    \<open>Exit_Policy\<close>, \<open>Leg_Set\<close> (\<open>engine/strategy.rs\<close>): exit policies, the closing at the end of the
    data, the leg-set strategy and the adapter of an upstream strategy, as strategies of the seam.
    \<open>Leg_Set_Run\<close>: a run of the leg set under naive execution ends flat.
  \<^item> \<open>Liquidity\<close>, \<open>Realistic_Fill\<close> (\<open>execution/liquidity.rs\<close>, \<open>execution/realistic.rs\<close>): the ladders a
    snapshot seeds and the fill model over the order books, which are a parameter.
    \<open>Realistic_Mirror\<close> interprets the execution interface on it and shows that its registry of
    resting orders stays consistent; \<open>Realistic_Run\<close> lifts that to every state of a run.
  \<^item> \<open>Doubles\<close>, \<open>Metrics\<close> (\<open>analytics/metrics.rs\<close>): the summary figures of a run, money in checked
    integers, ratios in decimals, statistics in doubles; the drawdown in cents and the realised
    figures are exact.
  \<^item> \<open>Scenario\<close> (\<open>engine/scenario.rs\<close>), \<open>Run_Spec\<close> (\<open>run.rs\<close>), \<open>Batch\<close> (\<open>batch.rs\<close>): the expansion of a
    scenario into configurations, the run of one of them from its specification to its summary
    and attribution, and the batch: an index of independent runs, in which neither the number of
    workers nor the shared parse cache can be observed. A value \<open>None\<close> of these functions is a run
    that panics, in an operator of \<open>Decimal\<close> that has no checked form, or that does not return.

  \<^bold>\<open>Not modelled.\<close> Writing and reading bundles (\<open>bundle/\<close>), which is the layout of Arrow columns and the
  order of file system calls; the HTTP client (\<open>data/simulator.rs\<close>), whose feed is a parameter of
  a batch, as are the writing of a run's bundle, the publication of the index and the bytes that
  \<open>serde_json\<close> renders; the Python bindings; logging, the spawning of threads itself, and capacity
  reservation, which has no effect on results.
\<close>

end
